theory Spec2Isabelle
  imports Main "HOL-Library.Word"
begin

section \<open>The message-signing key service\<close>

text \<open>
  A shallow embedding of \<^verbatim>\<open>MessageSigningService\<close>. The service is a sequential
  procedure over two external APIs: the saved-objects store (\<^verbatim>\<open>soClient\<close>,
  \<^verbatim>\<open>esoClient\<close>) and Node's \<^verbatim>\<open>crypto\<close> and \<^verbatim>\<open>Buffer\<close> modules. The store is modelled
  as explicit state, the library primitives are taken as a parameter, and every
  external call may throw.
\<close>

subsection \<open>Data\<close>

type_synonym Buffer = "8 word list"

text \<open>
  \<^verbatim>\<open>interface MessageSigningKeys\<close>. The service writes
  \<^verbatim>\<open>Partial<MessageSigningKeys>\<close> objects, so every attribute may be absent.
\<close>

record MessageSigningKeys =
  private_key :: "string option"
  public_key :: "string option"
  passphrase :: "string option"
  passphrase_plain :: "string option"

text \<open>
  \<^verbatim>\<open>SavedObjectsFindResult<MessageSigningKeys>\<close>, restricted to the fields the service
  reads. Identifiers are opaque; they are numbered here. The service tests
  \<^verbatim>\<open>!attributes\<close>, so the attributes may be absent too.
\<close>

record SavedObject =
  so_id :: nat
  created_at :: nat
  attributes :: "MessageSigningKeys option"

text \<open>The object \<^verbatim>\<open>{ privateKey, publicKey, passphrase }\<close> returned by \<^verbatim>\<open>generateKeyPair\<close>;
  its third field is named \<open>kp_passphrase\<close>, the attribute record owning the other name.\<close>

record KeyPair =
  privateKey :: string
  publicKey :: string
  kp_passphrase :: string

text \<open>The object \<^verbatim>\<open>{ data, signature }\<close> returned by \<^verbatim>\<open>sign\<close>.\<close>

record Signed =
  data :: Buffer
  signature :: string

text \<open>\<^verbatim>\<open>message: Buffer | Record<string, unknown>\<close>.\<close>

datatype 'r message = IsBuffer Buffer | IsRecord 'r

text \<open>The options object passed to \<^verbatim>\<open>generateKeyPairSync\<close>.\<close>

record ECKeyPairOptions =
  namedCurve :: string
  privateKeyEncoding_type :: string
  privateKeyEncoding_format :: string
  privateKeyEncoding_cipher :: string
  privateKeyEncoding_passphrase :: string
  publicKeyEncoding_type :: string
  publicKeyEncoding_format :: string

text \<open>The key object passed to \<^verbatim>\<open>signer.sign\<close>.\<close>

record SignKey =
  key :: Buffer
  key_passphrase :: string
  key_format :: string
  key_type :: string

text \<open>
  The primitives of Node's \<^verbatim>\<open>crypto\<close>, \<^verbatim>\<open>Buffer\<close> and \<^verbatim>\<open>JSON\<close> that the service
  calls. They are not code of the service and are a parameter of the model. The
  randomised ones take the state of the entropy source as their first argument.
  \<open>signer_sign seed algorithm bytes key encoding\<close> stands for
  \<^verbatim>\<open>createSign(algorithm)\<close>, \<^verbatim>\<open>update(bytes)\<close>, \<^verbatim>\<open>end()\<close>, \<^verbatim>\<open>sign(key, encoding)\<close>.
  \<open>JSON_stringify r\<close> is \<open>Inr s\<close> when \<^verbatim>\<open>JSON.stringify(r)\<close> is the string \<open>s\<close>, and
  \<open>Inl m\<close> when \<^verbatim>\<open>Buffer.from(JSON.stringify(r), 'utf8')\<close> throws a \<^verbatim>\<open>TypeError\<close> with
  message \<open>m\<close>: \<^verbatim>\<open>JSON.stringify\<close> throws on a \<^verbatim>\<open>BigInt\<close> or a cycle, and
  \<^verbatim>\<open>Buffer.from\<close> throws on the \<^verbatim>\<open>undefined\<close> that \<^verbatim>\<open>JSON.stringify\<close> may return.
\<close>

record 'r node =
  randomBytes :: "nat \<Rightarrow> nat \<Rightarrow> Buffer"
  generateKeyPairSync :: "nat \<Rightarrow> string \<Rightarrow> ECKeyPairOptions \<Rightarrow> Buffer \<times> Buffer"
  signer_sign :: "nat \<Rightarrow> string \<Rightarrow> Buffer \<Rightarrow> SignKey \<Rightarrow> string \<Rightarrow> string"
  toString :: "Buffer \<Rightarrow> string \<Rightarrow> string"
  Buffer_from :: "string \<Rightarrow> string \<Rightarrow> Buffer"
  JSON_stringify :: "'r \<Rightarrow> string + string"

subsection \<open>Errors and external calls\<close>

text \<open>
  \<open>Thrown e\<close> is an error \<open>e\<close> thrown by a dependency; \<open>Error m\<close> is
  \<^verbatim>\<open>new Error(m)\<close> thrown by the code itself; \<open>TypeError m\<close> is a \<^verbatim>\<open>TypeError\<close>
  that the language runtime throws while the code evaluates one of its own expressions.
\<close>

datatype error = Thrown string | Error string | TypeError string

text \<open>The external calls the service makes, as they appear in its trace.\<close>

datatype call =
    Find
  | Close
  | Create MessageSigningKeys
  | Update nat MessageSigningKeys
  | Delete nat
  | RandomBytes nat
  | GenerateKeyPairSync
  | CreateSign
  | SignerSign

text \<open>
  The world the service runs in. \<open>store\<close> holds the saved objects of type
  \<^verbatim>\<open>MESSAGE_SIGNING_KEYS_SAVED_OBJECT_TYPE\<close>; attribute encryption at rest is
  transparent to the service (it writes through \<^verbatim>\<open>soClient\<close> and reads decrypted
  objects), so attributes are kept in the clear. \<open>encryptedSavedObjectsSetup\<close> is
  \<^verbatim>\<open>appContextService.getEncryptedSavedObjectsSetup()\<close>, reduced to its
  \<^verbatim>\<open>canEncrypt\<close> flag, \<open>None\<close> when the setup contract is undefined. \<open>now\<close> and
  \<open>next_id\<close> are the store's clock and identifier supply, \<open>entropy\<close> the state of the
  random source. \<open>trace\<close> records every external call made, with what it threw.
  \<open>faults\<close> scripts the outcome of the external calls by their position in the
  trace: \<open>Some e\<close> makes the call throw \<open>e\<close>, \<open>None\<close> lets it succeed.
\<close>

record world =
  store :: "SavedObject list"
  encryptedSavedObjectsSetup :: "bool option"
  now :: nat
  next_id :: nat
  entropy :: nat
  faults :: "nat \<Rightarrow> string option"
  trace :: "(call \<times> string option) list"

type_synonym 'a eff = "world \<Rightarrow> (error + 'a) \<times> world"

definition resolve :: "'a \<Rightarrow> 'a eff" where
  "resolve x w = (Inr x, w)"

definition reject :: "error \<Rightarrow> 'a eff" where
  "reject e w = (Inl e, w)"

text \<open>\<open>await m k\<close>: run \<open>m\<close>; an error leaves the function at once, a value goes on to \<open>k\<close>.\<close>

definition await :: "'a eff \<Rightarrow> ('a \<Rightarrow> 'b eff) \<Rightarrow> 'b eff" where
  "await m k w = (case m w of (Inl e, w1) \<Rightarrow> (Inl e, w1) | (Inr x, w1) \<Rightarrow> k x w1)"

text \<open>An external call: it is recorded, and throws when the script says so.\<close>

definition external :: "call \<Rightarrow> unit eff" where
  "external c w =
     (case faults w (length (trace w)) of
        None \<Rightarrow> (Inr (), w\<lparr>trace := trace w @ [(c, None)]\<rparr>)
      | Some e \<Rightarrow> (Inl (Thrown e), w\<lparr>trace := trace w @ [(c, Some e)]\<rparr>))"

subsection \<open>JavaScript truthiness of optional strings\<close>

text \<open>\<^verbatim>\<open>undefined\<close> and \<^verbatim>\<open>''\<close> are falsy, every other string is truthy.\<close>

definition truthy :: "string option \<Rightarrow> bool" where
  "truthy s = (case s of None \<Rightarrow> False | Some v \<Rightarrow> v \<noteq> [])"

text \<open>\<^verbatim>\<open>a || b\<close>\<close>

definition js_or :: "string option \<Rightarrow> string option \<Rightarrow> string option" where
  "js_or a b = (if truthy a then a else b)"

text \<open>The string behind a value already known to be truthy.\<close>

definition the_string :: "string option \<Rightarrow> string" where
  "the_string s = (case s of None \<Rightarrow> [] | Some v \<Rightarrow> v)"

subsection \<open>The saved-objects clients\<close>

text \<open>
  The scoped client behind \<^verbatim>\<open>this.soClient\<close> is made on first use and kept; making it
  belongs to the call that uses it. An update or a delete always follows a find of the
  same object, so a missing identifier is not a case of its own: a call that fails for
  any reason is a scripted fault, and a call that throws leaves the store as it was.

  \<^verbatim>\<open>soClient.create(type, attributes)\<close>: the store assigns the identifier and the
  creation time.
\<close>

definition soClient_create :: "MessageSigningKeys \<Rightarrow> unit eff" where
  "soClient_create attrs =
     await (external (Create attrs)) (\<lambda>_ w.
       (Inr (), w\<lparr>store := store w @ [\<lparr>so_id = next_id w, created_at = now w, attributes = Some attrs\<rparr>],
                  next_id := Suc (next_id w), now := Suc (now w)\<rparr>))"

text \<open>\<^verbatim>\<open>soClient.update(type, id, attributes)\<close>: the given attributes are merged into
  the object; the service always passes all four or the ones already present.\<close>

definition merge_attributes :: "MessageSigningKeys \<Rightarrow> MessageSigningKeys option \<Rightarrow> MessageSigningKeys" where
  "merge_attributes new old =
     (case old of
        None \<Rightarrow> new
      | Some a \<Rightarrow> \<lparr>private_key = (case private_key new of None \<Rightarrow> private_key a | Some v \<Rightarrow> Some v),
                   public_key = (case public_key new of None \<Rightarrow> public_key a | Some v \<Rightarrow> Some v),
                   passphrase = (case passphrase new of None \<Rightarrow> passphrase a | Some v \<Rightarrow> Some v),
                   passphrase_plain = (case passphrase_plain new of None \<Rightarrow> passphrase_plain a | Some v \<Rightarrow> Some v)\<rparr>)"

definition soClient_update :: "nat \<Rightarrow> MessageSigningKeys \<Rightarrow> unit eff" where
  "soClient_update i attrs =
     await (external (Update i attrs)) (\<lambda>_ w.
       (Inr (), w\<lparr>store := map (\<lambda>obj. if so_id obj = i
                                        then obj\<lparr>attributes := Some (merge_attributes attrs (attributes obj))\<rparr>
                                        else obj) (store w)\<rparr>))"

text \<open>\<^verbatim>\<open>soClient.delete(type, id)\<close>\<close>

definition soClient_delete :: "nat \<Rightarrow> unit eff" where
  "soClient_delete i =
     await (external (Delete i)) (\<lambda>_ w.
       (Inr (), w\<lparr>store := filter (\<lambda>obj. so_id obj \<noteq> i) (store w)\<rparr>))"

text \<open>
  \<^verbatim>\<open>esoClient.createPointInTimeFinderDecryptedAsInternalUser({ type, perPage,
  sortField: 'created_at', sortOrder: 'desc' })\<close> followed by the first page of
  \<^verbatim>\<open>finder.find()\<close>: the \<open>perPage\<close> newest objects, newest first.
\<close>

definition finder_find :: "nat \<Rightarrow> SavedObject list eff" where
  "finder_find perPage =
     await (external Find) (\<lambda>_ w. (Inr (take perPage (rev (sort_key created_at (store w)))), w))"

text \<open>\<^verbatim>\<open>finder.close()\<close> is not awaited: the service never sees it fail.\<close>

definition finder_close :: "unit eff" where
  "finder_close w = (Inr (), w\<lparr>trace := trace w @ [(Close, None)]\<rparr>)"

subsection \<open>The cryptographic primitives\<close>

definition crypto_randomBytes :: "'r node \<Rightarrow> nat \<Rightarrow> Buffer eff" where
  "crypto_randomBytes n sz =
     await (external (RandomBytes sz)) (\<lambda>_ w.
       (Inr (randomBytes n (entropy w) sz), w\<lparr>entropy := Suc (entropy w)\<rparr>))"

definition crypto_generateKeyPairSync :: "'r node \<Rightarrow> string \<Rightarrow> ECKeyPairOptions \<Rightarrow> (Buffer \<times> Buffer) eff" where
  "crypto_generateKeyPairSync n kind options =
     await (external GenerateKeyPairSync) (\<lambda>_ w.
       (Inr (generateKeyPairSync n (entropy w) kind options), w\<lparr>entropy := Suc (entropy w)\<rparr>))"

text \<open>\<^verbatim>\<open>createSign(algorithm); signer.update(bytes); signer.end()\<close>: the signer is
  represented by the algorithm and the bytes it was fed.\<close>

definition crypto_createSign :: "string \<Rightarrow> Buffer \<Rightarrow> (string \<times> Buffer) eff" where
  "crypto_createSign algorithm bytes =
     await (external CreateSign) (\<lambda>_. resolve (algorithm, bytes))"

definition crypto_signer_sign :: "'r node \<Rightarrow> string \<times> Buffer \<Rightarrow> SignKey \<Rightarrow> string \<Rightarrow> string eff" where
  "crypto_signer_sign n signer k encoding =
     await (external SignerSign) (\<lambda>_ w.
       (Inr (signer_sign n (entropy w) (fst signer) (snd signer) k encoding), w\<lparr>entropy := Suc (entropy w)\<rparr>))"

subsection \<open>The service\<close>

text \<open>\<^verbatim>\<open>get isEncryptionAvailable\<close>:
  \<^verbatim>\<open>appContextService.getEncryptedSavedObjectsSetup()?.canEncrypt ?? false\<close>\<close>

definition isEncryptionAvailable :: "world \<Rightarrow> bool" where
  "isEncryptionAvailable w =
     (case encryptedSavedObjectsSetup w of None \<Rightarrow> False | Some canEncrypt \<Rightarrow> canEncrypt)"

text \<open>\<^verbatim>\<open>getCurrentKeyPairObj\<close>: the first object of the first page, if any.\<close>

definition getCurrentKeyPairObj :: "SavedObject option eff" where
  "getCurrentKeyPairObj =
     await (finder_find 1) (\<lambda>saved_objects.
     await finder_close (\<lambda>_.
     resolve (case saved_objects of [] \<Rightarrow> None | soDoc # _ \<Rightarrow> Some soDoc)))"

text \<open>\<^verbatim>\<open>checkForExistingKeyPair\<close>\<close>

definition checkForExistingKeyPair :: "KeyPair option eff" where
  "checkForExistingKeyPair =
     await getCurrentKeyPairObj (\<lambda>currentKeyPair.
       case currentKeyPair of
         None \<Rightarrow> resolve None
       | Some cur \<Rightarrow>
          (case attributes cur of
             None \<Rightarrow> resolve None
           | Some attrs \<Rightarrow>
              (let privateKey = private_key attrs;
                   publicKey = public_key attrs;
                   passphraseEncrypted = passphrase attrs;
                   passphrasePlain = passphrase_plain attrs;
                   passphrase = js_or passphraseEncrypted passphrasePlain
               in if \<not> truthy privateKey \<or> \<not> truthy publicKey \<or> \<not> truthy passphrase
                  then resolve None
                  else
                    await (\<lambda>w. if truthy passphrasePlain \<and> isEncryptionAvailable w
                               then soClient_update (so_id cur)
                                      (attrs\<lparr>passphrase := passphrase, passphrase_plain := Some []\<rparr>) w
                               else resolve () w) (\<lambda>_.
                    resolve (Some \<lparr>privateKey = the_string privateKey,
                                   publicKey = the_string publicKey,
                                   kp_passphrase = the_string passphrase\<rparr>)))))"

text \<open>\<^verbatim>\<open>generatePassphrase\<close>: \<^verbatim>\<open>randomBytes(32).toString('hex')\<close>\<close>

definition generatePassphrase :: "'r node \<Rightarrow> string eff" where
  "generatePassphrase n =
     await (crypto_randomBytes n 32) (\<lambda>bytes. resolve (toString n bytes ''hex''))"

text \<open>\<^verbatim>\<open>generateKeyPair(providedPassphrase?)\<close>\<close>

definition generateKeyPair :: "'r node \<Rightarrow> string option \<Rightarrow> KeyPair eff" where
  "generateKeyPair n providedPassphrase =
     await checkForExistingKeyPair (\<lambda>existingKeyPair.
       case existingKeyPair of
         Some kp \<Rightarrow> resolve kp
       | None \<Rightarrow>
           await (if truthy providedPassphrase
                  then resolve (the_string providedPassphrase)
                  else generatePassphrase n) (\<lambda>passphrase.
           await (crypto_generateKeyPairSync n ''ec''
                    \<lparr>namedCurve = ''prime256v1'',
                     privateKeyEncoding_type = ''pkcs8'',
                     privateKeyEncoding_format = ''der'',
                     privateKeyEncoding_cipher = ''aes-256-cbc'',
                     privateKeyEncoding_passphrase = passphrase,
                     publicKeyEncoding_type = ''spki'',
                     publicKeyEncoding_format = ''der''\<rparr>) (\<lambda>keyPair.
             (let privateKey = toString n (fst keyPair) ''base64'';
                  publicKey = toString n (snd keyPair) ''base64'';
                  keypairSoObject = \<lparr>private_key = Some privateKey, public_key = Some publicKey,
                                     passphrase = None, passphrase_plain = None\<rparr>
              in await (\<lambda>w. soClient_create
                               (if isEncryptionAvailable w
                                then keypairSoObject\<lparr>passphrase := Some passphrase\<rparr>
                                else keypairSoObject\<lparr>passphrase_plain := Some passphrase\<rparr>) w) (\<lambda>_.
                 resolve \<lparr>privateKey = privateKey, publicKey = publicKey,
                          kp_passphrase = passphrase\<rparr>)))))"

text \<open>\<^verbatim>\<open>sign(message)\<close>: the message is serialised after the key pair has been read or
  generated, and before the signer is made.\<close>

definition sign :: "'r node \<Rightarrow> 'r message \<Rightarrow> Signed eff" where
  "sign n message =
     await (generateKeyPair n None) (\<lambda>kp.
       (let serializedPrivateKey = privateKey kp;
            passphrase = kp_passphrase kp
        in await (case message of
                    IsBuffer b \<Rightarrow> resolve b
                  | IsRecord r \<Rightarrow>
                      (case JSON_stringify n r of
                         Inl m \<Rightarrow> reject (TypeError m)
                       | Inr s \<Rightarrow> resolve (Buffer_from n s ''utf8''))) (\<lambda>msgBuffer.
           await (crypto_createSign ''SHA256'' msgBuffer) (\<lambda>signer.
             if serializedPrivateKey = [] then reject (Error ''unable to find private key'')
             else if passphrase = [] then reject (Error ''unable to find passphrase'')
             else
               (let privateKey = Buffer_from n serializedPrivateKey ''base64''
                in await (crypto_signer_sign n signer
                            \<lparr>key = privateKey, key_passphrase = passphrase,
                             key_format = ''der'', key_type = ''pkcs8''\<rparr> ''base64'') (\<lambda>signature.
                     resolve \<lparr>data = msgBuffer, signature = signature\<rparr>))))))"

text \<open>\<^verbatim>\<open>getPublicKey()\<close>\<close>

definition getPublicKey :: "'r node \<Rightarrow> string eff" where
  "getPublicKey n =
     await (generateKeyPair n None) (\<lambda>kp.
       (let publicKey = publicKey kp
        in if publicKey = [] then reject (Error ''unable to find public key'')
           else resolve publicKey))"

text \<open>\<^verbatim>\<open>removeKeyPair()\<close>\<close>

definition removeKeyPair :: "bool eff" where
  "removeKeyPair =
     await getCurrentKeyPairObj (\<lambda>currentKeyPair.
       case currentKeyPair of
         Some cur \<Rightarrow> await (soClient_delete (so_id cur)) (\<lambda>_. resolve True)
       | None \<Rightarrow> resolve False)"

text \<open>\<^verbatim>\<open>rotateKeyPair()\<close>\<close>

definition rotateKeyPair :: "'r node \<Rightarrow> bool eff" where
  "rotateKeyPair n =
     await removeKeyPair (\<lambda>isRemoved.
       if isRemoved then await (generateKeyPair n None) (\<lambda>_. resolve True)
       else resolve False)"

subsection \<open>Notions used in the statements\<close>

text \<open>The current key pair object of a store: what \<^verbatim>\<open>getCurrentKeyPairObj\<close> finds.\<close>

definition current :: "SavedObject list \<Rightarrow> SavedObject option" where
  "current objs =
     (case take 1 (rev (sort_key created_at objs)) of [] \<Rightarrow> None | soDoc # _ \<Rightarrow> Some soDoc)"

text \<open>
  The key pair a saved object carries: its attributes hold a non-empty private key, a
  non-empty public key and a non-empty passphrase in \<open>passphrase\<close> or in
  \<open>passphrase_plain\<close>, the former taking precedence.
\<close>

definition stored_key_pair :: "SavedObject \<Rightarrow> KeyPair option" where
  "stored_key_pair obj =
     (case attributes obj of
        None \<Rightarrow> None
      | Some a \<Rightarrow>
          if truthy (private_key a) \<and> truthy (public_key a)
             \<and> (truthy (passphrase a) \<or> truthy (passphrase_plain a))
          then Some \<lparr>privateKey = the_string (private_key a),
                     publicKey = the_string (public_key a),
                     kp_passphrase = (if truthy (passphrase a) then the_string (passphrase a)
                                      else the_string (passphrase_plain a))\<rparr>
          else None)"

definition existing_key_pair :: "SavedObject list \<Rightarrow> KeyPair option" where
  "existing_key_pair objs = (case current objs of None \<Rightarrow> None | Some obj \<Rightarrow> stored_key_pair obj)"

text \<open>The world after one more recorded call.\<close>

definition logged :: "call \<Rightarrow> string option \<Rightarrow> world \<Rightarrow> world" where
  "logged c r w = w\<lparr>trace := trace w @ [(c, r)]\<rparr>"

text \<open>The attributes written back when a plain passphrase is moved to the encrypted attribute.\<close>

definition upgraded :: "MessageSigningKeys \<Rightarrow> MessageSigningKeys" where
  "upgraded attrs = attrs\<lparr>passphrase := js_or (passphrase attrs) (passphrase_plain attrs),
                          passphrase_plain := Some []\<rparr>"

text \<open>
  The second half of \<^verbatim>\<open>generateKeyPair\<close>, taken when no key pair exists: choose the
  passphrase, generate the keys, persist them, return them.
\<close>

definition generateFresh :: "'r node \<Rightarrow> string option \<Rightarrow> KeyPair eff" where
  "generateFresh n providedPassphrase =
     await (if truthy providedPassphrase
            then resolve (the_string providedPassphrase)
            else generatePassphrase n) (\<lambda>passphrase.
     await (crypto_generateKeyPairSync n ''ec''
              \<lparr>namedCurve = ''prime256v1'',
               privateKeyEncoding_type = ''pkcs8'',
               privateKeyEncoding_format = ''der'',
               privateKeyEncoding_cipher = ''aes-256-cbc'',
               privateKeyEncoding_passphrase = passphrase,
               publicKeyEncoding_type = ''spki'',
               publicKeyEncoding_format = ''der''\<rparr>) (\<lambda>keyPair.
       (let privateKey = toString n (fst keyPair) ''base64'';
            publicKey = toString n (snd keyPair) ''base64'';
            keypairSoObject = \<lparr>private_key = Some privateKey, public_key = Some publicKey,
                               passphrase = None, passphrase_plain = None\<rparr>
        in await (\<lambda>w. soClient_create
                         (if isEncryptionAvailable w
                          then keypairSoObject\<lparr>passphrase := Some passphrase\<rparr>
                          else keypairSoObject\<lparr>passphrase_plain := Some passphrase\<rparr>) w) (\<lambda>_.
           resolve \<lparr>privateKey = privateKey, publicKey = publicKey,
                    kp_passphrase = passphrase\<rparr>))))"

text \<open>
  The key pair a fresh generation yields in world \<open>w\<close>: the passphrase is the provided
  one when it is truthy and 32 random bytes in hex otherwise; the keys are a
  \<^verbatim>\<open>prime256v1\<close> EC pair, the private key in PKCS8 DER encrypted with the passphrase,
  the public key in SPKI DER, both in base64.
\<close>

definition fresh_passphrase :: "'r node \<Rightarrow> string option \<Rightarrow> world \<Rightarrow> string" where
  "fresh_passphrase n providedPassphrase w =
     (if truthy providedPassphrase then the_string providedPassphrase
      else toString n (randomBytes n (entropy w) 32) ''hex'')"

definition fresh_key_pair :: "'r node \<Rightarrow> string option \<Rightarrow> world \<Rightarrow> KeyPair" where
  "fresh_key_pair n providedPassphrase w =
     (let pass = fresh_passphrase n providedPassphrase w;
          seed = (if truthy providedPassphrase then entropy w else Suc (entropy w));
          keyPair = generateKeyPairSync n seed ''ec''
                      \<lparr>namedCurve = ''prime256v1'',
                       privateKeyEncoding_type = ''pkcs8'',
                       privateKeyEncoding_format = ''der'',
                       privateKeyEncoding_cipher = ''aes-256-cbc'',
                       privateKeyEncoding_passphrase = pass,
                       publicKeyEncoding_type = ''spki'',
                       publicKeyEncoding_format = ''der''\<rparr>
      in \<lparr>privateKey = toString n (fst keyPair) ''base64'',
          publicKey = toString n (snd keyPair) ''base64'',
          kp_passphrase = pass\<rparr>)"

text \<open>
  What the statements about non-empty keys rely on from the library: 32 random bytes in
  hex, and a DER-encoded key in base64, are never the empty string.
\<close>

definition nonempty_encodings :: "'r node \<Rightarrow> bool" where
  "nonempty_encodings n =
     ((\<forall>seed. toString n (randomBytes n seed 32) ''hex'' \<noteq> []) \<and>
      (\<forall>seed kind options.
          toString n (fst (generateKeyPairSync n seed kind options)) ''base64'' \<noteq> [] \<and>
          toString n (snd (generateKeyPairSync n seed kind options)) ''base64'' \<noteq> []))"

text \<open>
  Fail-stop traces. \<open>fail_stop l r\<close>: of the calls \<open>l\<close> made by a method that ended with
  \<open>r\<close>, none threw unless \<open>r\<close> is the error thrown by the last of them.
\<close>

fun fail_stop :: "(call \<times> string option) list \<Rightarrow> error + 'a \<Rightarrow> bool" where
  "fail_stop [] r = (case r of Inl (Thrown e) \<Rightarrow> False | _ \<Rightarrow> True)"
| "fail_stop ((c, None) # l) r = fail_stop l r"
| "fail_stop ((c, Some e) # l) r = (l = [] \<and> r = Inl (Thrown e))"

definition propagates :: "world \<Rightarrow> (error + 'a) \<times> world \<Rightarrow> bool" where
  "propagates w rw =
     (take (length (trace w)) (trace (snd rw)) = trace w \<and>
      fail_stop (drop (length (trace w)) (trace (snd rw))) (fst rw))"

text \<open>The attributes of the objects created by the calls of a trace.\<close>

fun created :: "(call \<times> string option) list \<Rightarrow> MessageSigningKeys list" where
  "created [] = []"
| "created ((Create a, None) # l) = a # created l"
| "created (_ # l) = created l"

text \<open>What \<^verbatim>\<open>soClient.update\<close> does to one object of the store.\<close>

definition rewrite :: "nat \<Rightarrow> MessageSigningKeys \<Rightarrow> SavedObject \<Rightarrow> SavedObject" where
  "rewrite i attrs obj =
     (if so_id obj = i then obj\<lparr>attributes := Some (merge_attributes attrs (attributes obj))\<rparr>
      else obj)"

text \<open>The attributes \<^verbatim>\<open>generateKeyPair\<close> persists for a key pair.\<close>

definition persisted :: "bool \<Rightarrow> KeyPair \<Rightarrow> MessageSigningKeys" where
  "persisted enc kp =
     (if enc
      then \<lparr>private_key = Some (privateKey kp), public_key = Some (publicKey kp),
            passphrase = Some (kp_passphrase kp), passphrase_plain = None\<rparr>
      else \<lparr>private_key = Some (privateKey kp), public_key = Some (publicKey kp),
            passphrase = None, passphrase_plain = Some (kp_passphrase kp)\<rparr>)"

text \<open>A method is fail-stop when each of its runs only appends a fail-stop trace.\<close>

definition fs :: "'a eff \<Rightarrow> bool" where
  "fs m = (\<forall>w. \<exists>l. trace (snd (m w)) = trace w @ l \<and> fail_stop l (fst (m w)))"

subsection \<open>Concrete instances\<close>

text \<open>
  A small instance of the library primitives, to run the service on concrete inputs:
  an encoding writes one character for each byte, and a signature spells out the
  algorithm, the passphrase, the key format, the key type and the encoding it was asked for.
  There are two records: the empty one, \<^verbatim>\<open>{}\<close>, and one that holds a \<^verbatim>\<open>BigInt\<close>,
  \<^verbatim>\<open>{ n: 1n }\<close>, which \<^verbatim>\<open>JSON.stringify\<close> refuses.
\<close>

datatype sample_record = EmptyRecord | BigIntRecord

definition stub_node :: "sample_record node" where
  "stub_node =
     \<lparr>randomBytes = (\<lambda>seed n. replicate n 0),
      generateKeyPairSync = (\<lambda>seed kind options. ([1, 2], [3])),
      signer_sign = (\<lambda>seed algorithm bytes k encoding.
         algorithm @ '':'' @ key_passphrase k @ '':'' @ key_format k @ '':'' @ key_type k
         @ '':'' @ encoding),
      toString = (\<lambda>bytes encoding. map (\<lambda>_. CHR ''A'') bytes),
      Buffer_from = (\<lambda>s encoding. map (\<lambda>_. 0) s),
      JSON_stringify = (\<lambda>r. case r of
         EmptyRecord \<Rightarrow> Inr ''{}''
       | BigIntRecord \<Rightarrow> Inl ''Do not know how to serialize a BigInt'')\<rparr>"

definition empty_world :: world where
  "empty_world =
     \<lparr>store = [], encryptedSavedObjectsSetup = Some True, now = 0, next_id = 0, entropy = 0,
      faults = (\<lambda>_. None), trace = []\<rparr>"

text \<open>A store holding one key pair whose passphrase is in the plain attribute.\<close>

definition plain_object :: SavedObject where
  "plain_object =
     \<lparr>so_id = 0, created_at = 0,
      attributes = Some \<lparr>private_key = Some ''cHJpdg=='', public_key = Some ''cHVi'',
                         passphrase = None, passphrase_plain = Some ''secret''\<rparr>\<rparr>"

definition plain_world :: world where
  "plain_world = empty_world\<lparr>store := [plain_object], now := 1, next_id := 1\<rparr>"

text \<open>A store holding two key pairs, the second one the newer.\<close>

definition newer_object :: SavedObject where
  "newer_object =
     \<lparr>so_id = 1, created_at = 1,
      attributes = Some \<lparr>private_key = Some ''bmV3'', public_key = Some ''bmV3cHVi'',
                         passphrase = Some ''other'', passphrase_plain = None\<rparr>\<rparr>"

definition two_pairs_world :: world where
  "two_pairs_world = empty_world\<lparr>store := [plain_object, newer_object], now := 2, next_id := 2\<rparr>"

section \<open>The trained-models routes\<close>

text \<open>
  A shallow embedding of the handlers registered by \<^verbatim>\<open>trainedModelsRoutes\<close>. A handler
  runs on the list of the events so far (client calls and debug-log lines) and returns
  its response with the list extended by the events it caused. A client call is recorded
  by \<open>invoke\<close>, and what a client answers may depend on how many events came before, so
  a call made twice shows. \<open>'j\<close> stands for the JSON values the handlers pass through
  unread. The licence guard around each handler and the schema validation in front of it
  are not part of the handlers.
\<close>

subsection \<open>Data\<close>

text \<open>\<^verbatim>\<open>response.ok({ body })\<close> and \<^verbatim>\<open>response.customError(...)\<close>.\<close>

datatype ('b, 'w) response = ok 'b | customError 'w

datatype event = Call string | Debug error

text \<open>\<^verbatim>\<open>Record<string, PipelineDefinition>\<close>; the order of its keys is not modelled.\<close>

type_synonym 'j Pipelines = "string \<rightharpoonup> 'j"

text \<open>
  \<^verbatim>\<open>TrainedModelConfigResponse\<close>: \<open>model_aliases\<close> is \<^verbatim>\<open>metadata?.model_aliases\<close>,
  \<open>config\<close> the fields the handlers do not read.
\<close>

record 'j TrainedModelConfigResponse =
  model_id :: string
  model_aliases :: "string list option"
  pipelines :: "'j Pipelines option"
  config :: 'j

text \<open>
  An element of \<^verbatim>\<open>stats.trained_model_stats\<close>: \<open>deployment_id\<close> is
  \<^verbatim>\<open>deployment_stats.deployment_id\<close>, absent when \<^verbatim>\<open>deployment_stats\<close> is. What the
  clients return is taken to have the types the source declares: the statistics and
  the models are arrays, the identifiers strings.
\<close>

record 'j TrainedModelStat =
  stat_model_id :: string
  deployment_id :: "string option"
  stat :: 'j

record 'j TrainedModelsStatsResponse =
  trained_model_stats :: "'j TrainedModelStat list"
  stats_rest :: 'j

text \<open>The objects the handlers pass to the clients.\<close>

record 'j GetTrainedModelsArgs =
  gtm_size :: nat
  gtm_query :: 'j
  gtm_model_id :: "string option"

record GetTrainedModelsStatsArgs =
  gts_model_id :: "string option"
  gts_size :: "nat option"

record 'j PutTrainedModelArgs =
  put_model_id :: string
  put_body :: 'j
  put_defer_definition_decompression :: "bool option"

record 'j StartDeploymentArgs =
  start_model_id :: string
  start_query :: "'j option"

record 'j UpdateDeploymentArgs =
  update_model_id :: string
  update_body :: 'j

record StopDeploymentArgs =
  stop_model_id :: string
  stop_force :: bool

record 'j SimulateArgs =
  sim_pipeline :: 'j
  sim_docs :: 'j

record 'j InferArgs =
  infer_model_id :: string
  infer_docs :: 'j
  infer_inference_config :: "'j option"
  infer_timeout :: "string option"

text \<open>
  The clients: \<^verbatim>\<open>mlClient\<close>, \<^verbatim>\<open>modelsProvider(client).getModelsPipelines\<close> (a
  \<^verbatim>\<open>Map\<close>, kept as the list of its entries in insertion order) and
  \<^verbatim>\<open>client.asInternalUser.ingest.simulate\<close>. The first argument of each is the number
  of events before the call. A call returns its result or throws.
  \<open>getTrainedModels\<close> yields \<^verbatim>\<open>body.trained_model_configs\<close>, the only part of the body
  the handler uses.
\<close>

record 'j clients =
  getTrainedModels :: "nat \<Rightarrow> 'j GetTrainedModelsArgs \<Rightarrow> error + 'j TrainedModelConfigResponse list"
  getTrainedModelsStats ::
    "nat \<Rightarrow> GetTrainedModelsStatsArgs option \<Rightarrow> error + 'j TrainedModelsStatsResponse"
  getModelsPipelines :: "nat \<Rightarrow> string list \<Rightarrow> error + (string \<times> 'j Pipelines) list"
  putTrainedModel :: "nat \<Rightarrow> 'j PutTrainedModelArgs \<Rightarrow> error + 'j"
  deleteTrainedModel :: "nat \<Rightarrow> string \<Rightarrow> error + 'j"
  startTrainedModelDeployment :: "nat \<Rightarrow> 'j StartDeploymentArgs \<Rightarrow> error + 'j"
  updateTrainedModelDeployment :: "nat \<Rightarrow> 'j UpdateDeploymentArgs \<Rightarrow> error + 'j"
  stopTrainedModelDeployment :: "nat \<Rightarrow> StopDeploymentArgs \<Rightarrow> error + 'j"
  ingest_simulate :: "nat \<Rightarrow> 'j SimulateArgs \<Rightarrow> error + 'j"
  inferTrainedModel :: "nat \<Rightarrow> 'j InferArgs \<Rightarrow> error + 'j"

text \<open>
  The validated requests. \<open>req_with_pipelines\<close> and
  \<open>putreq_defer_definition_decompression\<close> are the truthiness of
  \<^verbatim>\<open>request.query.with_pipelines\<close> and of
  \<^verbatim>\<open>request.query?.defer_definition_decompression\<close>.
\<close>

record 'j GetTrainedModelRequest =
  req_modelId :: "string option"
  req_with_pipelines :: bool
  req_query :: 'j

record 'j PutTrainedModelRequest =
  putreq_modelId :: string
  putreq_body :: 'j
  putreq_defer_definition_decompression :: bool

record 'j InferRequest =
  inferreq_modelId :: string
  inferreq_docs :: 'j
  inferreq_inference_config :: "'j option"
  inferreq_timeout :: "string option"

record 'j ModelPipelines =
  mp_model_id :: string
  mp_pipelines :: "'j Pipelines"

subsection \<open>Events\<close>

text \<open>A client call: the client answers by the number of events so far, and the call
  is recorded.\<close>

definition invoke :: "string \<Rightarrow> (nat \<Rightarrow> error + 'a) \<Rightarrow> event list \<Rightarrow> (error + 'a) \<times> event list" where
  "invoke name call tr = (call (length tr), tr @ [Call name])"

text \<open>\<^verbatim>\<open>mlLog.debug(e)\<close>\<close>

definition mlLog_debug :: "error \<Rightarrow> event list \<Rightarrow> event list" where
  "mlLog_debug e tr = tr @ [Debug e]"

subsection \<open>Plain JavaScript objects, sets and strings\<close>

text \<open>
  The first handler keeps \<^verbatim>\<open>modelDeploymentsMap\<close> in a plain object, which is kept here
  as the list of its own entries in insertion order. Reading a name the object does not
  own finds what every plain object inherits from \<^verbatim>\<open>Object.prototype\<close>, if the name is
  one of these.
\<close>

definition object_prototype_keys :: "string list" where
  "object_prototype_keys =
     [''constructor'', ''__defineGetter__'', ''__defineSetter__'', ''hasOwnProperty'',
      ''__lookupGetter__'', ''__lookupSetter__'', ''isPrototypeOf'', ''propertyIsEnumerable'',
      ''toString'', ''valueOf'', ''__proto__'', ''toLocaleString'']"

datatype 'v js_property = Own 'v | Inherited | Undefined

text \<open>\<^verbatim>\<open>obj[k]\<close>\<close>

definition js_get :: "(string \<times> 'v) list \<Rightarrow> string \<Rightarrow> 'v js_property" where
  "js_get obj k =
     (case map_of obj k of
        Some v \<Rightarrow> Own v
      | None \<Rightarrow> if k \<in> set object_prototype_keys then Inherited else Undefined)"

text \<open>
  The keys of an object are listed with the array indices first, in ascending order, and
  the other names after them in insertion order. An array index is the canonical decimal
  form of a number below \<open>2^32 - 1\<close>.
\<close>

definition digit :: "char \<Rightarrow> nat option" where
  "digit ch = (if 48 \<le> (of_char ch :: nat) \<and> (of_char ch :: nat) \<le> 57
               then Some (of_char ch - 48) else None)"

fun digits :: "nat \<Rightarrow> string \<Rightarrow> nat option" where
  "digits acc [] = Some acc"
| "digits acc (ch # s) = (case digit ch of None \<Rightarrow> None | Some d \<Rightarrow> digits (10 * acc + d) s)"

definition array_index :: "string \<Rightarrow> nat option" where
  "array_index k =
     (if k = [] \<or> (hd k = CHR ''0'' \<and> tl k \<noteq> []) then None
      else case digits 0 k of
             None \<Rightarrow> None
           | Some i \<Rightarrow> if i < 4294967295 then Some i else None)"

definition index_or_zero :: "string \<Rightarrow> nat" where
  "index_or_zero k = (case array_index k of None \<Rightarrow> 0 | Some i \<Rightarrow> i)"

definition js_key_order :: "string list \<Rightarrow> string list" where
  "js_key_order ks =
     sort_key index_or_zero (filter (\<lambda>k. array_index k \<noteq> None) ks)
     @ filter (\<lambda>k. array_index k = None) ks"

text \<open>\<^verbatim>\<open>Object.values(obj)\<close>\<close>

definition js_values :: "(string \<times> 'v) list \<Rightarrow> 'v list" where
  "js_values obj =
     map snd (sort_key (\<lambda>entry. index_or_zero (fst entry))
                (filter (\<lambda>entry. array_index (fst entry) \<noteq> None) obj)
              @ filter (\<lambda>entry. array_index (fst entry) = None) obj)"

text \<open>\<^verbatim>\<open>Array.from(new Set(xs))\<close>: the first occurrence of each element, in order;
  \<open>seen\<close> holds the elements met so far.\<close>

fun uniq :: "'a list \<Rightarrow> 'a list \<Rightarrow> 'a list" where
  "uniq seen [] = []"
| "uniq seen (x # xs) = (if x \<in> set seen then uniq seen xs else x # uniq (x # seen) xs)"

text \<open>\<^verbatim>\<open>s.split(',')\<close>; \<open>acc\<close> holds the current piece, reversed.\<close>

fun split_commas :: "string \<Rightarrow> string \<Rightarrow> string list" where
  "split_commas acc [] = [rev acc]"
| "split_commas acc (ch # s) =
     (if ch = CHR '','' then rev acc # split_commas [] s else split_commas (ch # acc) s)"

subsection \<open>The enrichment of the first handler\<close>

text \<open>\<^verbatim>\<open>metadata?.model_aliases ?? []\<close>\<close>

definition aliases :: "'j TrainedModelConfigResponse \<Rightarrow> string list" where
  "aliases model = (case model_aliases model of None \<Rightarrow> [] | Some as \<Rightarrow> as)"

text \<open>
  The \<^verbatim>\<open>reduce\<close> that builds \<^verbatim>\<open>modelDeploymentsMap\<close>, started on \<open>acc\<close>; \<open>cur\<close> is
  the source's \<^verbatim>\<open>curr\<close>. A statistic
  without \<^verbatim>\<open>deployment_stats\<close> is skipped. \<^verbatim>\<open>acc[curr.model_id]\<close> is truthy when the
  object owns the name (an array) and when it inherits it; in the second case
  \<^verbatim>\<open>push\<close> is not a function and the call throws. The message of the \<^verbatim>\<open>TypeError\<close>,
  here and in the loop below, is the one V8 gives for the source as written.
\<close>

fun reduce_deployments ::
  "(string \<times> string list) list \<Rightarrow> 'j TrainedModelStat list \<Rightarrow> error + (string \<times> string list) list" where
  "reduce_deployments acc [] = Inr acc"
| "reduce_deployments acc (cur # rest) =
     (case deployment_id cur of
        None \<Rightarrow> reduce_deployments acc rest
      | Some deploymentId \<Rightarrow>
          (case js_get acc (stat_model_id cur) of
             Own _ \<Rightarrow>
               reduce_deployments
                 (map (\<lambda>entry. if fst entry = stat_model_id cur
                               then (fst entry, snd entry @ [deploymentId]) else entry) acc)
                 rest
           | Inherited \<Rightarrow> Inl (TypeError ''acc[curr.model_id].push is not a function'')
           | Undefined \<Rightarrow>
               reduce_deployments (acc @ [(stat_model_id cur, [deploymentId])]) rest))"

text \<open>The argument of \<^verbatim>\<open>getModelsPipelines\<close>.\<close>

definition modelIdsAndAliases ::
  "'j TrainedModelConfigResponse list \<Rightarrow> (string \<times> string list) list \<Rightarrow> string list" where
  "modelIdsAndAliases result modelDeploymentsMap =
     uniq [] (concat (map (\<lambda>model. model_id model # aliases model) result)
              @ concat (js_values modelDeploymentsMap))"

text \<open>\<^verbatim>\<open>pipelinesResponse.get(k) ?? {}\<close>\<close>

definition get_or_empty :: "(string \<times> 'j Pipelines) list \<Rightarrow> string \<Rightarrow> 'j Pipelines" where
  "get_or_empty pipelinesResponse k =
     (case map_of pipelinesResponse k of None \<Rightarrow> Map.empty | Some p \<Rightarrow> p)"

text \<open>
  The loop \<^verbatim>\<open>for (const model of result)\<close>, which changes the models in place: it
  returns the models as the loop leaves them, and the error that ended it, if any.
  \<open>++\<close> is the object spread. \<^verbatim>\<open>modelDeploymentsMap[model.model_id] ?? []\<close> is an array
  when the object owns the name, the empty array when the name is undefined, and
  something without \<^verbatim>\<open>reduce\<close> when the name is inherited: the model is then not
  changed, and neither are the models after it.
\<close>

fun attach_pipelines ::
  "(string \<times> 'j Pipelines) list \<Rightarrow> (string \<times> string list) list \<Rightarrow>
   'j TrainedModelConfigResponse list \<Rightarrow> 'j TrainedModelConfigResponse list \<times> error option" where
  "attach_pipelines pipelinesResponse modelDeploymentsMap [] = ([], None)"
| "attach_pipelines pipelinesResponse modelDeploymentsMap (model # rest) =
     (case (case js_get modelDeploymentsMap (model_id model) of
              Own deploymentIds \<Rightarrow> Some deploymentIds
            | Undefined \<Rightarrow> Some []
            | Inherited \<Rightarrow> None) of
        None \<Rightarrow>
          (model # rest,
           Some (TypeError ''(modelDeploymentsMap[model.model_id] ?? []).reduce is not a function''))
      | Some deploymentIds \<Rightarrow>
          (case attach_pipelines pipelinesResponse modelDeploymentsMap rest of
             (rest', e) \<Rightarrow>
               (model\<lparr>pipelines := Some
                  (get_or_empty pipelinesResponse (model_id model)
                   ++ foldl (\<lambda>acc alias. acc ++ get_or_empty pipelinesResponse alias) Map.empty
                        (aliases model)
                   ++ foldl (\<lambda>acc deploymentId. acc ++ get_or_empty pipelinesResponse deploymentId)
                        Map.empty deploymentIds)\<rparr> # rest',
                e)))"

subsection \<open>The handlers\<close>

text \<open>
  \<^verbatim>\<open>GET /api/ml/trained_models/{modelId?}\<close>. The inner \<^verbatim>\<open>try\<close> catches what the two
  enrichment calls throw and what the handler's own expressions throw, and logs it with
  \<^verbatim>\<open>mlLog.debug\<close>. In the arguments \<^verbatim>\<open>...query\<close> is spread after \<^verbatim>\<open>size: 1000\<close>.
\<close>

definition getTrainedModel_route ::
  "(error \<Rightarrow> 'w) \<Rightarrow> 'j clients \<Rightarrow> 'j GetTrainedModelRequest \<Rightarrow> event list \<Rightarrow>
   ('j TrainedModelConfigResponse list, 'w) response \<times> event list" where
  "getTrainedModel_route wrapError c request tr =
     (let modelId = req_modelId request;
          withPipelines = req_with_pipelines request;
          query = req_query request
      in case invoke ''getTrainedModels''
                (\<lambda>i. getTrainedModels c i
                        \<lparr>gtm_size = 1000, gtm_query = query,
                         gtm_model_id = (if truthy modelId then modelId else None)\<rparr>) tr of
           (Inl e, tr1) \<Rightarrow> (customError (wrapError e), tr1)
         | (Inr result, tr1) \<Rightarrow>
             if withPipelines
             then (case invoke ''getTrainedModelsStats''
                          (\<lambda>i. getTrainedModelsStats c i
                                  (Some \<lparr>gts_model_id = (if truthy modelId then modelId else None),
                                         gts_size = Some 10000\<rparr>)) tr1 of
                     (Inl e, tr2) \<Rightarrow> (ok result, mlLog_debug e tr2)
                   | (Inr stats, tr2) \<Rightarrow>
                       (case reduce_deployments [] (trained_model_stats stats) of
                          Inl e \<Rightarrow> (ok result, mlLog_debug e tr2)
                        | Inr modelDeploymentsMap \<Rightarrow>
                            (case invoke ''getModelsPipelines''
                                    (\<lambda>i. getModelsPipelines c i
                                            (modelIdsAndAliases result modelDeploymentsMap)) tr2 of
                               (Inl e, tr3) \<Rightarrow> (ok result, mlLog_debug e tr3)
                             | (Inr pipelinesResponse, tr3) \<Rightarrow>
                                 (case attach_pipelines pipelinesResponse modelDeploymentsMap result of
                                    (result', None) \<Rightarrow> (ok result', tr3)
                                  | (result', Some e) \<Rightarrow> (ok result', mlLog_debug e tr3)))))
             else (ok result, tr1))"

text \<open>\<^verbatim>\<open>GET /api/ml/trained_models/_stats\<close>\<close>

definition getTrainedModelStats_route ::
  "(error \<Rightarrow> 'w) \<Rightarrow> 'j clients \<Rightarrow> event list \<Rightarrow>
   ('j TrainedModelsStatsResponse, 'w) response \<times> event list" where
  "getTrainedModelStats_route wrapError c tr =
     (case invoke ''getTrainedModelsStats'' (\<lambda>i. getTrainedModelsStats c i None) tr of
        (Inr body, tr1) \<Rightarrow> (ok body, tr1)
      | (Inl e, tr1) \<Rightarrow> (customError (wrapError e), tr1))"

text \<open>\<^verbatim>\<open>GET /api/ml/trained_models/{modelId}/_stats\<close>\<close>

definition getTrainedModelStatsById_route ::
  "(error \<Rightarrow> 'w) \<Rightarrow> 'j clients \<Rightarrow> string \<Rightarrow> event list \<Rightarrow>
   ('j TrainedModelsStatsResponse, 'w) response \<times> event list" where
  "getTrainedModelStatsById_route wrapError c modelId tr =
     (case invoke ''getTrainedModelsStats''
             (\<lambda>i. getTrainedModelsStats c i
                     (Some \<lparr>gts_model_id = (if truthy (Some modelId) then Some modelId else None),
                            gts_size = None\<rparr>)) tr of
        (Inr body, tr1) \<Rightarrow> (ok body, tr1)
      | (Inl e, tr1) \<Rightarrow> (customError (wrapError e), tr1))"

text \<open>\<^verbatim>\<open>GET /api/ml/trained_models/{modelId}/pipelines\<close>\<close>

definition getTrainedModelPipelines_route ::
  "(error \<Rightarrow> 'w) \<Rightarrow> 'j clients \<Rightarrow> string \<Rightarrow> event list \<Rightarrow>
   ('j ModelPipelines list, 'w) response \<times> event list" where
  "getTrainedModelPipelines_route wrapError c modelId tr =
     (case invoke ''getModelsPipelines''
             (\<lambda>i. getModelsPipelines c i (split_commas [] modelId)) tr of
        (Inr result, tr1) \<Rightarrow>
          (ok (map (\<lambda>entry. \<lparr>mp_model_id = fst entry, mp_pipelines = snd entry\<rparr>) result), tr1)
      | (Inl e, tr1) \<Rightarrow> (customError (wrapError e), tr1))"

text \<open>\<^verbatim>\<open>PUT /api/ml/trained_models/{modelId}\<close>\<close>

definition putTrainedModel_route ::
  "(error \<Rightarrow> 'w) \<Rightarrow> 'j clients \<Rightarrow> 'j PutTrainedModelRequest \<Rightarrow> event list \<Rightarrow>
   ('j, 'w) response \<times> event list" where
  "putTrainedModel_route wrapError c request tr =
     (case invoke ''putTrainedModel''
             (\<lambda>i. putTrainedModel c i
                     \<lparr>put_model_id = putreq_modelId request, put_body = putreq_body request,
                      put_defer_definition_decompression =
                        (if putreq_defer_definition_decompression request then Some True
                         else None)\<rparr>) tr of
        (Inr body, tr1) \<Rightarrow> (ok body, tr1)
      | (Inl e, tr1) \<Rightarrow> (customError (wrapError e), tr1))"

text \<open>\<^verbatim>\<open>DELETE /api/ml/trained_models/{modelId}\<close>\<close>

definition deleteTrainedModel_route ::
  "(error \<Rightarrow> 'w) \<Rightarrow> 'j clients \<Rightarrow> string \<Rightarrow> event list \<Rightarrow> ('j, 'w) response \<times> event list" where
  "deleteTrainedModel_route wrapError c modelId tr =
     (case invoke ''deleteTrainedModel'' (\<lambda>i. deleteTrainedModel c i modelId) tr of
        (Inr body, tr1) \<Rightarrow> (ok body, tr1)
      | (Inl e, tr1) \<Rightarrow> (customError (wrapError e), tr1))"

text \<open>\<^verbatim>\<open>POST /api/ml/trained_models/{modelId}/deployment/_start\<close>; the query is \<open>None\<close>
  when \<^verbatim>\<open>request.query\<close> is falsy.\<close>

definition startTrainedModelDeployment_route ::
  "(error \<Rightarrow> 'w) \<Rightarrow> 'j clients \<Rightarrow> string \<Rightarrow> 'j option \<Rightarrow> event list \<Rightarrow>
   ('j, 'w) response \<times> event list" where
  "startTrainedModelDeployment_route wrapError c modelId query tr =
     (case invoke ''startTrainedModelDeployment''
             (\<lambda>i. startTrainedModelDeployment c i
                     \<lparr>start_model_id = modelId, start_query = query\<rparr>) tr of
        (Inr body, tr1) \<Rightarrow> (ok body, tr1)
      | (Inl e, tr1) \<Rightarrow> (customError (wrapError e), tr1))"

text \<open>\<^verbatim>\<open>POST /api/ml/trained_models/{modelId}/deployment/_update\<close>\<close>

definition updateTrainedModelDeployment_route ::
  "(error \<Rightarrow> 'w) \<Rightarrow> 'j clients \<Rightarrow> string \<Rightarrow> 'j \<Rightarrow> event list \<Rightarrow>
   ('j, 'w) response \<times> event list" where
  "updateTrainedModelDeployment_route wrapError c modelId body tr =
     (case invoke ''updateTrainedModelDeployment''
             (\<lambda>i. updateTrainedModelDeployment c i
                     \<lparr>update_model_id = modelId, update_body = body\<rparr>) tr of
        (Inr b, tr1) \<Rightarrow> (ok b, tr1)
      | (Inl e, tr1) \<Rightarrow> (customError (wrapError e), tr1))"

text \<open>\<^verbatim>\<open>POST /api/ml/trained_models/{modelId}/deployment/_stop\<close>:
  \<^verbatim>\<open>force: request.query.force ?? false\<close>\<close>

definition stopTrainedModelDeployment_route ::
  "(error \<Rightarrow> 'w) \<Rightarrow> 'j clients \<Rightarrow> string \<Rightarrow> bool option \<Rightarrow> event list \<Rightarrow>
   ('j, 'w) response \<times> event list" where
  "stopTrainedModelDeployment_route wrapError c modelId force tr =
     (case invoke ''stopTrainedModelDeployment''
             (\<lambda>i. stopTrainedModelDeployment c i
                     \<lparr>stop_model_id = modelId,
                      stop_force = (case force of None \<Rightarrow> False | Some f \<Rightarrow> f)\<rparr>) tr of
        (Inr body, tr1) \<Rightarrow> (ok body, tr1)
      | (Inl e, tr1) \<Rightarrow> (customError (wrapError e), tr1))"

text \<open>\<^verbatim>\<open>POST /api/ml/trained_models/pipeline_simulate\<close>\<close>

definition simulateIngestPipeline_route ::
  "(error \<Rightarrow> 'w) \<Rightarrow> 'j clients \<Rightarrow> 'j \<Rightarrow> 'j \<Rightarrow> event list \<Rightarrow> ('j, 'w) response \<times> event list" where
  "simulateIngestPipeline_route wrapError c pipeline docs tr =
     (case invoke ''ingest.simulate''
             (\<lambda>i. ingest_simulate c i \<lparr>sim_pipeline = pipeline, sim_docs = docs\<rparr>) tr of
        (Inr body, tr1) \<Rightarrow> (ok body, tr1)
      | (Inl e, tr1) \<Rightarrow> (customError (wrapError e), tr1))"

text \<open>\<^verbatim>\<open>POST /api/ml/trained_models/infer/{modelId}\<close>: the inference configuration and
  the timeout are forwarded when truthy.\<close>

definition inferTrainedModelDeployment_route ::
  "(error \<Rightarrow> 'w) \<Rightarrow> 'j clients \<Rightarrow> 'j InferRequest \<Rightarrow> event list \<Rightarrow>
   ('j, 'w) response \<times> event list" where
  "inferTrainedModelDeployment_route wrapError c request tr =
     (case invoke ''inferTrainedModel''
             (\<lambda>i. inferTrainedModel c i
                     \<lparr>infer_model_id = inferreq_modelId request,
                      infer_docs = inferreq_docs request,
                      infer_inference_config = inferreq_inference_config request,
                      infer_timeout = (if truthy (inferreq_timeout request)
                                       then inferreq_timeout request else None)\<rparr>) tr of
        (Inr body, tr1) \<Rightarrow> (ok body, tr1)
      | (Inl e, tr1) \<Rightarrow> (customError (wrapError e), tr1))"

subsection \<open>Notions used in the statements\<close>

text \<open>
  The outcome of a thin proxy of one client call, run after the events \<open>tr\<close>: the call
  is the only new event, its result is returned with \<^verbatim>\<open>response.ok\<close>, and what it throws
  is returned with \<^verbatim>\<open>response.customError(wrapError(e))\<close>. \<open>answer\<close> is the client, by
  the number of events before the call.
\<close>

definition proxies ::
  "(error \<Rightarrow> 'w) \<Rightarrow> string \<Rightarrow> (nat \<Rightarrow> error + 'b) \<Rightarrow> event list \<Rightarrow>
   ('b, 'w) response \<times> event list \<Rightarrow> bool" where
  "proxies wrapError name answer tr outcome =
     (snd outcome = tr @ [Call name] \<and>
      fst outcome = (case answer (length tr) of
                       Inr body \<Rightarrow> ok body
                     | Inl e \<Rightarrow> customError (wrapError e)))"

text \<open>Joining with commas, the inverse of splitting at them.\<close>

fun join_commas :: "string list \<Rightarrow> string" where
  "join_commas [] = []"
| "join_commas [x] = x"
| "join_commas (x # y # ys) = x @ CHR '','' # join_commas (y # ys)"

text \<open>A name every plain object inherits.\<close>

definition inherited_name :: "string \<Rightarrow> bool" where
  "inherited_name k = (k \<in> set object_prototype_keys)"

text \<open>The deployments the statistics report, as pairs of a model and a deployment, in
  the order of the statistics; and those of one model.\<close>

definition deployment_pairs :: "'j TrainedModelStat list \<Rightarrow> (string \<times> string) list" where
  "deployment_pairs stats =
     concat (map (\<lambda>s. case deployment_id s of None \<Rightarrow> [] | Some d \<Rightarrow> [(stat_model_id s, d)]) stats)"

definition deployments_of :: "'j TrainedModelStat list \<Rightarrow> string \<Rightarrow> string list" where
  "deployments_of stats k = map snd (filter (\<lambda>p. fst p = k) (deployment_pairs stats))"

text \<open>
  The names whose pipelines are asked for: the models and their aliases in the order of
  the models, then the deployments grouped by model, the models that are array indices
  first and ascending, the others in the order of their first deployment; each name
  once, at its first place.
\<close>

definition requested_names ::
  "'j TrainedModelConfigResponse list \<Rightarrow> 'j TrainedModelStat list \<Rightarrow> string list" where
  "requested_names result stats =
     uniq [] (concat (map (\<lambda>model. model_id model # aliases model) result)
              @ concat (map (deployments_of stats)
                          (js_key_order (uniq [] (map fst (deployment_pairs stats))))))"

text \<open>
  The pipelines attached to a model: those found under its identifier, its aliases and
  its deployments; where several of these define a pipeline of the same name, the last
  one in this order gives it.
\<close>

definition attached ::
  "(string \<times> 'j Pipelines) list \<Rightarrow> 'j TrainedModelStat list \<Rightarrow>
   'j TrainedModelConfigResponse \<Rightarrow> 'j Pipelines" where
  "attached pipelinesResponse stats model =
     (\<lambda>name. case filter (\<lambda>k. get_or_empty pipelinesResponse k name \<noteq> None)
                     (model_id model # aliases model @ deployments_of stats (model_id model)) of
               [] \<Rightarrow> None
             | k # ks \<Rightarrow> get_or_empty pipelinesResponse (last (k # ks)) name)"

definition enrich ::
  "(string \<times> 'j Pipelines) list \<Rightarrow> 'j TrainedModelStat list \<Rightarrow>
   'j TrainedModelConfigResponse \<Rightarrow> 'j TrainedModelConfigResponse" where
  "enrich pipelinesResponse stats model =
     model\<lparr>pipelines := Some (attached pipelinesResponse stats model)\<rparr>"

subsection \<open>Concrete instances\<close>

text \<open>
  Three models, one of them with an alias and one named like a property every object
  inherits; statistics that report deployments of the models \<open>10\<close>, \<open>b\<close> and \<open>9\<close>, in this
  order; and the pipelines found under some of the names.
\<close>

definition model_b :: "string TrainedModelConfigResponse" where
  "model_b = \<lparr>model_id = ''b'', model_aliases = Some [''b-alias''], pipelines = None,
              config = ''pytorch''\<rparr>"

definition model_constructor :: "string TrainedModelConfigResponse" where
  "model_constructor = \<lparr>model_id = ''constructor'', model_aliases = None, pipelines = None,
                        config = ''pytorch''\<rparr>"

definition model_10 :: "string TrainedModelConfigResponse" where
  "model_10 = \<lparr>model_id = ''10'', model_aliases = None, pipelines = None,
               config = ''tree_ensemble''\<rparr>"

definition example_stats :: "string TrainedModelsStatsResponse" where
  "example_stats =
     \<lparr>trained_model_stats =
        [\<lparr>stat_model_id = ''10'', deployment_id = Some ''d10'', stat = ''started''\<rparr>,
         \<lparr>stat_model_id = ''b'', deployment_id = Some ''db'', stat = ''started''\<rparr>,
         \<lparr>stat_model_id = ''9'', deployment_id = Some ''d9'', stat = ''started''\<rparr>,
         \<lparr>stat_model_id = ''10'', deployment_id = Some ''d10b'', stat = ''starting''\<rparr>,
         \<lparr>stat_model_id = ''idle'', deployment_id = None, stat = ''not deployed''\<rparr>],
      stats_rest = ''count: 5''\<rparr>"

definition example_pipelines :: "(string \<times> string Pipelines) list" where
  "example_pipelines =
     [(''b'', [''p0'' \<mapsto> ''of b'', ''p1'' \<mapsto> ''of b'']),
      (''b-alias'', [''p1'' \<mapsto> ''of b-alias'', ''p2'' \<mapsto> ''of b-alias'']),
      (''db'', [''p2'' \<mapsto> ''of db'']),
      (''d10'', [''p3'' \<mapsto> ''of d10''])]"

text \<open>
  Clients that answer a call only where it is expected: after the given number of
  events and with the given arguments. Any other call, a repeated one among them,
  throws \<open>unexpected call\<close>.
\<close>

definition example_clients :: "string clients" where
  "example_clients =
     \<lparr>getTrainedModels = (\<lambda>i args.
        if i = 0 \<and> args = \<lparr>gtm_size = 1000, gtm_query = ''from=0'', gtm_model_id = None\<rparr>
        then Inr [model_b, model_constructor, model_10]
        else if i = 0 \<and> args = \<lparr>gtm_size = 1000, gtm_query = ''from=0'', gtm_model_id = Some ''b''\<rparr>
        then Inr [model_b]
        else Inl (Thrown ''unexpected call'')),
      getTrainedModelsStats = (\<lambda>i args.
        if i = 1 \<and> (args = Some \<lparr>gts_model_id = None, gts_size = Some 10000\<rparr>
                   \<or> args = Some \<lparr>gts_model_id = Some ''b'', gts_size = Some 10000\<rparr>)
        then Inr example_stats
        else Inl (Thrown ''unexpected call'')),
      getModelsPipelines = (\<lambda>i names.
        if i = 2 \<and> (names = [''b'', ''b-alias'', ''constructor'', ''10'', ''d9'', ''d10'', ''d10b'', ''db'']
                   \<or> names = [''b'', ''b-alias'', ''d9'', ''d10'', ''d10b'', ''db''])
           \<or> i = 0 \<and> names = [''b'', [], ''db'']
        then Inr example_pipelines
        else Inl (Thrown ''unexpected call'')),
      putTrainedModel = (\<lambda>i args. Inl (Thrown ''unexpected call'')),
      deleteTrainedModel = (\<lambda>i modelId.
        if i = 0 \<and> modelId = ''b'' then Inr ''acknowledged''
        else Inl (Thrown ''unexpected call'')),
      startTrainedModelDeployment = (\<lambda>i args. Inl (Thrown ''unexpected call'')),
      updateTrainedModelDeployment = (\<lambda>i args. Inl (Thrown ''unexpected call'')),
      stopTrainedModelDeployment = (\<lambda>i args. Inl (Thrown ''unexpected call'')),
      ingest_simulate = (\<lambda>i args. Inl (Thrown ''unexpected call'')),
      inferTrainedModel = (\<lambda>i args. Inl (Thrown ''unexpected call''))\<rparr>"

text \<open>The same clients for a user who may not read the statistics.\<close>

definition failing_stats_clients :: "string clients" where
  "failing_stats_clients =
     example_clients\<lparr>getTrainedModelsStats := (\<lambda>i args. Inl (Thrown ''security_exception''))\<rparr>"

text \<open>The same clients with a deployed model named \<open>toString\<close> in the statistics.\<close>

definition toString_stats_clients :: "string clients" where
  "toString_stats_clients =
     example_clients\<lparr>getTrainedModelsStats := (\<lambda>i args.
        Inr \<lparr>trained_model_stats =
               [\<lparr>stat_model_id = ''b'', deployment_id = Some ''db'', stat = ''started''\<rparr>,
                \<lparr>stat_model_id = ''toString'', deployment_id = Some ''d'', stat = ''started''\<rparr>],
             stats_rest = ''count: 2''\<rparr>)\<rparr>"

definition with_pipelines_request :: "string GetTrainedModelRequest" where
  "with_pipelines_request = \<lparr>req_modelId = None, req_with_pipelines = True, req_query = ''from=0''\<rparr>"

definition model_b_request :: "string GetTrainedModelRequest" where
  "model_b_request = \<lparr>req_modelId = Some ''b'', req_with_pipelines = True, req_query = ''from=0''\<rparr>"

section \<open>Properties of the signing service\<close>

subsection \<open>The newest object\<close>

lemma insort_key_before_last:
  "f y \<le> f x \<Longrightarrow> insort_key f y (zs @ [x]) = insort_key f y zs @ [x]"
  by (induction zs) auto

lemma sort_key_snoc:
  "\<forall>y\<in>set xs. f y \<le> f x \<Longrightarrow> sort_key f (xs @ [x]) = sort_key f xs @ [x]"
proof (induction xs)
  case Nil
  show ?case by simp
next
  case (Cons y ys)
  then have "sort_key f (ys @ [x]) = sort_key f ys @ [x]" and "f y \<le> f x"
    by simp_all
  then show ?case
    by (simp add: sort_key_def insort_key_before_last)
qed

lemma current_Nil: "current [] = None"
  by (simp add: current_def)

lemma current_single: "current [x] = Some x"
  by (simp add: current_def)

lemma current_snoc:
  assumes "\<forall>y\<in>set objs. created_at y < created_at obj"
  shows "current (objs @ [obj]) = Some obj"
proof -
  from assms have "\<forall>y\<in>set objs. created_at y \<le> created_at obj"
    by (simp add: less_imp_le)
  then have "sort_key created_at (objs @ [obj]) = sort_key created_at objs @ [obj]"
    by (rule sort_key_snoc)
  then show ?thesis
    by (simp add: current_def)
qed

lemma insort_key_map:
  assumes "\<And>y. g (f y) = g y"
  shows "insort_key g (f x) (map f xs) = map f (insort_key g x xs)"
  by (induction xs) (simp_all add: assms)

lemma sort_key_map:
  assumes "\<And>y. g (f y) = g y"
  shows "sort_key g (map f xs) = map f (sort_key g xs)"
  by (induction xs) (simp_all add: sort_key_def insort_key_map [where g = g and f = f, OF assms])

lemma current_map:
  assumes "\<And>y. created_at (f y) = created_at y"
  shows "current (map f objs) = map_option f (current objs)"
proof -
  have "take 1 (rev (sort_key created_at (map f objs)))
        = map f (take 1 (rev (sort_key created_at objs)))"
    by (simp add: sort_key_map [where g = created_at and f = f, OF assms] rev_map take_map)
  then show ?thesis
    by (simp add: current_def split: list.splits)
qed

lemma current_Some_mem: "current objs = Some obj \<Longrightarrow> obj \<in> set objs"
proof -
  assume a: "current objs = Some obj"
  then have "obj \<in> set (take 1 (rev (sort_key created_at objs)))"
    by (auto simp add: current_def split: list.splits)
  then have "obj \<in> set (rev (sort_key created_at objs))"
    by (rule in_set_takeD)
  then show ?thesis by simp
qed

subsection \<open>What each call does\<close>

lemma getCurrentKeyPairObj_eq:
  "getCurrentKeyPairObj w =
     (case faults w (length (trace w)) of
        Some e \<Rightarrow> (Inl (Thrown e), logged Find (Some e) w)
      | None \<Rightarrow> (Inr (current (store w)), logged Close None (logged Find None w)))"
  by (simp add: getCurrentKeyPairObj_def finder_find_def finder_close_def await_def resolve_def
      external_def current_def logged_def split: option.splits)

lemma checkForExistingKeyPair_eq:
  "checkForExistingKeyPair w =
     (case faults w (length (trace w)) of
        Some e \<Rightarrow> (Inl (Thrown e), logged Find (Some e) w)
      | None \<Rightarrow>
         (let w1 = logged Close None (logged Find None w) in
          case current (store w) of
            None \<Rightarrow> (Inr None, w1)
          | Some cur \<Rightarrow>
             (case stored_key_pair cur of
                None \<Rightarrow> (Inr None, w1)
              | Some kp \<Rightarrow>
                 if truthy (passphrase_plain (the (attributes cur))) \<and> isEncryptionAvailable w
                 then await (soClient_update (so_id cur) (upgraded (the (attributes cur))))
                        (\<lambda>_. resolve (Some kp)) w1
                 else (Inr (Some kp), w1))))"
proof (cases "faults w (length (trace w))")
  case (Some e)
  then show ?thesis
    by (simp add: checkForExistingKeyPair_def await_def getCurrentKeyPairObj_eq)
next
  case None
  show ?thesis
  proof (cases "current (store w)")
    case no: None
    with None show ?thesis
      by (simp add: checkForExistingKeyPair_def await_def getCurrentKeyPairObj_eq resolve_def)
  next
    case (Some cur)
    show ?thesis
    proof (cases "attributes cur")
      case na: None
      with None Some show ?thesis
        by (simp add: checkForExistingKeyPair_def await_def getCurrentKeyPairObj_eq resolve_def
            stored_key_pair_def)
    next
      case (Some attrs)
      with None \<open>current (store w) = Some cur\<close> show ?thesis
        by (simp add: checkForExistingKeyPair_def await_def getCurrentKeyPairObj_eq resolve_def
            stored_key_pair_def Let_def js_or_def upgraded_def logged_def isEncryptionAvailable_def)
    qed
  qed
qed

lemma generateKeyPair_split:
  "generateKeyPair n p =
     await checkForExistingKeyPair (\<lambda>existingKeyPair.
       case existingKeyPair of Some kp \<Rightarrow> resolve kp | None \<Rightarrow> generateFresh n p)"
  unfolding generateKeyPair_def generateFresh_def by (rule refl)

lemma checkForExistingKeyPair_result:
  "checkForExistingKeyPair w = (Inr r, w') \<Longrightarrow> r = existing_key_pair (store w)"
  by (auto simp add: checkForExistingKeyPair_eq existing_key_pair_def Let_def await_def resolve_def
      split: option.splits if_splits sum.splits prod.splits)

subsection \<open>Runs without dependency failures\<close>

lemma logged_simps:
  "store (logged c r w) = store w"
  "faults (logged c r w) = faults w"
  "encryptedSavedObjectsSetup (logged c r w) = encryptedSavedObjectsSetup w"
  "now (logged c r w) = now w"
  "next_id (logged c r w) = next_id w"
  "entropy (logged c r w) = entropy w"
  "trace (logged c r w) = trace w @ [(c, r)]"
  "isEncryptionAvailable (logged c r w) = isEncryptionAvailable w"
  by (simp_all add: logged_def isEncryptionAvailable_def)

lemma external_ok:
  "faults w = (\<lambda>_. None) \<Longrightarrow> external c w = (Inr (), logged c None w)"
  by (simp add: external_def logged_def)

lemma merge_upgraded:
  assumes "truthy (private_key a)" "truthy (public_key a)"
    "truthy (passphrase a) \<or> truthy (passphrase_plain a)"
  shows "merge_attributes (upgraded a) (Some a) = upgraded a"
  using assms
  by (cases a) (auto simp add: merge_attributes_def upgraded_def js_or_def truthy_def
      split: option.splits)

lemma truthy_js_or: "truthy (js_or a b) = (truthy a \<or> truthy b)"
  by (simp add: js_or_def)

lemma the_string_js_or: "the_string (js_or a b) = (if truthy a then the_string a else the_string b)"
  by (simp add: js_or_def)

lemma upgraded_simps:
  "private_key (upgraded a) = private_key a"
  "public_key (upgraded a) = public_key a"
  "passphrase (upgraded a) = js_or (passphrase a) (passphrase_plain a)"
  "passphrase_plain (upgraded a) = Some []"
  by (simp_all add: upgraded_def)

lemma stored_key_pair_Some:
  "stored_key_pair obj = Some kp \<longleftrightarrow>
     (\<exists>a. attributes obj = Some a \<and> truthy (private_key a) \<and> truthy (public_key a)
          \<and> (truthy (passphrase a) \<or> truthy (passphrase_plain a))
          \<and> kp = \<lparr>privateKey = the_string (private_key a),
                    publicKey = the_string (public_key a),
                    kp_passphrase = (if truthy (passphrase a) then the_string (passphrase a)
                                     else the_string (passphrase_plain a))\<rparr>)"
  by (cases "attributes obj") (auto simp add: stored_key_pair_def)

lemma stored_key_pair_upgraded:
  assumes "attributes cur = Some a" "stored_key_pair cur = Some kp"
  shows "stored_key_pair (cur\<lparr>attributes := Some (merge_attributes (upgraded a) (Some a))\<rparr>) = Some kp"
proof -
  from assms have t: "truthy (private_key a)" "truthy (public_key a)"
    "truthy (passphrase a) \<or> truthy (passphrase_plain a)"
    and kp: "kp = \<lparr>privateKey = the_string (private_key a),
                    publicKey = the_string (public_key a),
                    kp_passphrase = (if truthy (passphrase a) then the_string (passphrase a)
                                     else the_string (passphrase_plain a))\<rparr>"
    by (simp_all add: stored_key_pair_Some)
  have "merge_attributes (upgraded a) (Some a) = upgraded a"
    using t by (rule merge_upgraded)
  moreover have "\<not> truthy (Some [])"
    by (simp add: truthy_def)
  ultimately show ?thesis
    using t kp by (simp add: stored_key_pair_Some upgraded_simps truthy_js_or the_string_js_or)
qed

lemma rewrite_simps:
  "created_at (rewrite i attrs obj) = created_at obj"
  "so_id (rewrite i attrs obj) = so_id obj"
  by (simp_all add: rewrite_def)

lemma soClient_update_ok:
  "faults w = (\<lambda>_. None) \<Longrightarrow>
   soClient_update i attrs w =
     (Inr (), (logged (Update i attrs) None w)\<lparr>store := map (rewrite i attrs) (store w)\<rparr>)"
  by (simp add: soClient_update_def await_def external_ok logged_simps rewrite_def [abs_def])

lemma existing_key_pair_rewrite:
  assumes "current objs = Some cur" "attributes cur = Some a" "stored_key_pair cur = Some kp"
  shows "existing_key_pair (map (rewrite (so_id cur) (upgraded a)) objs) = Some kp"
proof -
  have "current (map (rewrite (so_id cur) (upgraded a)) objs)
        = map_option (rewrite (so_id cur) (upgraded a)) (current objs)"
    by (rule current_map) (simp add: rewrite_simps)
  with assms show ?thesis
    by (simp add: existing_key_pair_def rewrite_def stored_key_pair_upgraded)
qed

lemma checkForExistingKeyPair_ok:
  assumes "faults w = (\<lambda>_. None)"
  shows "\<exists>w1. checkForExistingKeyPair w = (Inr (existing_key_pair (store w)), w1)
           \<and> faults w1 = faults w
           \<and> encryptedSavedObjectsSetup w1 = encryptedSavedObjectsSetup w
           \<and> now w1 = now w \<and> next_id w1 = next_id w \<and> entropy w1 = entropy w
           \<and> map so_id (store w1) = map so_id (store w)
           \<and> map created_at (store w1) = map created_at (store w)
           \<and> (existing_key_pair (store w) \<noteq> None \<longrightarrow>
                existing_key_pair (store w1) = existing_key_pair (store w))
           \<and> (existing_key_pair (store w) = None \<longrightarrow> store w1 = store w)
           \<and> (\<exists>l. trace w1 = trace w @ l \<and> created l = [])"
proof (cases "current (store w)")
  case None
  with assms show ?thesis
    by (simp add: checkForExistingKeyPair_eq existing_key_pair_def logged_simps)
next
  case (Some cur)
  show ?thesis
  proof (cases "stored_key_pair cur")
    case no: None
    with assms Some show ?thesis
      by (simp add: checkForExistingKeyPair_eq existing_key_pair_def logged_simps)
  next
    case (Some kp)
    then obtain a where a: "attributes cur = Some a"
      by (auto simp add: stored_key_pair_def split: option.splits)
    show ?thesis
    proof (cases "truthy (passphrase_plain a) \<and> isEncryptionAvailable w")
      case False
      with assms \<open>current (store w) = Some cur\<close> Some a show ?thesis
        by (auto simp add: checkForExistingKeyPair_eq existing_key_pair_def logged_simps)
    next
      case True
      have "existing_key_pair (map (rewrite (so_id cur) (upgraded a)) (store w)) = Some kp"
        using \<open>current (store w) = Some cur\<close> a Some by (rule existing_key_pair_rewrite)
      with True assms \<open>current (store w) = Some cur\<close> Some a show ?thesis
        by (simp add: checkForExistingKeyPair_eq existing_key_pair_def logged_simps
            await_def soClient_update_ok resolve_def rewrite_simps comp_def)
    qed
  qed
qed

lemma soClient_create_ok:
  "faults w = (\<lambda>_. None) \<Longrightarrow>
   soClient_create attrs w =
     (Inr (), (logged (Create attrs) None w)
        \<lparr>store := store w @ [\<lparr>so_id = next_id w, created_at = now w, attributes = Some attrs\<rparr>],
         next_id := Suc (next_id w), now := Suc (now w)\<rparr>)"
  by (simp add: soClient_create_def await_def external_ok logged_simps)

lemma crypto_randomBytes_ok:
  "faults w = (\<lambda>_. None) \<Longrightarrow>
   crypto_randomBytes n sz w =
     (Inr (randomBytes n (entropy w) sz), (logged (RandomBytes sz) None w)\<lparr>entropy := Suc (entropy w)\<rparr>)"
  by (simp add: crypto_randomBytes_def await_def external_ok logged_simps)

lemma crypto_generateKeyPairSync_ok:
  "faults w = (\<lambda>_. None) \<Longrightarrow>
   crypto_generateKeyPairSync n kind options w =
     (Inr (generateKeyPairSync n (entropy w) kind options),
      (logged GenerateKeyPairSync None w)\<lparr>entropy := Suc (entropy w)\<rparr>)"
  by (simp add: crypto_generateKeyPairSync_def await_def external_ok logged_simps)

lemma generateFresh_ok:
  assumes "faults w = (\<lambda>_. None)"
  shows "\<exists>w1. generateFresh n p w = (Inr (fresh_key_pair n p w), w1)
           \<and> faults w1 = faults w
           \<and> encryptedSavedObjectsSetup w1 = encryptedSavedObjectsSetup w
           \<and> store w1 = store w @ [\<lparr>so_id = next_id w, created_at = now w,
                  attributes = Some (persisted (isEncryptionAvailable w) (fresh_key_pair n p w))\<rparr>]
           \<and> next_id w1 = Suc (next_id w) \<and> now w1 = Suc (now w)
           \<and> trace w1 = trace w @ (if truthy p then [] else [(RandomBytes 32, None)])
                 @ [(GenerateKeyPairSync, None),
                    (Create (persisted (isEncryptionAvailable w) (fresh_key_pair n p w)), None)]"
proof (cases "truthy p")
  case True
  with assms show ?thesis
    by (simp add: generateFresh_def await_def resolve_def Let_def crypto_generateKeyPairSync_ok
        soClient_create_ok logged_simps fresh_key_pair_def fresh_passphrase_def persisted_def
        isEncryptionAvailable_def)
next
  case False
  with assms show ?thesis
    by (simp add: generateFresh_def generatePassphrase_def await_def resolve_def Let_def
        crypto_randomBytes_ok crypto_generateKeyPairSync_ok
        soClient_create_ok logged_simps fresh_key_pair_def fresh_passphrase_def persisted_def
        isEncryptionAvailable_def)
qed

lemma fresh_key_pair_cong:
  "entropy w1 = entropy w \<Longrightarrow> fresh_key_pair n p w1 = fresh_key_pair n p w"
  by (simp add: fresh_key_pair_def fresh_passphrase_def)

lemma isEncryptionAvailable_cong:
  "encryptedSavedObjectsSetup w1 = encryptedSavedObjectsSetup w \<Longrightarrow>
   isEncryptionAvailable w1 = isEncryptionAvailable w"
  by (simp add: isEncryptionAvailable_def)

lemma created_append: "created (l @ m) = created l @ created m"
  by (induction l rule: created.induct) simp_all

lemma generateKeyPair_existing:
  assumes "faults w = (\<lambda>_. None)" "existing_key_pair (store w) = Some kp"
  shows "\<exists>w1. generateKeyPair n p w = (Inr kp, w1)
           \<and> faults w1 = faults w
           \<and> encryptedSavedObjectsSetup w1 = encryptedSavedObjectsSetup w
           \<and> now w1 = now w \<and> next_id w1 = next_id w \<and> entropy w1 = entropy w
           \<and> map so_id (store w1) = map so_id (store w)
           \<and> map created_at (store w1) = map created_at (store w)
           \<and> existing_key_pair (store w1) = Some kp
           \<and> (\<exists>l. trace w1 = trace w @ l \<and> created l = [])"
proof -
  from checkForExistingKeyPair_ok [OF assms(1)] assms(2)
  obtain w1 where "checkForExistingKeyPair w = (Inr (Some kp), w1)"
    and "faults w1 = faults w"
    and "encryptedSavedObjectsSetup w1 = encryptedSavedObjectsSetup w"
    and "now w1 = now w" and "next_id w1 = next_id w" and "entropy w1 = entropy w"
    and "map so_id (store w1) = map so_id (store w)"
    and "map created_at (store w1) = map created_at (store w)"
    and "existing_key_pair (store w1) = Some kp"
    and "\<exists>l. trace w1 = trace w @ l \<and> created l = []"
    by auto
  then show ?thesis
    by (simp add: generateKeyPair_split await_def resolve_def)
qed

lemma generateKeyPair_fresh:
  assumes "faults w = (\<lambda>_. None)" "existing_key_pair (store w) = None"
  shows "\<exists>w1. generateKeyPair n p w = (Inr (fresh_key_pair n p w), w1)
           \<and> faults w1 = faults w
           \<and> encryptedSavedObjectsSetup w1 = encryptedSavedObjectsSetup w
           \<and> store w1 = store w @ [\<lparr>so_id = next_id w, created_at = now w,
                  attributes = Some (persisted (isEncryptionAvailable w) (fresh_key_pair n p w))\<rparr>]
           \<and> next_id w1 = Suc (next_id w) \<and> now w1 = Suc (now w)
           \<and> (\<exists>l. trace w1 = trace w @ l
                 \<and> created l = [persisted (isEncryptionAvailable w) (fresh_key_pair n p w)])"
proof -
  from checkForExistingKeyPair_ok [OF assms(1)] assms(2)
  obtain w0 l0 where c: "checkForExistingKeyPair w = (Inr None, w0)"
    and f: "faults w0 = faults w"
    and e: "encryptedSavedObjectsSetup w0 = encryptedSavedObjectsSetup w"
    and fr: "now w0 = now w" "next_id w0 = next_id w" "entropy w0 = entropy w" "store w0 = store w"
    and t: "trace w0 = trace w @ l0" "created l0 = []"
    by auto
  from f assms(1) have "faults w0 = (\<lambda>_. None)" by simp
  from generateFresh_ok [OF this, of n p]
  obtain w1 where g: "generateFresh n p w0 = (Inr (fresh_key_pair n p w0), w1)"
    and g1: "faults w1 = faults w0" "encryptedSavedObjectsSetup w1 = encryptedSavedObjectsSetup w0"
      "store w1 = store w0 @ [\<lparr>so_id = next_id w0, created_at = now w0,
          attributes = Some (persisted (isEncryptionAvailable w0) (fresh_key_pair n p w0))\<rparr>]"
      "next_id w1 = Suc (next_id w0)" "now w1 = Suc (now w0)"
      "trace w1 = trace w0 @ (if truthy p then [] else [(RandomBytes 32, None)])
                 @ [(GenerateKeyPairSync, None),
                    (Create (persisted (isEncryptionAvailable w0) (fresh_key_pair n p w0)), None)]"
    by blast
  have k: "fresh_key_pair n p w0 = fresh_key_pair n p w"
    using fr(3) by (rule fresh_key_pair_cong)
  have i: "isEncryptionAvailable w0 = isEncryptionAvailable w"
    using e by (rule isEncryptionAvailable_cong)
  have "generateKeyPair n p w = (Inr (fresh_key_pair n p w), w1)"
    using c g k by (simp add: generateKeyPair_split await_def)
  moreover have "trace w1 = trace w @ (l0 @ (if truthy p then [] else [(RandomBytes 32, None)])
                 @ [(GenerateKeyPairSync, None),
                    (Create (persisted (isEncryptionAvailable w) (fresh_key_pair n p w)), None)])"
    using g1(6) t(1) k i by simp
  moreover have "created (l0 @ (if truthy p then [] else [(RandomBytes 32, None)])
                 @ [(GenerateKeyPairSync, None),
                    (Create (persisted (isEncryptionAvailable w) (fresh_key_pair n p w)), None)])
                 = [persisted (isEncryptionAvailable w) (fresh_key_pair n p w)]"
    using t(2) by (simp add: created_append)
  ultimately show ?thesis
    using g1 f e fr k i by auto
qed

subsection \<open>Create-if-missing\<close>

text \<open>
  Claim C1. When no dependency call fails: if the current key pair object of the store
  carries a key pair (non-empty private key, public key and passphrase),
  \<^verbatim>\<open>generateKeyPair\<close> returns exactly that key pair, the store keeps the same
  objects, no identifier is handed out and no object is created; if it carries none (or
  there is no object), \<^verbatim>\<open>generateKeyPair\<close> returns a fresh \<^verbatim>\<open>prime256v1\<close> key pair
  and \<^verbatim>\<open>soClient.create\<close> has added exactly one object, which holds it.
\<close>

theorem generateKeyPair_create_if_missing:
  assumes "faults w = (\<lambda>_. None)"
  shows "(\<forall>kp. existing_key_pair (store w) = Some kp \<longrightarrow>
            fst (generateKeyPair n p w) = Inr kp
            \<and> map so_id (store (snd (generateKeyPair n p w))) = map so_id (store w)
            \<and> next_id (snd (generateKeyPair n p w)) = next_id w
            \<and> created (drop (length (trace w)) (trace (snd (generateKeyPair n p w)))) = [])
       \<and> (existing_key_pair (store w) = None \<longrightarrow>
            fst (generateKeyPair n p w) = Inr (fresh_key_pair n p w)
            \<and> store (snd (generateKeyPair n p w))
                = store w @ [\<lparr>so_id = next_id w, created_at = now w,
                     attributes = Some (persisted (isEncryptionAvailable w) (fresh_key_pair n p w))\<rparr>]
            \<and> created (drop (length (trace w)) (trace (snd (generateKeyPair n p w))))
                = [persisted (isEncryptionAvailable w) (fresh_key_pair n p w)])"
proof (intro conjI allI impI)
  fix kp
  assume "existing_key_pair (store w) = Some kp"
  from generateKeyPair_existing [OF assms this, of n p]
  obtain w1 l where r: "generateKeyPair n p w = (Inr kp, w1)"
    and "map so_id (store w1) = map so_id (store w)" "next_id w1 = next_id w"
    and "trace w1 = trace w @ l" "created l = []"
    by blast
  then show "fst (generateKeyPair n p w) = Inr kp"
    and "map so_id (store (snd (generateKeyPair n p w))) = map so_id (store w)"
    and "next_id (snd (generateKeyPair n p w)) = next_id w"
    and "created (drop (length (trace w)) (trace (snd (generateKeyPair n p w)))) = []"
    by simp_all
next
  assume "existing_key_pair (store w) = None"
  from generateKeyPair_fresh [OF assms this, of n p]
  obtain w1 l where r: "generateKeyPair n p w = (Inr (fresh_key_pair n p w), w1)"
    and "store w1 = store w @ [\<lparr>so_id = next_id w, created_at = now w,
                  attributes = Some (persisted (isEncryptionAvailable w) (fresh_key_pair n p w))\<rparr>]"
    and "trace w1 = trace w @ l"
    and "created l = [persisted (isEncryptionAvailable w) (fresh_key_pair n p w)]"
    by blast
  then show "fst (generateKeyPair n p w) = Inr (fresh_key_pair n p w)"
    and "store (snd (generateKeyPair n p w))
                = store w @ [\<lparr>so_id = next_id w, created_at = now w,
                     attributes = Some (persisted (isEncryptionAvailable w) (fresh_key_pair n p w))\<rparr>]"
    and "created (drop (length (trace w)) (trace (snd (generateKeyPair n p w))))
                = [persisted (isEncryptionAvailable w) (fresh_key_pair n p w)]"
    by simp_all
qed

lemma existing_plain_world:
  "existing_key_pair (store plain_world)
   = Some \<lparr>privateKey = ''cHJpdg=='', publicKey = ''cHVi'', kp_passphrase = ''secret''\<rparr>"
  by (simp add: plain_world_def empty_world_def existing_key_pair_def current_def plain_object_def
      stored_key_pair_def truthy_def the_string_def)

lemma existing_empty_world: "existing_key_pair (store empty_world) = None"
  by (simp add: empty_world_def existing_key_pair_def current_def)

theorem generateKeyPair_create_if_missing_witness:
  "fst (generateKeyPair stub_node None plain_world)
     = Inr \<lparr>privateKey = ''cHJpdg=='', publicKey = ''cHVi'', kp_passphrase = ''secret''\<rparr>
   \<and> map so_id (store (snd (generateKeyPair stub_node None plain_world))) = [0]
   \<and> fst (generateKeyPair stub_node (Some ''pw'') empty_world)
     = Inr \<lparr>privateKey = ''AA'', publicKey = ''A'', kp_passphrase = ''pw''\<rparr>
   \<and> store (snd (generateKeyPair stub_node (Some ''pw'') empty_world))
     = [\<lparr>so_id = 0, created_at = 0,
         attributes = Some \<lparr>private_key = Some ''AA'', public_key = Some ''A'',
                            passphrase = Some ''pw'', passphrase_plain = None\<rparr>\<rparr>]"
proof -
  have a: "faults plain_world = (\<lambda>_. None)" and b: "faults empty_world = (\<lambda>_. None)"
    by (simp_all add: plain_world_def empty_world_def)
  have c: "store plain_world = [plain_object]" "so_id plain_object = 0"
    by (simp_all add: plain_world_def empty_world_def plain_object_def)
  have d: "fresh_key_pair stub_node (Some ''pw'') empty_world
           = \<lparr>privateKey = ''AA'', publicKey = ''A'', kp_passphrase = ''pw''\<rparr>"
    by (simp add: fresh_key_pair_def fresh_passphrase_def stub_node_def truthy_def the_string_def)
  have e: "isEncryptionAvailable empty_world" "store empty_world = []" "next_id empty_world = 0"
    "now empty_world = 0"
    by (simp_all add: isEncryptionAvailable_def empty_world_def)
  from generateKeyPair_create_if_missing [OF a, of stub_node None]
  have f: "fst (generateKeyPair stub_node None plain_world)
             = Inr \<lparr>privateKey = ''cHJpdg=='', publicKey = ''cHVi'', kp_passphrase = ''secret''\<rparr>
           \<and> map so_id (store (snd (generateKeyPair stub_node None plain_world)))
             = map so_id (store plain_world)"
    by (simp add: existing_plain_world)
  from generateKeyPair_create_if_missing [OF b, of stub_node "Some ''pw''"]
  have g: "fst (generateKeyPair stub_node (Some ''pw'') empty_world)
             = Inr (fresh_key_pair stub_node (Some ''pw'') empty_world)
           \<and> store (snd (generateKeyPair stub_node (Some ''pw'') empty_world))
             = store empty_world @ [\<lparr>so_id = next_id empty_world, created_at = now empty_world,
                  attributes = Some (persisted (isEncryptionAvailable empty_world)
                                       (fresh_key_pair stub_node (Some ''pw'') empty_world))\<rparr>]"
    by (simp add: existing_empty_world)
  from f g show ?thesis
    by (simp add: c d e persisted_def)
qed

lemma external_eq:
  "external c w =
     (case faults w (length (trace w)) of
        None \<Rightarrow> (Inr (), logged c None w)
      | Some e \<Rightarrow> (Inl (Thrown e), logged c (Some e) w))"
  by (simp add: external_def logged_def split: option.splits)

lemma generateFresh_creates:
  assumes "generateFresh n p w = (r, w')"
  shows "\<exists>l. trace w' = trace w @ l
           \<and> (\<forall>a f. (Create a, f) \<in> set l \<longrightarrow>
                 (\<exists>priv pub pass.
                    a = (if isEncryptionAvailable w
                         then \<lparr>private_key = Some priv, public_key = Some pub,
                               passphrase = Some pass, passphrase_plain = None\<rparr>
                         else \<lparr>private_key = Some priv, public_key = Some pub,
                               passphrase = None, passphrase_plain = Some pass\<rparr>)
                    \<and> (f = None \<longrightarrow>
                           r = Inr \<lparr>privateKey = priv, publicKey = pub, kp_passphrase = pass\<rparr>
                           \<and> attributes (last (store w')) = Some a)))"
proof (cases "truthy p")
  case True
  with assms show ?thesis
    by (auto simp add: generateFresh_def await_def resolve_def Let_def external_eq
        crypto_generateKeyPairSync_def soClient_create_def logged_simps persisted_def
        isEncryptionAvailable_def
        split: option.splits)
next
  case False
  with assms show ?thesis
    by (auto simp add: generateFresh_def generatePassphrase_def await_def resolve_def Let_def external_eq
        crypto_generateKeyPairSync_def crypto_randomBytes_def soClient_create_def logged_simps persisted_def
        isEncryptionAvailable_def
        split: option.splits)
qed

lemma soClient_update_eq:
  "soClient_update i attrs w =
     (case faults w (length (trace w)) of
        None \<Rightarrow> (Inr (), (logged (Update i attrs) None w)\<lparr>store := map (rewrite i attrs) (store w)\<rparr>)
      | Some e \<Rightarrow> (Inl (Thrown e), logged (Update i attrs) (Some e) w))"
  by (simp add: soClient_update_def await_def external_eq logged_simps rewrite_def [abs_def]
      split: option.splits)

lemma checkForExistingKeyPair_creates:
  assumes "checkForExistingKeyPair w = (r, w')"
  shows "encryptedSavedObjectsSetup w' = encryptedSavedObjectsSetup w
         \<and> (\<exists>l. trace w' = trace w @ l \<and> (\<forall>a f. (Create a, f) \<notin> set l))"
  using assms
  by (auto simp add: checkForExistingKeyPair_eq Let_def await_def resolve_def soClient_update_eq
      logged_simps split: option.splits if_splits)

subsection \<open>The passphrase-encryption toggle\<close>

text \<open>
  Claim C2. Whatever the dependencies do, every \<^verbatim>\<open>soClient.create\<close> issued by
  \<^verbatim>\<open>generateKeyPair\<close> carries a private key, a public key and exactly one passphrase
  attribute: \<open>passphrase\<close> when encryption is available, \<open>passphrase_plain\<close> when
  it is not. When the call succeeds the created object is the last of the store and its
  keys and passphrase are the ones returned.
\<close>

theorem generateKeyPair_passphrase_toggle:
  assumes "generateKeyPair n p w = (r, w')"
    and "(Create a, f) \<in> set (drop (length (trace w)) (trace w'))"
  shows "\<exists>priv pub pass.
           a = (if isEncryptionAvailable w
                then \<lparr>private_key = Some priv, public_key = Some pub,
                      passphrase = Some pass, passphrase_plain = None\<rparr>
                else \<lparr>private_key = Some priv, public_key = Some pub,
                      passphrase = None, passphrase_plain = Some pass\<rparr>)
           \<and> (f = None \<longrightarrow>
                  r = Inr \<lparr>privateKey = priv, publicKey = pub, kp_passphrase = pass\<rparr>
                  \<and> attributes (last (store w')) = Some a)"
proof (cases "checkForExistingKeyPair w")
  case (Pair r0 w0)
  from checkForExistingKeyPair_creates [OF Pair]
  obtain l0 where e: "encryptedSavedObjectsSetup w0 = encryptedSavedObjectsSetup w"
    and l0: "trace w0 = trace w @ l0" "\<forall>a f. (Create a, f) \<notin> set l0"
    by blast
  show ?thesis
  proof (cases "r0 = Inr None")
    case False
    with Pair assms(1) have "w' = w0"
      by (auto simp add: generateKeyPair_split await_def resolve_def
          split: sum.splits option.splits)
    with assms(2) l0 show ?thesis by simp
  next
    case True
    with Pair assms(1) have g: "generateFresh n p w0 = (r, w')"
      by (simp add: generateKeyPair_split await_def)
    from generateFresh_creates [OF g]
    obtain l where l: "trace w' = trace w0 @ l"
      and c: "\<forall>a f. (Create a, f) \<in> set l \<longrightarrow>
                 (\<exists>priv pub pass.
                    a = (if isEncryptionAvailable w0
                         then \<lparr>private_key = Some priv, public_key = Some pub,
                               passphrase = Some pass, passphrase_plain = None\<rparr>
                         else \<lparr>private_key = Some priv, public_key = Some pub,
                               passphrase = None, passphrase_plain = Some pass\<rparr>)
                    \<and> (f = None \<longrightarrow>
                           r = Inr \<lparr>privateKey = priv, publicKey = pub, kp_passphrase = pass\<rparr>
                           \<and> attributes (last (store w')) = Some a))"
      by blast
    have i: "isEncryptionAvailable w0 = isEncryptionAvailable w"
      using e by (rule isEncryptionAvailable_cong)
    from assms(2) l l0 have "(Create a, f) \<in> set l"
      by auto
    with c i show ?thesis by simp
  qed
qed

subsection \<open>Propagation of dependency errors\<close>

lemma fail_stop_Inl: "fail_stop l (Inl e :: error + 'a) = fail_stop l (Inl e :: error + 'b)"
  by (induction l "Inl e :: error + 'a" rule: fail_stop.induct) (simp_all split: error.splits)

lemma fail_stop_Inr: "fail_stop l (Inr x) = (\<forall>c\<in>set l. snd c = None)"
  by (induction l "Inr x :: error + 'a" rule: fail_stop.induct) simp_all

lemma fail_stop_quiet_append:
  "\<forall>c\<in>set l1. snd c = None \<Longrightarrow> fail_stop (l1 @ l2) r = fail_stop l2 r"
proof (induction l1)
  case Nil
  show ?case by simp
next
  case (Cons c l1)
  then show ?case by (cases c) simp
qed

lemma fs_resolve: "fs (resolve x)"
  by (simp add: fs_def resolve_def)

lemma fs_reject_Error: "fs (reject (Error m))"
  by (simp add: fs_def reject_def)

lemma fs_reject_TypeError: "fs (reject (TypeError m))"
  by (simp add: fs_def reject_def)

lemma fs_external: "fs (external c)"
  by (simp add: fs_def external_def split: option.splits)

lemma fs_await:
  assumes "fs m" "\<And>x. fs (k x)"
  shows "fs (await m k)"
  unfolding fs_def
proof
  fix w
  from assms(1) obtain l1 where l1: "trace (snd (m w)) = trace w @ l1" "fail_stop l1 (fst (m w))"
    unfolding fs_def by blast
  show "\<exists>l. trace (snd (await m k w)) = trace w @ l \<and> fail_stop l (fst (await m k w))"
  proof (cases "m w")
    case (Pair r w1)
    show ?thesis
    proof (cases r)
      case (Inl e)
      with Pair l1 have "trace (snd (await m k w)) = trace w @ l1"
        and "fail_stop l1 (fst (await m k w))"
        by (simp_all add: await_def fail_stop_Inl [where 'a = 'a and 'b = 'b])
      then show ?thesis by blast
    next
      case (Inr x)
      from assms(2) [of x] obtain l2 where l2: "trace (snd (k x w1)) = trace w1 @ l2"
        "fail_stop l2 (fst (k x w1))"
        unfolding fs_def by blast
      from Pair Inr l1 have q: "\<forall>c\<in>set l1. snd c = None" and t: "trace w1 = trace w @ l1"
        by (simp_all add: fail_stop_Inr)
      from Pair Inr l2 t have "trace (snd (await m k w)) = trace w @ (l1 @ l2)"
        by (simp add: await_def)
      moreover from Pair Inr l2 q have "fail_stop (l1 @ l2) (fst (await m k w))"
        by (simp add: await_def fail_stop_quiet_append)
      ultimately show ?thesis by blast
    qed
  qed
qed

lemma fs_silent:
  assumes "\<And>w. trace (f w) = trace w"
  shows "fs (\<lambda>w. (Inr (g w), f w))"
  by (simp add: fs_def assms)

lemma fs_soClient_create: "fs (soClient_create attrs)"
  unfolding soClient_create_def
  by (rule fs_await [OF fs_external]) (rule fs_silent, simp)

lemma fs_soClient_update: "fs (soClient_update i attrs)"
  unfolding soClient_update_def
  by (rule fs_await [OF fs_external]) (rule fs_silent, simp)

lemma fs_soClient_delete: "fs (soClient_delete i)"
  unfolding soClient_delete_def
  by (rule fs_await [OF fs_external]) (rule fs_silent, simp)

lemma fs_finder_find: "fs (finder_find perPage)"
  unfolding finder_find_def
  by (rule fs_await [OF fs_external]) (rule fs_silent, simp)

lemma fs_finder_close: "fs finder_close"
  by (simp add: fs_def finder_close_def)

lemma fs_crypto_randomBytes: "fs (crypto_randomBytes n sz)"
  unfolding crypto_randomBytes_def
  by (rule fs_await [OF fs_external]) (rule fs_silent, simp)

lemma fs_crypto_generateKeyPairSync: "fs (crypto_generateKeyPairSync n kind options)"
  unfolding crypto_generateKeyPairSync_def
  by (rule fs_await [OF fs_external]) (rule fs_silent, simp)

lemma fs_crypto_createSign: "fs (crypto_createSign algorithm bytes)"
  unfolding crypto_createSign_def
  by (rule fs_await [OF fs_external]) (rule fs_resolve)

lemma fs_crypto_signer_sign: "fs (crypto_signer_sign n signer k encoding)"
  unfolding crypto_signer_sign_def
  by (rule fs_await [OF fs_external]) (rule fs_silent, simp)

lemma fs_getCurrentKeyPairObj: "fs getCurrentKeyPairObj"
  unfolding getCurrentKeyPairObj_def
  by (intro fs_await fs_finder_find fs_finder_close fs_resolve)

lemma fs_if_world:
  assumes "fs a" "fs b"
  shows "fs (\<lambda>w. if c w then a w else b w)"
  using assms by (simp add: fs_def)

lemma fs_arg_world:
  assumes "\<And>x. fs (h x)"
  shows "fs (\<lambda>w. h (if c w then x else y) w)"
  using assms by (simp add: fs_def)

lemma fs_checkForExistingKeyPair: "fs checkForExistingKeyPair"
  unfolding checkForExistingKeyPair_def Let_def
  apply (rule fs_await [OF fs_getCurrentKeyPairObj])
  apply (simp split: option.split)
  apply (intro conjI allI impI fs_resolve fs_await fs_if_world fs_soClient_update)
  done

lemma fs_generatePassphrase: "fs (generatePassphrase n)"
  unfolding generatePassphrase_def
  by (intro fs_await fs_crypto_randomBytes fs_resolve)

lemma fs_generateFresh: "fs (generateFresh n p)"
  unfolding generateFresh_def Let_def
  apply (intro fs_await fs_crypto_generateKeyPairSync fs_resolve)
   apply (simp add: fs_resolve fs_generatePassphrase)
  apply (rule fs_arg_world [where h = soClient_create])
  apply (rule fs_soClient_create)
  done

lemma fs_generateKeyPair: "fs (generateKeyPair n p)"
  unfolding generateKeyPair_split
  apply (rule fs_await [OF fs_checkForExistingKeyPair])
  apply (simp add: fs_resolve fs_generateFresh split: option.split)
  done

lemma fs_getPublicKey: "fs (getPublicKey n)"
  unfolding getPublicKey_def Let_def
  apply (rule fs_await [OF fs_generateKeyPair])
  apply (simp add: fs_resolve fs_reject_Error)
  done

lemma fs_sign: "fs (sign n message)"
  unfolding sign_def Let_def
  apply (rule fs_await [OF fs_generateKeyPair])
  apply (rule fs_await)
   apply (simp add: fs_resolve fs_reject_TypeError split: message.split sum.split)
  apply (rule fs_await [OF fs_crypto_createSign])
  apply (simp add: fs_reject_Error)
  apply (intro impI fs_await fs_crypto_signer_sign fs_resolve)
  done

lemma fs_removeKeyPair: "fs removeKeyPair"
  unfolding removeKeyPair_def
  apply (rule fs_await [OF fs_getCurrentKeyPairObj])
  apply (simp add: fs_resolve split: option.split)
  apply (intro allI impI fs_await fs_soClient_delete fs_resolve)
  done

lemma fs_rotateKeyPair: "fs (rotateKeyPair n)"
  unfolding rotateKeyPair_def
  apply (rule fs_await [OF fs_removeKeyPair])
  apply (simp add: fs_resolve)
  apply (intro impI fs_await fs_generateKeyPair fs_resolve)
  done

lemma fs_propagates: "fs m \<Longrightarrow> propagates w (m w)"
proof -
  assume "fs m"
  then obtain l where "trace (snd (m w)) = trace w @ l" "fail_stop l (fst (m w))"
    unfolding fs_def by blast
  then show ?thesis by (simp add: propagates_def)
qed

text \<open>
  Claim C7. In every run of \<^verbatim>\<open>generateKeyPair\<close>, \<^verbatim>\<open>sign\<close>, \<^verbatim>\<open>getPublicKey\<close> and
  \<^verbatim>\<open>rotateKeyPair\<close> the trace is only extended, and if an external call throws then
  it is the last call the method makes and the method ends with that very error: the
  error is not caught, and no further or compensating call follows.
\<close>

theorem service_propagates_dependency_errors:
  "propagates w (generateKeyPair n p w) \<and> propagates w (sign n message w)
   \<and> propagates w (getPublicKey n w) \<and> propagates w (rotateKeyPair n w)"
  by (intro conjI fs_propagates fs_generateKeyPair fs_sign fs_getPublicKey fs_rotateKeyPair)

subsection \<open>The service's own errors\<close>

lemma generateFresh_result:
  assumes "generateFresh n p w = (Inr kp, w')" "nonempty_encodings n"
  shows "privateKey kp \<noteq> [] \<and> publicKey kp \<noteq> [] \<and> kp_passphrase kp \<noteq> []"
proof (cases "truthy p")
  case True
  then have "the_string p \<noteq> []"
    by (simp add: truthy_def the_string_def split: option.splits)
  with True assms show ?thesis
    by (auto simp add: generateFresh_def await_def resolve_def Let_def external_eq
        crypto_generateKeyPairSync_def soClient_create_def nonempty_encodings_def
        split: option.splits)
next
  case False
  with assms show ?thesis
    by (auto simp add: generateFresh_def generatePassphrase_def await_def resolve_def Let_def
        external_eq crypto_generateKeyPairSync_def crypto_randomBytes_def soClient_create_def
        nonempty_encodings_def logged_simps
        split: option.splits)
qed

lemma truthy_the_string: "truthy s \<Longrightarrow> the_string s \<noteq> []"
  by (simp add: truthy_def the_string_def split: option.splits)

lemma stored_key_pair_nonempty:
  assumes "stored_key_pair obj = Some kp"
  shows "privateKey kp \<noteq> [] \<and> publicKey kp \<noteq> [] \<and> kp_passphrase kp \<noteq> []"
proof -
  from assms obtain a :: MessageSigningKeys
    where "truthy (private_key a)" "truthy (public_key a)"
    "truthy (passphrase a) \<or> truthy (passphrase_plain a)"
    and "kp = \<lparr>privateKey = the_string (private_key a),
                    publicKey = the_string (public_key a),
                    kp_passphrase = (if truthy (passphrase a) then the_string (passphrase a)
                                     else the_string (passphrase_plain a))\<rparr>"
    unfolding stored_key_pair_Some by blast
  then show ?thesis
    by (auto simp add: truthy_the_string)
qed

lemma checkForExistingKeyPair_error:
  "checkForExistingKeyPair w = (Inl e, w') \<Longrightarrow> \<exists>s. e = Thrown s"
  by (auto simp add: checkForExistingKeyPair_eq Let_def await_def resolve_def soClient_update_eq
      split: option.splits if_splits)

lemma generateFresh_error:
  assumes "generateFresh n p w = (Inl e, w')"
  shows "\<exists>s. e = Thrown s"
proof (cases "truthy p")
  case True
  with assms show ?thesis
    by (auto simp add: generateFresh_def await_def resolve_def Let_def external_eq
        crypto_generateKeyPairSync_def soClient_create_def
        split: option.splits)
next
  case False
  with assms show ?thesis
    by (auto simp add: generateFresh_def generatePassphrase_def await_def resolve_def Let_def
        external_eq crypto_generateKeyPairSync_def crypto_randomBytes_def soClient_create_def
        split: option.splits)
qed

lemma generateKeyPair_error:
  assumes "generateKeyPair n p w = (Inl e, w')"
  shows "\<exists>s. e = Thrown s"
proof (cases "checkForExistingKeyPair w")
  case (Pair r0 w0)
  show ?thesis
  proof (cases r0)
    case (Inl e0)
    with Pair assms have "e0 = e"
      by (simp add: generateKeyPair_split await_def)
    with Pair Inl show ?thesis
      by (auto dest: checkForExistingKeyPair_error)
  next
    case (Inr found)
    show ?thesis
    proof (cases found)
      case None
      with Pair Inr assms have "generateFresh n p w0 = (Inl e, w')"
        by (simp add: generateKeyPair_split await_def)
      then show ?thesis by (rule generateFresh_error)
    next
      case (Some kp)
      with Pair Inr assms show ?thesis
        by (simp add: generateKeyPair_split await_def resolve_def)
    qed
  qed
qed

lemma existing_key_pair_nonempty:
  assumes "existing_key_pair objs = Some kp"
  shows "privateKey kp \<noteq> [] \<and> publicKey kp \<noteq> [] \<and> kp_passphrase kp \<noteq> []"
  using assms
  by (auto simp add: existing_key_pair_def split: option.splits dest: stored_key_pair_nonempty)

lemma generateKeyPair_result:
  assumes "generateKeyPair n p w = (Inr kp, w')" "nonempty_encodings n"
  shows "privateKey kp \<noteq> [] \<and> publicKey kp \<noteq> [] \<and> kp_passphrase kp \<noteq> []"
proof (cases "checkForExistingKeyPair w")
  case (Pair r0 w0)
  show ?thesis
  proof (cases r0)
    case (Inl e)
    with Pair assms(1) show ?thesis
      by (simp add: generateKeyPair_split await_def)
  next
    case (Inr found)
    with Pair have ex: "found = existing_key_pair (store w)"
      by (simp add: checkForExistingKeyPair_result)
    show ?thesis
    proof (cases found)
      case None
      with Pair Inr assms(1) have "generateFresh n p w0 = (Inr kp, w')"
        by (simp add: generateKeyPair_split await_def)
      then show ?thesis using assms(2) by (rule generateFresh_result)
    next
      case (Some kp')
      with Pair Inr assms(1) have "kp' = kp"
        by (simp add: generateKeyPair_split await_def resolve_def)
      with Some ex have "existing_key_pair (store w) = Some kp" by simp
      then show ?thesis by (rule existing_key_pair_nonempty)
    qed
  qed
qed

text \<open>
  Claim C9. Provided the library never encodes 32 random bytes or a generated key as the
  empty string, a key pair returned by \<^verbatim>\<open>generateKeyPair\<close> has a non-empty private
  key, public key and passphrase, so \<^verbatim>\<open>sign\<close> never ends with
  \<^verbatim>\<open>unable to find private key\<close> or \<^verbatim>\<open>unable to find passphrase\<close>, and
  \<^verbatim>\<open>getPublicKey\<close> never ends with \<^verbatim>\<open>unable to find public key\<close>.
\<close>

theorem unable_to_find_unreachable:
  assumes "nonempty_encodings n"
  shows "(\<forall>kp. fst (generateKeyPair n p w) = Inr kp \<longrightarrow>
            privateKey kp \<noteq> [] \<and> publicKey kp \<noteq> [] \<and> kp_passphrase kp \<noteq> [])
       \<and> fst (sign n message w) \<noteq> Inl (Error ''unable to find private key'')
       \<and> fst (sign n message w) \<noteq> Inl (Error ''unable to find passphrase'')
       \<and> fst (getPublicKey n w) \<noteq> Inl (Error ''unable to find public key'')"
proof -
  have a: "\<And>p kp w'. generateKeyPair n p w = (Inr kp, w') \<Longrightarrow>
             privateKey kp \<noteq> [] \<and> publicKey kp \<noteq> [] \<and> kp_passphrase kp \<noteq> []"
    using assms by (rule generateKeyPair_result [rotated])
  have "\<forall>kp. fst (generateKeyPair n p w) = Inr kp \<longrightarrow>
            privateKey kp \<noteq> [] \<and> publicKey kp \<noteq> [] \<and> kp_passphrase kp \<noteq> []"
    using a [of p] by (cases "generateKeyPair n p w") auto
  moreover have "fst (sign n message w) \<noteq> Inl (Error m)"
    and "fst (getPublicKey n w) \<noteq> Inl (Error m)" for m
  proof -
    obtain r w1 where g: "generateKeyPair n None w = (r, w1)"
      by (cases "generateKeyPair n None w")
    show "fst (sign n message w) \<noteq> Inl (Error m)"
    proof (cases r)
      case (Inl e)
      with g obtain s where "e = Thrown s"
        by (auto dest: generateKeyPair_error)
      with g Inl show ?thesis
        by (simp add: sign_def await_def)
    next
      case (Inr kp)
      with g a [of None kp w1] have "privateKey kp \<noteq> []" "kp_passphrase kp \<noteq> []"
        by simp_all
      with g Inr show ?thesis
        by (auto simp add: sign_def await_def Let_def crypto_createSign_def crypto_signer_sign_def
            external_eq resolve_def reject_def split: option.splits message.splits sum.splits)
    qed
    show "fst (getPublicKey n w) \<noteq> Inl (Error m)"
    proof (cases r)
      case (Inl e)
      with g obtain s where "e = Thrown s"
        by (auto dest: generateKeyPair_error)
      with g Inl show ?thesis
        by (simp add: getPublicKey_def await_def)
    next
      case (Inr kp)
      with g a [of None kp w1] have "publicKey kp \<noteq> []"
        by simp
      with g Inr show ?thesis
        by (simp add: getPublicKey_def await_def Let_def resolve_def)
    qed
  qed
  ultimately show ?thesis by blast
qed

lemma nonempty_encodings_stub: "nonempty_encodings stub_node"
  by (simp add: nonempty_encodings_def stub_node_def)

theorem unable_to_find_unreachable_witness:
  "nonempty_encodings stub_node
   \<and> fst (sign stub_node (IsBuffer [1, 2, 3]) empty_world) \<noteq> Inl (Error ''unable to find private key'')
   \<and> fst (sign stub_node (IsBuffer [1, 2, 3]) empty_world) \<noteq> Inl (Error ''unable to find passphrase'')
   \<and> fst (getPublicKey stub_node empty_world) \<noteq> Inl (Error ''unable to find public key'')"
  using unable_to_find_unreachable [OF nonempty_encodings_stub, of None empty_world "IsBuffer [1, 2, 3]"]
    nonempty_encodings_stub
  by simp

theorem generateKeyPair_passphrase_toggle_witness:
  "(Create \<lparr>private_key = Some ''AA'', public_key = Some ''A'',
             passphrase = Some ''pw'', passphrase_plain = None\<rparr>, None)
     \<in> set (drop (length (trace empty_world))
                (trace (snd (generateKeyPair stub_node (Some ''pw'') empty_world))))
   \<and> isEncryptionAvailable empty_world
   \<and> fst (generateKeyPair stub_node (Some ''pw'') empty_world)
       = Inr \<lparr>privateKey = ''AA'', publicKey = ''A'', kp_passphrase = ''pw''\<rparr>
   \<and> (Create \<lparr>private_key = Some ''AA'', public_key = Some ''A'',
             passphrase = None, passphrase_plain = Some ''pw''\<rparr>, None)
     \<in> set (drop (length (trace (empty_world\<lparr>encryptedSavedObjectsSetup := None\<rparr>)))
                (trace (snd (generateKeyPair stub_node (Some ''pw'')
                               (empty_world\<lparr>encryptedSavedObjectsSetup := None\<rparr>)))))"
proof -
  have t: "trace (snd (generateKeyPair stub_node (Some ''pw'') empty_world))
           = [(Find, None), (Close, None), (GenerateKeyPairSync, None),
              (Create \<lparr>private_key = Some ''AA'', public_key = Some ''A'',
                       passphrase = Some ''pw'', passphrase_plain = None\<rparr>, None)]"
    by (simp add: generateKeyPair_split await_def checkForExistingKeyPair_eq empty_world_def
        current_def logged_def generateFresh_def truthy_def resolve_def the_string_def
        crypto_generateKeyPairSync_def external_def stub_node_def Let_def soClient_create_def
        isEncryptionAvailable_def)
  have u: "trace (snd (generateKeyPair stub_node (Some ''pw'')
                         (empty_world\<lparr>encryptedSavedObjectsSetup := None\<rparr>)))
           = [(Find, None), (Close, None), (GenerateKeyPairSync, None),
              (Create \<lparr>private_key = Some ''AA'', public_key = Some ''A'',
                       passphrase = None, passphrase_plain = Some ''pw''\<rparr>, None)]"
    by (simp add: generateKeyPair_split await_def checkForExistingKeyPair_eq empty_world_def
        current_def logged_def generateFresh_def truthy_def resolve_def the_string_def
        crypto_generateKeyPairSync_def external_def stub_node_def Let_def soClient_create_def
        isEncryptionAvailable_def)
  have m: "(Create \<lparr>private_key = Some ''AA'', public_key = Some ''A'',
             passphrase = Some ''pw'', passphrase_plain = None\<rparr>, None)
     \<in> set (drop (length (trace empty_world))
                (trace (snd (generateKeyPair stub_node (Some ''pw'') empty_world))))"
    by (simp add: t) (simp add: empty_world_def)
  have i: "isEncryptionAvailable empty_world"
    by (simp add: isEncryptionAvailable_def empty_world_def)
  from generateKeyPair_passphrase_toggle [OF prod.collapse [symmetric] m] i
  have "fst (generateKeyPair stub_node (Some ''pw'') empty_world)
       = Inr \<lparr>privateKey = ''AA'', publicKey = ''A'', kp_passphrase = ''pw''\<rparr>"
    by auto
  with m i u show ?thesis
    by (simp add: empty_world_def)
qed

lemma checkForExistingKeyPair_found:
  assumes "existing_key_pair (store w) \<noteq> None" "checkForExistingKeyPair w = (r, w')"
  shows "r \<noteq> Inr None"
  using assms by (auto dest: checkForExistingKeyPair_result)

subsection \<open>The provided passphrase\<close>

text \<open>
  Claim C8. When the current key pair object carries a key pair, \<^verbatim>\<open>generateKeyPair\<close>
  does the same whatever passphrase is provided (result and final world alike, also when
  a dependency fails), and when no dependency fails it returns the stored key pair. The
  provided passphrase takes effect only when a key pair is created: it is then the
  passphrase returned if it is truthy, and 32 random bytes in hex are otherwise.
\<close>

theorem generateKeyPair_ignores_providedPassphrase:
  "(existing_key_pair (store w) \<noteq> None \<longrightarrow> generateKeyPair n p w = generateKeyPair n q w)
   \<and> (faults w = (\<lambda>_. None) \<longrightarrow>
        (case existing_key_pair (store w) of
           Some kp \<Rightarrow> fst (generateKeyPair n p w) = Inr kp
         | None \<Rightarrow> (\<exists>kp. fst (generateKeyPair n p w) = Inr kp
                     \<and> kp_passphrase kp = (if truthy p then the_string p
                          else toString n (randomBytes n (entropy w) 32) ''hex''))))"
proof (intro conjI impI)
  assume e: "existing_key_pair (store w) \<noteq> None"
  obtain r w0 where c: "checkForExistingKeyPair w = (r, w0)"
    by (cases "checkForExistingKeyPair w")
  with e have "r \<noteq> Inr None"
    by (rule checkForExistingKeyPair_found)
  with c show "generateKeyPair n p w = generateKeyPair n q w"
    by (auto simp add: generateKeyPair_split await_def split: sum.splits option.splits)
next
  assume nf: "faults w = (\<lambda>_. None)"
  show "case existing_key_pair (store w) of
           Some kp \<Rightarrow> fst (generateKeyPair n p w) = Inr kp
         | None \<Rightarrow> (\<exists>kp. fst (generateKeyPair n p w) = Inr kp
                     \<and> kp_passphrase kp = (if truthy p then the_string p
                          else toString n (randomBytes n (entropy w) 32) ''hex''))"
  proof (cases "existing_key_pair (store w)")
    case None
    from generateKeyPair_fresh [OF nf None, of n p]
    have "fst (generateKeyPair n p w) = Inr (fresh_key_pair n p w)"
      by auto
    moreover have "kp_passphrase (fresh_key_pair n p w)
                   = (if truthy p then the_string p
                      else toString n (randomBytes n (entropy w) 32) ''hex'')"
      by (simp add: fresh_key_pair_def fresh_passphrase_def Let_def)
    ultimately show ?thesis using None by simp
  next
    case (Some kp)
    from generateKeyPair_existing [OF nf Some, of n p]
    have "fst (generateKeyPair n p w) = Inr kp"
      by auto
    with Some show ?thesis by simp
  qed
qed

theorem generateKeyPair_ignores_providedPassphrase_witness:
  "existing_key_pair (store plain_world) \<noteq> None
   \<and> generateKeyPair stub_node (Some ''mine'') plain_world = generateKeyPair stub_node None plain_world
   \<and> faults plain_world = (\<lambda>_. None)
   \<and> fst (generateKeyPair stub_node (Some ''mine'') plain_world)
       = Inr \<lparr>privateKey = ''cHJpdg=='', publicKey = ''cHVi'', kp_passphrase = ''secret''\<rparr>
   \<and> kp_passphrase (projr (fst (generateKeyPair stub_node (Some ''mine'') empty_world))) = ''mine''"
proof -
  have a: "faults plain_world = (\<lambda>_. None)" and b: "faults empty_world = (\<lambda>_. None)"
    by (simp_all add: plain_world_def empty_world_def)
  have t: "truthy (Some ''mine'')" "the_string (Some ''mine'') = ''mine''"
    by (simp_all add: truthy_def the_string_def)
  from generateKeyPair_ignores_providedPassphrase [of plain_world stub_node "Some ''mine''" None]
  have "generateKeyPair stub_node (Some ''mine'') plain_world = generateKeyPair stub_node None plain_world"
    and "fst (generateKeyPair stub_node (Some ''mine'') plain_world)
       = Inr \<lparr>privateKey = ''cHJpdg=='', publicKey = ''cHVi'', kp_passphrase = ''secret''\<rparr>"
    by (auto simp add: existing_plain_world a)
  moreover
  from generateKeyPair_ignores_providedPassphrase [of empty_world stub_node "Some ''mine''" None]
  have "kp_passphrase (projr (fst (generateKeyPair stub_node (Some ''mine'') empty_world))) = ''mine''"
    by (auto simp add: existing_empty_world b t)
  ultimately show ?thesis
    by (simp add: existing_plain_world a)
qed

subsection \<open>Reading the public key and signing\<close>

lemma getPublicKey_from:
  assumes "generateKeyPair n None w = (Inr kp, w1)" "publicKey kp \<noteq> []"
  shows "getPublicKey n w = (Inr (publicKey kp), w1)"
  using assms by (simp add: getPublicKey_def await_def Let_def resolve_def)

lemma sign_from:
  assumes "generateKeyPair n None w = (Inr kp, w1)" "faults w1 = (\<lambda>_. None)"
    "privateKey kp \<noteq> []" "kp_passphrase kp \<noteq> []"
  shows "case (case message of
                 IsBuffer b \<Rightarrow> Inr b
               | IsRecord r \<Rightarrow> map_sum (\<lambda>m. m) (\<lambda>s. Buffer_from n s ''utf8'') (JSON_stringify n r)) of
           Inr bytes \<Rightarrow>
             sign n message w =
               (Inr \<lparr>data = bytes,
                      signature = signer_sign n (entropy w1) ''SHA256'' bytes
                        \<lparr>key = Buffer_from n (privateKey kp) ''base64'',
                         key_passphrase = kp_passphrase kp,
                         key_format = ''der'', key_type = ''pkcs8''\<rparr> ''base64''\<rparr>,
                (logged SignerSign None (logged CreateSign None w1))\<lparr>entropy := Suc (entropy w1)\<rparr>)
         | Inl m \<Rightarrow> sign n message w = (Inl (TypeError m), w1)"
proof (cases message)
  case (IsBuffer b)
  with assms show ?thesis
    by (simp add: sign_def await_def Let_def resolve_def crypto_createSign_def
        crypto_signer_sign_def external_ok logged_simps)
next
  case (IsRecord r)
  with assms show ?thesis
    by (cases "JSON_stringify n r")
      (simp_all add: sign_def await_def Let_def resolve_def reject_def crypto_createSign_def
        crypto_signer_sign_def external_ok logged_simps)
qed

lemma fresh_key_pair_nonempty:
  assumes "nonempty_encodings n"
  shows "privateKey (fresh_key_pair n p w) \<noteq> [] \<and> publicKey (fresh_key_pair n p w) \<noteq> []
         \<and> kp_passphrase (fresh_key_pair n p w) \<noteq> []"
  using assms
  by (simp add: fresh_key_pair_def fresh_passphrase_def Let_def nonempty_encodings_def
      truthy_the_string)

lemma stored_key_pair_persisted:
  assumes "privateKey kp \<noteq> []" "publicKey kp \<noteq> []" "kp_passphrase kp \<noteq> []"
  shows "stored_key_pair \<lparr>so_id = i, created_at = t, attributes = Some (persisted enc kp)\<rparr> = Some kp"
  using assms
  by (simp add: stored_key_pair_def persisted_def truthy_def the_string_def)

lemma generateKeyPair_settles:
  assumes "faults w = (\<lambda>_. None)" "nonempty_encodings n"
    "\<forall>obj\<in>set (store w). created_at obj < now w"
  shows "\<exists>kp w1. generateKeyPair n p w = (Inr kp, w1)
           \<and> faults w1 = faults w
           \<and> existing_key_pair (store w1) = Some kp
           \<and> (case existing_key_pair (store w) of
                  Some kp' \<Rightarrow> kp = kp'
                | None \<Rightarrow> kp = fresh_key_pair n p w)"
proof (cases "existing_key_pair (store w)")
  case (Some kp)
  from generateKeyPair_existing [OF assms(1) Some, of n p] Some show ?thesis
    by auto
next
  case None
  from generateKeyPair_fresh [OF assms(1) None, of n p]
  obtain w1 where g: "generateKeyPair n p w = (Inr (fresh_key_pair n p w), w1)"
    and f: "faults w1 = faults w"
    and st: "store w1 = store w @ [\<lparr>so_id = next_id w, created_at = now w,
                  attributes = Some (persisted (isEncryptionAvailable w) (fresh_key_pair n p w))\<rparr>]"
    by blast
  have "current (store w1) = Some \<lparr>so_id = next_id w, created_at = now w,
                  attributes = Some (persisted (isEncryptionAvailable w) (fresh_key_pair n p w))\<rparr>"
    unfolding st using assms(3) by (intro current_snoc) simp
  moreover have "stored_key_pair \<lparr>so_id = next_id w, created_at = now w,
                  attributes = Some (persisted (isEncryptionAvailable w) (fresh_key_pair n p w))\<rparr>
                 = Some (fresh_key_pair n p w)"
    using fresh_key_pair_nonempty [OF assms(2), of p w] by (intro stored_key_pair_persisted) simp_all
  ultimately have "existing_key_pair (store w1) = Some (fresh_key_pair n p w)"
    by (simp add: existing_key_pair_def)
  with g f None show ?thesis by simp
qed

text \<open>
  Claim C5. When no dependency fails, the library never encodes a key or 32 random bytes
  as the empty string, and every stored object was created before now,
  \<^verbatim>\<open>getPublicKey\<close> returns the public key of the current stored key pair, which it
  has generated and persisted first when there was none, and a second call right after
  returns the same string.
\<close>

theorem getPublicKey_stable:
  assumes "faults w = (\<lambda>_. None)" "nonempty_encodings n"
    "\<forall>obj\<in>set (store w). created_at obj < now w"
  shows "\<exists>k w1 w2. getPublicKey n w = (Inr k, w1) \<and> getPublicKey n w1 = (Inr k, w2)
           \<and> map_option publicKey (existing_key_pair (store w1)) = Some k
           \<and> (case existing_key_pair (store w) of
                  Some kp \<Rightarrow> k = publicKey kp
                | None \<Rightarrow> k = publicKey (fresh_key_pair n None w)
                          \<and> attributes (last (store w1))
                              = Some (persisted (isEncryptionAvailable w) (fresh_key_pair n None w)))"
proof -
  from generateKeyPair_settles [OF assms, of None]
  obtain kp w1 where g: "generateKeyPair n None w = (Inr kp, w1)"
    and f: "faults w1 = faults w"
    and e: "existing_key_pair (store w1) = Some kp"
    and c: "case existing_key_pair (store w) of Some kp' \<Rightarrow> kp = kp'
            | None \<Rightarrow> kp = fresh_key_pair n None w"
    by blast
  from e have ne: "publicKey kp \<noteq> []"
    by (simp add: existing_key_pair_nonempty)
  from g ne have first: "getPublicKey n w = (Inr (publicKey kp), w1)"
    by (rule getPublicKey_from)
  from f assms(1) have nf1: "faults w1 = (\<lambda>_. None)" by simp
  from generateKeyPair_existing [OF nf1 e, of n None]
  obtain w2 where "generateKeyPair n None w1 = (Inr kp, w2)"
    by blast
  then have second: "getPublicKey n w1 = (Inr (publicKey kp), w2)"
    using ne by (rule getPublicKey_from)
  have "case existing_key_pair (store w) of
                  Some kp' \<Rightarrow> publicKey kp = publicKey kp'
                | None \<Rightarrow> publicKey kp = publicKey (fresh_key_pair n None w)
                          \<and> attributes (last (store w1))
                              = Some (persisted (isEncryptionAvailable w) (fresh_key_pair n None w))"
  proof (cases "existing_key_pair (store w)")
    case (Some kp')
    with c show ?thesis by simp
  next
    case None
    from generateKeyPair_fresh [OF assms(1) None, of n None] g
    have "attributes (last (store w1))
            = Some (persisted (isEncryptionAvailable w) (fresh_key_pair n None w))"
      by auto
    with None c show ?thesis by simp
  qed
  with first second e show ?thesis
    by auto
qed

text \<open>
  With a record that \<^verbatim>\<open>JSON.stringify\<close> cannot serialise, \<^verbatim>\<open>sign\<close> returns no pair
  (Claim C4 as the specification has it): it ends with the \<^verbatim>\<open>TypeError\<close>, after the key
  pair has been generated and persisted.
\<close>

theorem sign_counterexample:
  "fst (sign stub_node (IsRecord BigIntRecord) empty_world)
     = Inl (TypeError ''Do not know how to serialize a BigInt'')
   \<and> map so_id (store (snd (sign stub_node (IsRecord BigIntRecord) empty_world))) = [0]
   \<and> created (trace (snd (sign stub_node (IsRecord BigIntRecord) empty_world)))
     = [\<lparr>private_key = Some ''AA'', public_key = Some ''A'',
         passphrase = Some (replicate 32 CHR ''A''), passphrase_plain = None\<rparr>]"
proof -
  have nf: "faults empty_world = (\<lambda>_. None)"
    by (simp add: empty_world_def)
  have ex: "existing_key_pair (store empty_world) = None"
    by (simp add: empty_world_def existing_key_pair_def current_def)
  have k: "fresh_key_pair stub_node None empty_world
           = \<lparr>privateKey = ''AA'', publicKey = ''A'', kp_passphrase = replicate 32 CHR ''A''\<rparr>"
    by (simp add: fresh_key_pair_def fresh_passphrase_def stub_node_def truthy_def
        empty_world_def map_replicate_const)
  have i: "isEncryptionAvailable empty_world" "store empty_world = []" "next_id empty_world = 0"
    "trace empty_world = []"
    by (simp_all add: isEncryptionAvailable_def empty_world_def)
  from generateKeyPair_fresh [OF nf ex, of stub_node None]
  obtain w1 l where g: "generateKeyPair stub_node None empty_world
                        = (Inr (fresh_key_pair stub_node None empty_world), w1)"
    and f: "faults w1 = faults empty_world"
    and st: "store w1 = store empty_world @ [\<lparr>so_id = next_id empty_world,
               created_at = now empty_world,
               attributes = Some (persisted (isEncryptionAvailable empty_world)
                                    (fresh_key_pair stub_node None empty_world))\<rparr>]"
    and tr: "trace w1 = trace empty_world @ l"
      "created l = [persisted (isEncryptionAvailable empty_world)
                      (fresh_key_pair stub_node None empty_world)]"
    by blast
  from f nf have nf1: "faults w1 = (\<lambda>_. None)" by simp
  have ne: "privateKey (fresh_key_pair stub_node None empty_world) \<noteq> []"
    "kp_passphrase (fresh_key_pair stub_node None empty_world) \<noteq> []"
    by (simp_all add: k)
  from sign_from [OF g nf1 ne, of "IsRecord BigIntRecord"]
  have "sign stub_node (IsRecord BigIntRecord) empty_world
        = (Inl (TypeError ''Do not know how to serialize a BigInt''), w1)"
    by (simp add: stub_node_def)
  with st tr show ?thesis
    by (simp add: i k persisted_def)
qed

text \<open>
  Claim C4, amended. When no dependency fails and the library never encodes a key or 32
  random bytes as the empty string, \<^verbatim>\<open>sign\<close> first runs \<^verbatim>\<open>generateKeyPair\<close>, which
  returns the current stored key pair, or generates and persists a fresh one when none
  exists. For a message that is a buffer, or a record that \<^verbatim>\<open>JSON.stringify\<close>
  serialises, \<^verbatim>\<open>sign\<close> then returns the message itself, or the UTF-8 bytes of its
  serialisation, as data, with the base64 SHA256 signature of that data under the
  private key and passphrase of that key pair, and nothing but the two signer calls
  follows. For a record that cannot be serialised it ends with the \<^verbatim>\<open>TypeError\<close>
  instead, in the world \<^verbatim>\<open>generateKeyPair\<close> left.
\<close>

theorem sign_signs_with_current_key_pair:
  assumes "faults w = (\<lambda>_. None)" "nonempty_encodings n"
  shows "\<exists>kp w1.
           generateKeyPair n None w = (Inr kp, w1)
           \<and> (case existing_key_pair (store w) of
                  Some kp' \<Rightarrow> kp = kp' \<and> map so_id (store w1) = map so_id (store w)
                | None \<Rightarrow>
                    kp = fresh_key_pair n None w
                    \<and> store w1 = store w @ [\<lparr>so_id = next_id w, created_at = now w,
                          attributes = Some (persisted (isEncryptionAvailable w)
                                               (fresh_key_pair n None w))\<rparr>])
           \<and> (case (case message of
                        IsBuffer b \<Rightarrow> Inr b
                      | IsRecord r \<Rightarrow>
                          map_sum (\<lambda>m. m) (\<lambda>s. Buffer_from n s ''utf8'') (JSON_stringify n r)) of
                  Inr bytes \<Rightarrow>
                    sign n message w =
                      (Inr \<lparr>data = bytes,
                             signature = signer_sign n (entropy w1) ''SHA256'' bytes
                               \<lparr>key = Buffer_from n (privateKey kp) ''base64'',
                                key_passphrase = kp_passphrase kp,
                                key_format = ''der'', key_type = ''pkcs8''\<rparr> ''base64''\<rparr>,
                       (logged SignerSign None (logged CreateSign None w1))
                         \<lparr>entropy := Suc (entropy w1)\<rparr>)
                | Inl m \<Rightarrow> sign n message w = (Inl (TypeError m), w1))"
proof -
  have "\<exists>kp w1. generateKeyPair n None w = (Inr kp, w1) \<and> faults w1 = faults w
          \<and> (case existing_key_pair (store w) of
                  Some kp' \<Rightarrow> kp = kp' \<and> map so_id (store w1) = map so_id (store w)
                | None \<Rightarrow>
                    kp = fresh_key_pair n None w
                    \<and> store w1 = store w @ [\<lparr>so_id = next_id w, created_at = now w,
                          attributes = Some (persisted (isEncryptionAvailable w)
                                               (fresh_key_pair n None w))\<rparr>])"
  proof (cases "existing_key_pair (store w)")
    case (Some kp)
    from generateKeyPair_existing [OF assms(1) Some, of n None] Some show ?thesis
      by auto
  next
    case None
    from generateKeyPair_fresh [OF assms(1) None, of n None] None show ?thesis
      by auto
  qed
  then obtain kp w1 where g: "generateKeyPair n None w = (Inr kp, w1)"
    and f: "faults w1 = faults w"
    and c: "case existing_key_pair (store w) of
                  Some kp' \<Rightarrow> kp = kp' \<and> map so_id (store w1) = map so_id (store w)
                | None \<Rightarrow>
                    kp = fresh_key_pair n None w
                    \<and> store w1 = store w @ [\<lparr>so_id = next_id w, created_at = now w,
                          attributes = Some (persisted (isEncryptionAvailable w)
                                               (fresh_key_pair n None w))\<rparr>]"
    by blast
  from g assms(2) have ne: "privateKey kp \<noteq> []" "kp_passphrase kp \<noteq> []"
    by (simp_all add: generateKeyPair_result)
  from f assms(1) have nf1: "faults w1 = (\<lambda>_. None)" by simp
  from sign_from [OF g nf1 ne, of message] g c show ?thesis
    by blast
qed

subsection \<open>Moving a plain passphrase to the encrypted attribute\<close>

lemma checkForExistingKeyPair_moves:
  assumes nf: "faults w = (\<lambda>_. None)"
    and cur: "current (store w) = Some cur" "attributes cur = Some a"
    and keys: "truthy (private_key a)" "truthy (public_key a)"
    and plain: "\<not> truthy (passphrase a)" "truthy (passphrase_plain a)"
    and enc: "isEncryptionAvailable w"
  shows "\<exists>w1. checkForExistingKeyPair w =
           (Inr (Some \<lparr>privateKey = the_string (private_key a),
                        publicKey = the_string (public_key a),
                        kp_passphrase = the_string (passphrase_plain a)\<rparr>), w1)
         \<and> faults w1 = faults w
         \<and> store w1 = map (rewrite (so_id cur)
                             (a\<lparr>passphrase := passphrase_plain a, passphrase_plain := Some []\<rparr>))
                         (store w)
         \<and> trace w1 = trace w @ [(Find, None), (Close, None),
               (Update (so_id cur) (a\<lparr>passphrase := passphrase_plain a, passphrase_plain := Some []\<rparr>),
                None)]"
proof -
  have u: "upgraded a = a\<lparr>passphrase := passphrase_plain a, passphrase_plain := Some []\<rparr>"
    using plain by (simp add: upgraded_def js_or_def)
  have k: "stored_key_pair cur = Some \<lparr>privateKey = the_string (private_key a),
                        publicKey = the_string (public_key a),
                        kp_passphrase = the_string (passphrase_plain a)\<rparr>"
    using cur keys plain by (simp add: stored_key_pair_def)
  show ?thesis
    using nf cur(1) k cur(2) plain(2) enc
    by (simp add: checkForExistingKeyPair_eq await_def resolve_def soClient_update_ok logged_simps u)
qed

lemma current_rewrite_moved:
  assumes cur: "current objs = Some cur" "attributes cur = Some a"
    and keys: "truthy (private_key a)" "truthy (public_key a)"
    and plain: "truthy (passphrase_plain a)"
  shows "current (map (rewrite (so_id cur)
                         (a\<lparr>passphrase := passphrase_plain a, passphrase_plain := Some []\<rparr>)) objs)
         = Some (cur\<lparr>attributes := Some (a\<lparr>passphrase := passphrase_plain a,
                                                passphrase_plain := Some []\<rparr>)\<rparr>)"
proof -
  have "current (map (rewrite (so_id cur)
                         (a\<lparr>passphrase := passphrase_plain a, passphrase_plain := Some []\<rparr>)) objs)
        = map_option (rewrite (so_id cur)
                         (a\<lparr>passphrase := passphrase_plain a, passphrase_plain := Some []\<rparr>))
            (current objs)"
    by (rule current_map) (simp add: rewrite_simps)
  moreover have "merge_attributes (a\<lparr>passphrase := passphrase_plain a, passphrase_plain := Some []\<rparr>)
                   (Some a)
                 = a\<lparr>passphrase := passphrase_plain a, passphrase_plain := Some []\<rparr>"
    using keys plain
    by (cases a) (auto simp add: merge_attributes_def truthy_def split: option.splits)
  ultimately show ?thesis
    using cur by (simp add: rewrite_def)
qed

text \<open>
  Claim C10. When no dependency fails, the current key pair object carries non-empty
  keys and its passphrase only in \<open>passphrase_plain\<close>, and encryption is available,
  then \<^verbatim>\<open>generateKeyPair\<close>, \<^verbatim>\<open>getPublicKey\<close> and \<^verbatim>\<open>sign\<close> return the stored keys
  and passphrase (the signature being made with them) and leave the store with that
  object rewritten: the passphrase now in \<open>passphrase\<close>, \<open>passphrase_plain\<close> the
  empty string, the keys and every identifier as before.
\<close>

theorem plain_passphrase_is_encrypted_on_read:
  assumes "faults w = (\<lambda>_. None)"
    and "current (store w) = Some cur" "attributes cur = Some a"
    and "truthy (private_key a)" "truthy (public_key a)"
    and "\<not> truthy (passphrase a)" "truthy (passphrase_plain a)"
    and "isEncryptionAvailable w"
  shows "\<exists>w1.
           generateKeyPair n p w =
             (Inr \<lparr>privateKey = the_string (private_key a),
                    publicKey = the_string (public_key a),
                    kp_passphrase = the_string (passphrase_plain a)\<rparr>, w1)
           \<and> getPublicKey n w = (Inr (the_string (public_key a)), w1)
           \<and> (case (case message of
                        IsBuffer b \<Rightarrow> Inr b
                      | IsRecord r \<Rightarrow>
                          map_sum (\<lambda>m. m) (\<lambda>s. Buffer_from n s ''utf8'') (JSON_stringify n r)) of
                  Inr bytes \<Rightarrow>
                    fst (sign n message w) =
                      Inr \<lparr>data = bytes,
                            signature = signer_sign n (entropy w) ''SHA256'' bytes
                              \<lparr>key = Buffer_from n (the_string (private_key a)) ''base64'',
                               key_passphrase = the_string (passphrase_plain a),
                               key_format = ''der'', key_type = ''pkcs8''\<rparr> ''base64''\<rparr>
                | Inl m \<Rightarrow> fst (sign n message w) = Inl (TypeError m))
           \<and> store (snd (sign n message w)) = store w1
           \<and> store w1 = map (rewrite (so_id cur)
                               (a\<lparr>passphrase := passphrase_plain a, passphrase_plain := Some []\<rparr>))
                           (store w)
           \<and> current (store w1)
               = Some (cur\<lparr>attributes := Some (a\<lparr>passphrase := passphrase_plain a,
                                                      passphrase_plain := Some []\<rparr>)\<rparr>)
           \<and> map so_id (store w1) = map so_id (store w)"
proof -
  let ?kp = "\<lparr>privateKey = the_string (private_key a),
              publicKey = the_string (public_key a),
              kp_passphrase = the_string (passphrase_plain a)\<rparr>"
  let ?a = "a\<lparr>passphrase := passphrase_plain a, passphrase_plain := Some []\<rparr>"
  from checkForExistingKeyPair_moves [OF assms]
  obtain w1 where c: "checkForExistingKeyPair w = (Inr (Some ?kp), w1)"
    and f: "faults w1 = faults w"
    and st: "store w1 = map (rewrite (so_id cur) ?a) (store w)"
    and tr: "trace w1 = trace w @ [(Find, None), (Close, None), (Update (so_id cur) ?a, None)]"
    by blast
  have g: "generateKeyPair n q w = (Inr ?kp, w1)" for q
    using c by (simp add: generateKeyPair_split await_def resolve_def)
  have ne: "privateKey ?kp \<noteq> []" "publicKey ?kp \<noteq> []" "kp_passphrase ?kp \<noteq> []"
    using assms(4,5,7) by (simp_all add: truthy_the_string)
  from g [of None] ne(2) have pk: "getPublicKey n w = (Inr (publicKey ?kp), w1)"
    by (rule getPublicKey_from)
  from f assms(1) have nf1: "faults w1 = (\<lambda>_. None)" by simp
  have en: "entropy w1 = entropy w"
    using generateKeyPair_existing [OF assms(1), of ?kp n None] c g [of None]
      checkForExistingKeyPair_result [OF c]
    by auto
  have sg: "case (case message of
                        IsBuffer b \<Rightarrow> Inr b
                      | IsRecord r \<Rightarrow>
                          map_sum (\<lambda>m. m) (\<lambda>s. Buffer_from n s ''utf8'') (JSON_stringify n r)) of
                  Inr bytes \<Rightarrow>
                    fst (sign n message w) =
                      Inr \<lparr>data = bytes,
                            signature = signer_sign n (entropy w) ''SHA256'' bytes
                              \<lparr>key = Buffer_from n (the_string (private_key a)) ''base64'',
                               key_passphrase = the_string (passphrase_plain a),
                               key_format = ''der'', key_type = ''pkcs8''\<rparr> ''base64''\<rparr>
                | Inl m \<Rightarrow> fst (sign n message w) = Inl (TypeError m)"
    and s2: "store (snd (sign n message w)) = store w1"
    using sign_from [OF g [of None] nf1 ne(1) ne(3), of message] en
    by (auto simp add: logged_simps split: sum.splits)
  have cu: "current (store w1) = Some (cur\<lparr>attributes := Some ?a\<rparr>)"
    unfolding st using assms(2,3,4,5,7) by (rule current_rewrite_moved)
  have ids: "map so_id (store w1) = map so_id (store w)"
    unfolding st by (simp add: rewrite_simps comp_def)
  from g [of p] pk sg s2 st cu ids en show ?thesis
    by simp
qed

subsection \<open>Rotation\<close>

lemma soClient_delete_ok:
  "faults w = (\<lambda>_. None) \<Longrightarrow>
   soClient_delete i w =
     (Inr (), (logged (Delete i) None w)\<lparr>store := filter (\<lambda>obj. so_id obj \<noteq> i) (store w)\<rparr>)"
  by (simp add: soClient_delete_def await_def external_ok logged_simps)

lemma removeKeyPair_ok:
  assumes "faults w = (\<lambda>_. None)"
  shows "\<exists>w1. removeKeyPair w = (Inr (current (store w) \<noteq> None), w1)
           \<and> faults w1 = faults w
           \<and> encryptedSavedObjectsSetup w1 = encryptedSavedObjectsSetup w
           \<and> now w1 = now w \<and> next_id w1 = next_id w \<and> entropy w1 = entropy w
           \<and> store w1 = (case current (store w) of
                             None \<Rightarrow> store w
                           | Some cur \<Rightarrow> filter (\<lambda>obj. so_id obj \<noteq> so_id cur) (store w))
           \<and> trace w1 = trace w @ [(Find, None), (Close, None)]
                 @ (case current (store w) of None \<Rightarrow> [] | Some cur \<Rightarrow> [(Delete (so_id cur), None)])"
  using assms
  by (cases "current (store w)")
    (simp_all add: removeKeyPair_def await_def getCurrentKeyPairObj_eq resolve_def
      soClient_delete_ok logged_simps)

text \<open>
  Claim C3, amended. When no dependency fails, \<^verbatim>\<open>rotateKeyPair\<close> returns false on a
  store without a key pair object, leaving the store as it is and creating nothing, and
  returns true otherwise, having first deleted the current object; a fresh key pair is
  then generated and persisted provided the objects that remain carry no current key
  pair.
\<close>

theorem rotateKeyPair_amended:
  assumes "faults w = (\<lambda>_. None)"
  shows "(current (store w) = None \<longrightarrow>
            fst (rotateKeyPair n w) = Inr False
            \<and> store (snd (rotateKeyPair n w)) = store w
            \<and> drop (length (trace w)) (trace (snd (rotateKeyPair n w))) = [(Find, None), (Close, None)])
       \<and> (\<forall>cur. current (store w) = Some cur \<longrightarrow>
            fst (rotateKeyPair n w) = Inr True
            \<and> take 3 (drop (length (trace w)) (trace (snd (rotateKeyPair n w))))
                = [(Find, None), (Close, None), (Delete (so_id cur), None)]
            \<and> (existing_key_pair (filter (\<lambda>obj. so_id obj \<noteq> so_id cur) (store w)) = None \<longrightarrow>
                  store (snd (rotateKeyPair n w))
                    = filter (\<lambda>obj. so_id obj \<noteq> so_id cur) (store w)
                      @ [\<lparr>so_id = next_id w, created_at = now w,
                          attributes = Some (persisted (isEncryptionAvailable w)
                                               (fresh_key_pair n None w))\<rparr>]
                  \<and> created (drop (length (trace w)) (trace (snd (rotateKeyPair n w))))
                    = [persisted (isEncryptionAvailable w) (fresh_key_pair n None w)]))"
proof -
  from removeKeyPair_ok [OF assms]
  obtain w1 where r: "removeKeyPair w = (Inr (current (store w) \<noteq> None), w1)"
    and f: "faults w1 = faults w"
    and e: "encryptedSavedObjectsSetup w1 = encryptedSavedObjectsSetup w"
    and fr: "now w1 = now w" "next_id w1 = next_id w" "entropy w1 = entropy w"
    and st: "store w1 = (case current (store w) of
                             None \<Rightarrow> store w
                           | Some cur \<Rightarrow> filter (\<lambda>obj. so_id obj \<noteq> so_id cur) (store w))"
    and tr: "trace w1 = trace w @ [(Find, None), (Close, None)]
                 @ (case current (store w) of None \<Rightarrow> [] | Some cur \<Rightarrow> [(Delete (so_id cur), None)])"
    by blast
  from f assms have nf1: "faults w1 = (\<lambda>_. None)" by simp
  show ?thesis
  proof (intro conjI allI impI)
    assume "current (store w) = None"
    with r st tr show "fst (rotateKeyPair n w) = Inr False"
      and "store (snd (rotateKeyPair n w)) = store w"
      and "drop (length (trace w)) (trace (snd (rotateKeyPair n w))) = [(Find, None), (Close, None)]"
      by (simp_all add: rotateKeyPair_def await_def resolve_def)
  next
    fix cur
    assume c: "current (store w) = Some cur"
    have total: "\<exists>kp w2 l. generateKeyPair n None w1 = (Inr kp, w2) \<and> trace w2 = trace w1 @ l"
    proof (cases "existing_key_pair (store w1)")
      case None
      from generateKeyPair_fresh [OF nf1 None, of n None] show ?thesis by blast
    next
      case (Some kp)
      from generateKeyPair_existing [OF nf1 Some, of n None] show ?thesis by blast
    qed
    then obtain kp w2 l where g: "generateKeyPair n None w1 = (Inr kp, w2)"
      and t2: "trace w2 = trace w1 @ l"
      by blast
    from r c g have rot: "rotateKeyPair n w = (Inr True, w2)"
      by (simp add: rotateKeyPair_def await_def resolve_def)
    then show "fst (rotateKeyPair n w) = Inr True" by simp
    from rot t2 tr c
    show "take 3 (drop (length (trace w)) (trace (snd (rotateKeyPair n w))))
                = [(Find, None), (Close, None), (Delete (so_id cur), None)]"
      by simp
  next
    fix cur
    assume c: "current (store w) = Some cur"
      and none: "existing_key_pair (filter (\<lambda>obj. so_id obj \<noteq> so_id cur) (store w)) = None"
    from c st none have n1: "existing_key_pair (store w1) = None" by simp
    from generateKeyPair_fresh [OF nf1 n1, of n None]
    obtain w2 l where g: "generateKeyPair n None w1 = (Inr (fresh_key_pair n None w1), w2)"
      and s2: "store w2 = store w1 @ [\<lparr>so_id = next_id w1, created_at = now w1,
                  attributes = Some (persisted (isEncryptionAvailable w1) (fresh_key_pair n None w1))\<rparr>]"
      and t2: "trace w2 = trace w1 @ l"
        "created l = [persisted (isEncryptionAvailable w1) (fresh_key_pair n None w1)]"
      by blast
    have k: "fresh_key_pair n None w1 = fresh_key_pair n None w"
      using fr(3) by (rule fresh_key_pair_cong)
    have i: "isEncryptionAvailable w1 = isEncryptionAvailable w"
      using e by (rule isEncryptionAvailable_cong)
    from r c g have rot: "rotateKeyPair n w = (Inr True, w2)"
      by (simp add: rotateKeyPair_def await_def resolve_def)
    from rot s2 st c fr k i
    show "store (snd (rotateKeyPair n w))
                    = filter (\<lambda>obj. so_id obj \<noteq> so_id cur) (store w)
                      @ [\<lparr>so_id = next_id w, created_at = now w,
                          attributes = Some (persisted (isEncryptionAvailable w)
                                               (fresh_key_pair n None w))\<rparr>]"
      by simp
    from rot t2 tr c k i
    show "created (drop (length (trace w)) (trace (snd (rotateKeyPair n w))))
                    = [persisted (isEncryptionAvailable w) (fresh_key_pair n None w)]"
      by (simp add: created_append)
  qed
qed

text \<open>
  On a store with two key pairs \<^verbatim>\<open>rotateKeyPair\<close> returns true after deleting the
  newer one, and the older one becomes current: nothing is created.
\<close>

lemma current_two_pairs: "current (store two_pairs_world) = Some newer_object"
  by (simp add: two_pairs_world_def empty_world_def current_def plain_object_def newer_object_def)

lemma existing_after_delete:
  "existing_key_pair (filter (\<lambda>obj. so_id obj \<noteq> so_id newer_object) (store two_pairs_world))
   = Some \<lparr>privateKey = ''cHJpdg=='', publicKey = ''cHVi'', kp_passphrase = ''secret''\<rparr>"
  by (simp add: two_pairs_world_def empty_world_def existing_key_pair_def current_def
      plain_object_def newer_object_def stored_key_pair_def truthy_def the_string_def)

theorem rotateKeyPair_counterexample:
  "fst (rotateKeyPair stub_node two_pairs_world) = Inr True
   \<and> created (trace (snd (rotateKeyPair stub_node two_pairs_world))) = []
   \<and> map so_id (store (snd (rotateKeyPair stub_node two_pairs_world))) = [0]"
proof -
  have nf: "faults two_pairs_world = (\<lambda>_. None)"
    by (simp add: two_pairs_world_def empty_world_def)
  from removeKeyPair_ok [OF nf]
  obtain w1 where r: "removeKeyPair two_pairs_world = (Inr True, w1)"
    and f: "faults w1 = faults two_pairs_world"
    and st: "store w1 = filter (\<lambda>obj. so_id obj \<noteq> so_id newer_object) (store two_pairs_world)"
    and tr: "trace w1 = trace two_pairs_world @ [(Find, None), (Close, None),
                (Delete (so_id newer_object), None)]"
    by (auto simp add: current_two_pairs)
  from f nf have nf1: "faults w1 = (\<lambda>_. None)" by simp
  have ex: "existing_key_pair (store w1)
            = Some \<lparr>privateKey = ''cHJpdg=='', publicKey = ''cHVi'', kp_passphrase = ''secret''\<rparr>"
    unfolding st by (rule existing_after_delete)
  from generateKeyPair_existing [OF nf1 ex, of stub_node None]
  obtain w2 l where g: "generateKeyPair stub_node None w1
        = (Inr \<lparr>privateKey = ''cHJpdg=='', publicKey = ''cHVi'', kp_passphrase = ''secret''\<rparr>, w2)"
    and ids: "map so_id (store w2) = map so_id (store w1)"
    and t2: "trace w2 = trace w1 @ l" "created l = []"
    by blast
  from r g have rot: "rotateKeyPair stub_node two_pairs_world = (Inr True, w2)"
    by (simp add: rotateKeyPair_def await_def resolve_def)
  have "trace two_pairs_world = []"
    by (simp add: two_pairs_world_def empty_world_def)
  with rot t2 tr have "created (trace (snd (rotateKeyPair stub_node two_pairs_world))) = []"
    by (simp add: created_append)
  moreover from rot ids st
  have "map so_id (store (snd (rotateKeyPair stub_node two_pairs_world))) = [0]"
    by (simp add: two_pairs_world_def empty_world_def plain_object_def newer_object_def)
  ultimately show ?thesis using rot by simp
qed

lemma world_facts:
  "faults empty_world = (\<lambda>_. None)" "faults plain_world = (\<lambda>_. None)"
  "store empty_world = []" "store plain_world = [plain_object]"
  "isEncryptionAvailable empty_world" "isEncryptionAvailable plain_world"
  "next_id plain_world = 1" "now plain_world = 1" "entropy plain_world = 0"
  "entropy empty_world = 0" "trace plain_world = []" "trace empty_world = []"
  by (simp_all add: empty_world_def plain_world_def isEncryptionAvailable_def)

lemma current_plain_world: "current (store plain_world) = Some plain_object"
  by (simp add: world_facts current_single)

lemma current_empty_world: "current (store empty_world) = None"
  by (simp add: world_facts current_Nil)

theorem rotateKeyPair_amended_witness:
  "faults empty_world = (\<lambda>_. None) \<and> current (store empty_world) = None
   \<and> fst (rotateKeyPair stub_node empty_world) = Inr False
   \<and> store (snd (rotateKeyPair stub_node empty_world)) = []
   \<and> faults plain_world = (\<lambda>_. None) \<and> current (store plain_world) = Some plain_object
   \<and> existing_key_pair (filter (\<lambda>obj. so_id obj \<noteq> so_id plain_object) (store plain_world)) = None
   \<and> fst (rotateKeyPair stub_node plain_world) = Inr True
   \<and> store (snd (rotateKeyPair stub_node plain_world))
       = [\<lparr>so_id = 1, created_at = 1,
           attributes = Some \<lparr>private_key = Some ''AA'', public_key = Some ''A'',
                              passphrase = Some (replicate 32 CHR ''A''),
                              passphrase_plain = None\<rparr>\<rparr>]"
proof -
  have a: "existing_key_pair (filter (\<lambda>obj. so_id obj \<noteq> so_id plain_object) (store plain_world)) = None"
    by (simp add: world_facts existing_key_pair_def current_Nil)
  have b: "fresh_key_pair stub_node None plain_world
           = \<lparr>privateKey = ''AA'', publicKey = ''A'', kp_passphrase = replicate 32 CHR ''A''\<rparr>"
    by (simp add: fresh_key_pair_def fresh_passphrase_def stub_node_def truthy_def world_facts
        map_replicate_const)
  from rotateKeyPair_amended [OF world_facts(1), of stub_node]
  have c: "fst (rotateKeyPair stub_node empty_world) = Inr False
           \<and> store (snd (rotateKeyPair stub_node empty_world)) = store empty_world"
    by (simp add: current_empty_world)
  from rotateKeyPair_amended [OF world_facts(2), of stub_node] a
  have d: "fst (rotateKeyPair stub_node plain_world) = Inr True
           \<and> store (snd (rotateKeyPair stub_node plain_world))
             = filter (\<lambda>obj. so_id obj \<noteq> so_id plain_object) (store plain_world)
                 @ [\<lparr>so_id = next_id plain_world, created_at = now plain_world,
                     attributes = Some (persisted (isEncryptionAvailable plain_world)
                                          (fresh_key_pair stub_node None plain_world))\<rparr>]"
    by (simp add: current_plain_world)
  from c d a show ?thesis
    by (simp add: world_facts current_single current_Nil b persisted_def)
qed

theorem getPublicKey_stable_witness:
  "faults plain_world = (\<lambda>_. None) \<and> nonempty_encodings stub_node
   \<and> list_all (\<lambda>obj. created_at obj < now plain_world) (store plain_world)
   \<and> (\<exists>w1 w2. getPublicKey stub_node plain_world = (Inr ''cHVi'', w1)
                \<and> getPublicKey stub_node w1 = (Inr ''cHVi'', w2))
   \<and> faults empty_world = (\<lambda>_. None)
   \<and> list_all (\<lambda>obj. created_at obj < now empty_world) (store empty_world)
   \<and> (\<exists>w1 w2. getPublicKey stub_node empty_world = (Inr ''A'', w1)
                \<and> getPublicKey stub_node w1 = (Inr ''A'', w2))"
proof -
  have c: "\<forall>obj\<in>set (store plain_world). created_at obj < now plain_world"
    by (simp add: world_facts plain_object_def)
  have d: "\<forall>obj\<in>set (store empty_world). created_at obj < now empty_world"
    by (simp add: world_facts)
  have b: "publicKey (fresh_key_pair stub_node None empty_world) = ''A''"
    by (simp add: fresh_key_pair_def stub_node_def Let_def)
  from getPublicKey_stable [OF world_facts(2) nonempty_encodings_stub c]
  have e: "\<exists>w1 w2. getPublicKey stub_node plain_world = (Inr ''cHVi'', w1)
                \<and> getPublicKey stub_node w1 = (Inr ''cHVi'', w2)"
    by (auto simp add: existing_plain_world)
  from getPublicKey_stable [OF world_facts(1) nonempty_encodings_stub d]
  have f: "\<exists>w1 w2. getPublicKey stub_node empty_world = (Inr ''A'', w1)
                \<and> getPublicKey stub_node w1 = (Inr ''A'', w2)"
    by (auto simp add: existing_empty_world b)
  from c d e f show ?thesis
    by (simp add: world_facts nonempty_encodings_stub list_all_iff)
qed

theorem sign_signs_with_current_key_pair_witness:
  "faults plain_world = (\<lambda>_. None) \<and> nonempty_encodings stub_node
   \<and> fst (sign stub_node (IsBuffer [1, 2, 3]) plain_world)
       = Inr \<lparr>data = [1, 2, 3], signature = ''SHA256:secret:der:pkcs8:base64''\<rparr>
   \<and> map so_id (store (snd (sign stub_node (IsBuffer [1, 2, 3]) plain_world))) = [0]
   \<and> fst (sign stub_node (IsRecord EmptyRecord) empty_world)
       = Inr \<lparr>data = [0, 0],
              signature = ''SHA256:AAAAAAAAAAAAAAAAAAAAAAAAAAAAAAAA:der:pkcs8:base64''\<rparr>
   \<and> store (snd (sign stub_node (IsRecord EmptyRecord) empty_world))
       = [\<lparr>so_id = 0, created_at = 0,
           attributes = Some \<lparr>private_key = Some ''AA'', public_key = Some ''A'',
                              passphrase = Some ''AAAAAAAAAAAAAAAAAAAAAAAAAAAAAAAA'',
                              passphrase_plain = None\<rparr>\<rparr>]"
proof -
  have k: "fresh_key_pair stub_node None empty_world
           = \<lparr>privateKey = ''AA'', publicKey = ''A'',
              kp_passphrase = ''AAAAAAAAAAAAAAAAAAAAAAAAAAAAAAAA''\<rparr>"
    by (simp add: fresh_key_pair_def fresh_passphrase_def stub_node_def truthy_def world_facts
        numeral_eq_Suc)
  have j: "JSON_stringify stub_node EmptyRecord = Inr ''{}''" "Buffer_from stub_node ''{}'' ''utf8'' = [0, 0]"
    "\<And>seed bytes pass. signer_sign stub_node seed ''SHA256'' bytes
       \<lparr>key = Buffer_from stub_node ''AA'' ''base64'', key_passphrase = pass,
        key_format = ''der'', key_type = ''pkcs8''\<rparr> ''base64''
       = ''SHA256:'' @ pass @ '':der:pkcs8:base64''"
    "\<And>seed bytes pass. signer_sign stub_node seed ''SHA256'' bytes
       \<lparr>key = Buffer_from stub_node ''cHJpdg=='' ''base64'', key_passphrase = pass,
        key_format = ''der'', key_type = ''pkcs8''\<rparr> ''base64''
       = ''SHA256:'' @ pass @ '':der:pkcs8:base64''"
    by (simp_all add: stub_node_def)
  from sign_signs_with_current_key_pair [OF world_facts(2) nonempty_encodings_stub,
      of "IsBuffer [1, 2, 3]"]
  have a: "fst (sign stub_node (IsBuffer [1, 2, 3]) plain_world)
       = Inr \<lparr>data = [1, 2, 3], signature = ''SHA256:secret:der:pkcs8:base64''\<rparr>
     \<and> map so_id (store (snd (sign stub_node (IsBuffer [1, 2, 3]) plain_world)))
       = map so_id (store plain_world)"
    by (auto simp add: existing_plain_world j logged_simps)
  from sign_signs_with_current_key_pair [OF world_facts(1) nonempty_encodings_stub,
      of "IsRecord EmptyRecord"]
  have b: "fst (sign stub_node (IsRecord EmptyRecord) empty_world)
       = Inr \<lparr>data = [0, 0],
              signature = ''SHA256:AAAAAAAAAAAAAAAAAAAAAAAAAAAAAAAA:der:pkcs8:base64''\<rparr>
     \<and> store (snd (sign stub_node (IsRecord EmptyRecord) empty_world))
       = store empty_world @ [\<lparr>so_id = next_id empty_world, created_at = now empty_world,
           attributes = Some (persisted (isEncryptionAvailable empty_world)
             \<lparr>privateKey = ''AA'', publicKey = ''A'',
              kp_passphrase = ''AAAAAAAAAAAAAAAAAAAAAAAAAAAAAAAA''\<rparr>)\<rparr>]"
    by (auto simp add: existing_empty_world j k logged_simps)
  from a b show ?thesis
    by (simp add: world_facts nonempty_encodings_stub persisted_def plain_object_def)
      (simp add: empty_world_def)
qed

theorem plain_passphrase_is_encrypted_on_read_witness:
  "faults plain_world = (\<lambda>_. None) \<and> current (store plain_world) = Some plain_object
   \<and> isEncryptionAvailable plain_world
   \<and> fst (generateKeyPair stub_node None plain_world)
       = Inr \<lparr>privateKey = ''cHJpdg=='', publicKey = ''cHVi'', kp_passphrase = ''secret''\<rparr>
   \<and> fst (getPublicKey stub_node plain_world) = Inr ''cHVi''
   \<and> store (snd (generateKeyPair stub_node None plain_world))
       = [\<lparr>so_id = 0, created_at = 0,
           attributes = Some \<lparr>private_key = Some ''cHJpdg=='', public_key = Some ''cHVi'',
                              passphrase = Some ''secret'', passphrase_plain = Some []\<rparr>\<rparr>]"
proof -
  have a: "attributes plain_object
           = Some \<lparr>private_key = Some ''cHJpdg=='', public_key = Some ''cHVi'',
                    passphrase = None, passphrase_plain = Some ''secret''\<rparr>"
    by (simp add: plain_object_def)
  have t: "truthy (Some ''cHJpdg=='')" "truthy (Some ''cHVi'')" "\<not> truthy None"
    "truthy (Some ''secret'')"
    by (simp_all add: truthy_def)
  from plain_passphrase_is_encrypted_on_read [OF world_facts(2) current_plain_world a _ _ _ _
      world_facts(6), of stub_node None "IsBuffer []"] t
  have "fst (generateKeyPair stub_node None plain_world)
       = Inr \<lparr>privateKey = ''cHJpdg=='', publicKey = ''cHVi'', kp_passphrase = ''secret''\<rparr>
   \<and> fst (getPublicKey stub_node plain_world) = Inr ''cHVi''
   \<and> store (snd (generateKeyPair stub_node None plain_world))
       = [\<lparr>so_id = 0, created_at = 0,
           attributes = Some \<lparr>private_key = Some ''cHJpdg=='', public_key = Some ''cHVi'',
                              passphrase = Some ''secret'', passphrase_plain = Some []\<rparr>\<rparr>]"
    by (auto simp add: the_string_def world_facts rewrite_def merge_attributes_def plain_object_def)
  then show ?thesis
    by (simp add: world_facts current_single)
qed

section \<open>Properties of the trained-models routes\<close>

subsection \<open>Sets, objects and strings\<close>

lemma uniq_cong: "set seen = set seen' \<Longrightarrow> uniq seen xs = uniq seen' xs"
proof (induction xs arbitrary: seen seen')
  case Nil
  show ?case by simp
next
  case (Cons x xs)
  from Cons.prems have "set (x # seen) = set (x # seen')" by simp
  then have "uniq (x # seen) xs = uniq (x # seen') xs" by (rule Cons.IH)
  moreover from Cons.prems have "uniq seen xs = uniq seen' xs" by (rule Cons.IH)
  ultimately show ?case using Cons.prems by simp
qed

lemma set_uniq: "set (uniq seen xs) = set xs - set seen"
  by (induction xs arbitrary: seen) auto

lemma distinct_uniq: "distinct (uniq seen xs)"
  by (induction xs arbitrary: seen) (auto simp add: set_uniq)

lemma insort_key_map_gen:
  "insort_key g (f x) (map f xs) = map f (insort_key (\<lambda>y. g (f y)) x xs)"
  by (induction xs) simp_all

lemma sort_key_map_gen: "sort_key g (map f xs) = map f (sort_key (\<lambda>y. g (f y)) xs)"
  by (induction xs) (simp_all add: sort_key_def insort_key_map_gen)

lemma js_values_keyed: "js_values (map (\<lambda>k. (k, F k)) ks) = map F (js_key_order ks)"
  by (simp add: js_values_def js_key_order_def filter_map comp_def sort_key_map_gen)

lemma map_of_keyed: "map_of (map (\<lambda>k. (k, F k)) ks) k = (if k \<in> set ks then Some (F k) else None)"
  by (induction ks) auto

lemma js_get_keyed:
  "js_get (map (\<lambda>k. (k, F k)) ks) k =
     (if k \<in> set ks then Own (F k) else if inherited_name k then Inherited else Undefined)"
  by (simp add: js_get_def map_of_keyed inherited_name_def)

lemma split_commas_not_Nil: "split_commas acc s \<noteq> []"
  by (induction s arbitrary: acc) simp_all

lemma join_commas_Cons: "ys \<noteq> [] \<Longrightarrow> join_commas (x # ys) = x @ CHR '','' # join_commas ys"
  by (cases ys) simp_all

lemma join_split_commas: "join_commas (split_commas acc s) = rev acc @ s"
  by (induction s arbitrary: acc) (simp_all add: join_commas_Cons split_commas_not_Nil)

lemma split_commas_no_comma:
  "CHR '','' \<notin> set acc \<Longrightarrow> list_all (\<lambda>x. CHR '','' \<notin> set x) (split_commas acc s)"
  by (induction s arbitrary: acc) simp_all

subsection \<open>The deployments of the models\<close>

lemma deployment_pairs_Cons:
  "deployment_pairs (s # stats) =
     (case deployment_id s of None \<Rightarrow> [] | Some d \<Rightarrow> [(stat_model_id s, d)]) @ deployment_pairs stats"
  by (simp add: deployment_pairs_def)

lemma deployments_of_Cons:
  "deployments_of (s # stats) k =
     (case deployment_id s of
        None \<Rightarrow> deployments_of stats k
      | Some d \<Rightarrow> if stat_model_id s = k then d # deployments_of stats k
                  else deployments_of stats k)"
  by (simp add: deployments_of_def deployment_pairs_Cons split: option.splits)

lemma deployments_of_Nil: "deployments_of [] k = []"
  by (simp add: deployments_of_def deployment_pairs_def)

lemma js_get_cases:
  "js_get acc k =
     (if k \<in> fst ` set acc then Own (the (map_of acc k))
      else if inherited_name k then Inherited else Undefined)"
proof (cases "map_of acc k")
  case None
  then have "k \<notin> fst ` set acc" by (simp add: map_of_eq_None_iff)
  with None show ?thesis by (simp add: js_get_def inherited_name_def)
next
  case (Some v)
  then have "k \<in> fst ` set acc" using map_of_eq_None_iff [of acc k] by simp
  with Some show ?thesis by (simp add: js_get_def)
qed

lemma js_get_Own: "k \<in> fst ` set acc \<Longrightarrow> \<exists>v. js_get acc k = Own v"
  by (simp add: js_get_cases)

lemma js_get_Inherited: "k \<notin> fst ` set acc \<Longrightarrow> inherited_name k \<Longrightarrow> js_get acc k = Inherited"
  by (simp add: js_get_cases)

lemma js_get_Undefined: "k \<notin> fst ` set acc \<Longrightarrow> \<not> inherited_name k \<Longrightarrow> js_get acc k = Undefined"
  by (simp add: js_get_cases)

lemma push_keys:
  "map fst (map (\<lambda>entry. if fst entry = k then (fst entry, snd entry @ [d]) else entry) acc)
   = map fst acc"
  by (induction acc) auto

lemma push_key_set:
  "fst ` set (map (\<lambda>entry. if fst entry = k then (fst entry, snd entry @ [d]) else entry) acc)
   = fst ` set acc"
  by (simp only: set_map [symmetric] push_keys)

lemma reduce_deployments_closed:
  assumes "\<not> list_ex (\<lambda>p. inherited_name (fst p)) (deployment_pairs stats)"
  shows "reduce_deployments acc stats =
           Inr (map (\<lambda>entry. (fst entry, snd entry @ deployments_of stats (fst entry))) acc
                @ map (\<lambda>k. (k, deployments_of stats k))
                    (uniq (map fst acc) (map fst (deployment_pairs stats))))"
  using assms
proof (induction stats arbitrary: acc)
  case Nil
  show ?case by (simp add: deployments_of_Nil deployment_pairs_def)
next
  case (Cons s stats)
  show ?case
  proof (cases "deployment_id s")
    case None
    with Cons.prems have "\<not> list_ex (\<lambda>p. inherited_name (fst p)) (deployment_pairs stats)"
      by (simp add: deployment_pairs_Cons)
    from Cons.IH [OF this, of acc] None show ?thesis
      by (simp add: deployments_of_Cons deployment_pairs_Cons)
  next
    case (Some d)
    let ?k = "stat_model_id s"
    from Cons.prems Some have ni: "\<not> inherited_name ?k"
      and rest: "\<not> list_ex (\<lambda>p. inherited_name (fst p)) (deployment_pairs stats)"
      by (simp_all add: deployment_pairs_Cons)
    show ?thesis
    proof (cases "?k \<in> fst ` set acc")
      case True
      then obtain v where own: "js_get acc ?k = Own v"
        using js_get_Own [of ?k acc] by blast
      let ?acc = "map (\<lambda>entry. if fst entry = ?k then (fst entry, snd entry @ [d]) else entry) acc"
      have keys: "map fst ?acc = map fst acc"
        by (rule push_keys)
      have a: "map (\<lambda>entry. (fst entry, snd entry @ deployments_of stats (fst entry))) ?acc
               = map (\<lambda>entry. (fst entry, snd entry @ deployments_of (s # stats) (fst entry))) acc"
        using Some by (induction acc) (auto simp add: deployments_of_Cons)
      from True have u: "uniq (map fst acc) (map fst (deployment_pairs (s # stats)))
                         = uniq (map fst acc) (map fst (deployment_pairs stats))"
        using Some by (simp add: deployment_pairs_Cons)
      have b: "map (\<lambda>k. (k, deployments_of stats k))
                 (uniq (map fst acc) (map fst (deployment_pairs (s # stats))))
               = map (\<lambda>k. (k, deployments_of (s # stats) k))
                 (uniq (map fst acc) (map fst (deployment_pairs (s # stats))))"
      proof (rule map_cong [OF refl])
        fix k
        assume "k \<in> set (uniq (map fst acc) (map fst (deployment_pairs (s # stats))))"
        then have "k \<notin> fst ` set acc" by (simp add: set_uniq)
        with True have "?k \<noteq> k" by auto
        with Some show "(k, deployments_of stats k) = (k, deployments_of (s # stats) k)"
          by (simp add: deployments_of_Cons)
      qed
      have "reduce_deployments acc (s # stats) = reduce_deployments ?acc stats"
        using own Some by simp
      also note Cons.IH [OF rest, of ?acc]
      finally show ?thesis unfolding keys a u [symmetric] b .
    next
      case False
      with ni have und: "js_get acc ?k = Undefined"
        by (simp add: js_get_Undefined)
      let ?acc = "acc @ [(?k, [d])]"
      have a: "map (\<lambda>entry. (fst entry, snd entry @ deployments_of stats (fst entry))) acc
               = map (\<lambda>entry. (fst entry, snd entry @ deployments_of (s # stats) (fst entry))) acc"
      proof (rule map_cong [OF refl])
        fix entry
        assume "entry \<in> set acc"
        with False have "?k \<noteq> fst entry" by auto
        with Some show "(fst entry, snd entry @ deployments_of stats (fst entry))
                        = (fst entry, snd entry @ deployments_of (s # stats) (fst entry))"
          by (simp add: deployments_of_Cons)
      qed
      have "set (map fst ?acc) = set (?k # map fst acc)" by auto
      then have u1: "uniq (map fst ?acc) (map fst (deployment_pairs stats))
                     = uniq (?k # map fst acc) (map fst (deployment_pairs stats))"
        by (rule uniq_cong)
      from False have u2: "uniq (map fst acc) (map fst (deployment_pairs (s # stats)))
                  = ?k # uniq (?k # map fst acc) (map fst (deployment_pairs stats))"
        using Some by (simp add: deployment_pairs_Cons)
      have b: "map (\<lambda>k. (k, deployments_of stats k))
                 (uniq (?k # map fst acc) (map fst (deployment_pairs stats)))
               = map (\<lambda>k. (k, deployments_of (s # stats) k))
                 (uniq (?k # map fst acc) (map fst (deployment_pairs stats)))"
      proof (rule map_cong [OF refl])
        fix k
        assume "k \<in> set (uniq (?k # map fst acc) (map fst (deployment_pairs stats)))"
        then have "?k \<noteq> k" by (auto simp add: set_uniq)
        with Some show "(k, deployments_of stats k) = (k, deployments_of (s # stats) k)"
          by (simp add: deployments_of_Cons)
      qed
      have c: "d # deployments_of stats ?k = deployments_of (s # stats) ?k"
        using Some by (simp add: deployments_of_Cons)
      have "reduce_deployments acc (s # stats) = reduce_deployments ?acc stats"
        using und Some by simp
      also note Cons.IH [OF rest, of ?acc]
      finally have r: "reduce_deployments acc (s # stats) =
          Inr (map (\<lambda>entry. (fst entry, snd entry @ deployments_of stats (fst entry))) ?acc
               @ map (\<lambda>k. (k, deployments_of stats k))
                   (uniq (map fst ?acc) (map fst (deployment_pairs stats))))" .
      show ?thesis unfolding r u1 u2 b by (simp add: a c)
    qed
  qed
qed

lemma reduce_deployments_clash:
  assumes "list_ex (\<lambda>p. inherited_name (fst p)) (deployment_pairs stats)"
    and "\<forall>k\<in>fst ` set acc. \<not> inherited_name k"
  shows "reduce_deployments acc stats
         = Inl (TypeError ''acc[curr.model_id].push is not a function'')"
  using assms
proof (induction stats arbitrary: acc)
  case Nil
  then show ?case by (simp add: deployment_pairs_def)
next
  case (Cons s stats)
  show ?case
  proof (cases "deployment_id s")
    case None
    with Cons.prems(1) have "list_ex (\<lambda>p. inherited_name (fst p)) (deployment_pairs stats)"
      by (simp add: deployment_pairs_Cons)
    from Cons.IH [OF this Cons.prems(2)] None show ?thesis by simp
  next
    case (Some d)
    let ?k = "stat_model_id s"
    show ?thesis
    proof (cases "inherited_name ?k")
      case True
      with Cons.prems(2) have "?k \<notin> fst ` set acc" by auto
      with True have "js_get acc ?k = Inherited" by (simp add: js_get_Inherited)
      with Some show ?thesis by simp
    next
      case False
      with Cons.prems(1) Some
      have rest: "list_ex (\<lambda>p. inherited_name (fst p)) (deployment_pairs stats)"
        by (simp add: deployment_pairs_Cons)
      show ?thesis
      proof (cases "?k \<in> fst ` set acc")
        case True
        then obtain v where own: "js_get acc ?k = Own v"
          using js_get_Own [of ?k acc] by blast
        let ?acc = "map (\<lambda>entry. if fst entry = ?k then (fst entry, snd entry @ [d]) else entry) acc"
        have "fst ` set ?acc = fst ` set acc" by (rule push_key_set)
        with Cons.prems(2) have "\<forall>k\<in>fst ` set ?acc. \<not> inherited_name k" by simp
        from Cons.IH [OF rest this] own Some show ?thesis by simp
      next
        case nin: False
        with False have und: "js_get acc ?k = Undefined" by (simp add: js_get_Undefined)
        from Cons.prems(2) False
        have "\<forall>k\<in>fst ` set (acc @ [(?k, [d])]). \<not> inherited_name k" by auto
        from Cons.IH [OF rest this] und Some show ?thesis by simp
      qed
    qed
  qed
qed

lemma modelDeploymentsMap_closed:
  assumes "\<not> list_ex (\<lambda>p. inherited_name (fst p)) (deployment_pairs stats)"
  shows "reduce_deployments [] stats =
           Inr (map (\<lambda>k. (k, deployments_of stats k)) (uniq [] (map fst (deployment_pairs stats))))"
  using reduce_deployments_closed [OF assms, of "[]"] by simp

lemma modelDeploymentsMap_clash:
  assumes "list_ex (\<lambda>p. inherited_name (fst p)) (deployment_pairs stats)"
  shows "reduce_deployments [] stats = Inl (TypeError ''acc[curr.model_id].push is not a function'')"
  using reduce_deployments_clash [OF assms, of "[]"] by simp

lemma modelIdsAndAliases_requested_names:
  "modelIdsAndAliases result
     (map (\<lambda>k. (k, deployments_of stats k)) (uniq [] (map fst (deployment_pairs stats))))
   = requested_names result stats"
  by (simp only: modelIdsAndAliases_def requested_names_def js_values_keyed)

subsection \<open>The pipelines of a model\<close>

lemma foldl_spread:
  "foldl (\<lambda>acc k. acc ++ g k) init ks = init ++ foldl (\<lambda>acc k. acc ++ g k) Map.empty ks"
proof (induction ks arbitrary: init)
  case Nil
  show ?case by simp
next
  case (Cons k ks)
  have "foldl (\<lambda>acc k. acc ++ g k) init (k # ks) = foldl (\<lambda>acc k. acc ++ g k) (init ++ g k) ks"
    by simp
  also have "\<dots> = (init ++ g k) ++ foldl (\<lambda>acc k. acc ++ g k) Map.empty ks"
    by (rule Cons.IH)
  also have "\<dots> = init ++ (g k ++ foldl (\<lambda>acc k. acc ++ g k) Map.empty ks)"
    by simp
  also have "g k ++ foldl (\<lambda>acc k. acc ++ g k) Map.empty ks = foldl (\<lambda>acc k. acc ++ g k) (g k) ks"
    by (rule Cons.IH [symmetric])
  also have "foldl (\<lambda>acc k. acc ++ g k) (g k) ks = foldl (\<lambda>acc k. acc ++ g k) Map.empty (k # ks)"
    by simp
  finally show ?case .
qed

lemma foldl_last_definer:
  "foldl (\<lambda>acc k. acc ++ g k) init ks name =
     (case filter (\<lambda>k. g k name \<noteq> None) ks of
        [] \<Rightarrow> init name
      | k # ks' \<Rightarrow> g (last (k # ks')) name)"
proof (induction ks arbitrary: init)
  case Nil
  show ?case by simp
next
  case (Cons k ks)
  have "foldl (\<lambda>acc k. acc ++ g k) init (k # ks) name
        = foldl (\<lambda>acc k. acc ++ g k) (init ++ g k) ks name"
    by simp
  also note Cons.IH [of "init ++ g k"]
  finally show ?case
    by (simp add: map_add_def split: list.splits option.splits)
qed

lemma spread_attached:
  "get_or_empty r (model_id m)
   ++ foldl (\<lambda>acc alias. acc ++ get_or_empty r alias) Map.empty (aliases m)
   ++ foldl (\<lambda>acc deploymentId. acc ++ get_or_empty r deploymentId) Map.empty
        (deployments_of stats (model_id m))
   = attached r stats m"
proof -
  let ?f = "\<lambda>acc k. acc ++ get_or_empty r k"
  have "foldl ?f Map.empty (model_id m # aliases m @ deployments_of stats (model_id m))
        = foldl ?f (foldl ?f (get_or_empty r (model_id m)) (aliases m))
            (deployments_of stats (model_id m))"
    by simp
  also have "\<dots> = foldl ?f (get_or_empty r (model_id m)) (aliases m)
                   ++ foldl ?f Map.empty (deployments_of stats (model_id m))"
    by (rule foldl_spread)
  also have "foldl ?f (get_or_empty r (model_id m)) (aliases m)
             = get_or_empty r (model_id m) ++ foldl ?f Map.empty (aliases m)"
    by (rule foldl_spread)
  finally have "get_or_empty r (model_id m) ++ foldl ?f Map.empty (aliases m)
                ++ foldl ?f Map.empty (deployments_of stats (model_id m))
                = foldl ?f Map.empty (model_id m # aliases m @ deployments_of stats (model_id m))"
    by (rule sym)
  also have "\<dots> = attached r stats m"
    unfolding attached_def by (rule ext) (simp only: foldl_last_definer)
  finally show ?thesis .
qed

lemma deployments_of_unknown:
  "k \<notin> fst ` set (deployment_pairs stats) \<Longrightarrow> deployments_of stats k = []"
  by (auto simp add: deployments_of_def filter_empty_conv)

lemma lookup_deployments:
  assumes "\<not> inherited_name k"
  shows "(case js_get (map (\<lambda>k. (k, deployments_of stats k))
                        (uniq [] (map fst (deployment_pairs stats)))) k of
            Own deploymentIds \<Rightarrow> Some deploymentIds
          | Undefined \<Rightarrow> Some []
          | Inherited \<Rightarrow> None) = Some (deployments_of stats k)"
  using assms by (simp add: js_get_keyed set_uniq deployments_of_unknown)

lemma lookup_inherited:
  assumes "inherited_name k" "\<not> list_ex (\<lambda>p. inherited_name (fst p)) (deployment_pairs stats)"
  shows "(case js_get (map (\<lambda>k. (k, deployments_of stats k))
                        (uniq [] (map fst (deployment_pairs stats)))) k of
            Own deploymentIds \<Rightarrow> Some deploymentIds
          | Undefined \<Rightarrow> Some []
          | Inherited \<Rightarrow> None) = None"
proof -
  from assms have "k \<notin> fst ` set (deployment_pairs stats)"
    by (auto simp add: list_ex_iff)
  with assms(1) show ?thesis by (simp add: js_get_keyed set_uniq)
qed

lemma attach_pipelines_closed:
  assumes "\<not> list_ex (\<lambda>p. inherited_name (fst p)) (deployment_pairs stats)"
  shows "attach_pipelines r
           (map (\<lambda>k. (k, deployments_of stats k)) (uniq [] (map fst (deployment_pairs stats)))) ms
         = (map (enrich r stats) (takeWhile (\<lambda>m. \<not> inherited_name (model_id m)) ms)
            @ dropWhile (\<lambda>m. \<not> inherited_name (model_id m)) ms,
            if list_ex (\<lambda>m. inherited_name (model_id m)) ms
            then Some (TypeError ''(modelDeploymentsMap[model.model_id] ?? []).reduce is not a function'')
            else None)"
proof (induction ms)
  case Nil
  show ?case by simp
next
  case (Cons m ms)
  show ?case
  proof (cases "inherited_name (model_id m)")
    case True
    from lookup_inherited [OF True assms] True show ?thesis by simp
  next
    case False
    from lookup_deployments [OF False, of stats] False Cons.IH show ?thesis
      by (simp add: enrich_def spread_attached)
  qed
qed

subsection \<open>The handlers\<close>

lemma getTrainedModel_route_eq:
  "getTrainedModel_route wrapError c request tr =
     (case getTrainedModels c (length tr)
             \<lparr>gtm_size = 1000, gtm_query = req_query request,
              gtm_model_id = (if truthy (req_modelId request) then req_modelId request else None)\<rparr> of
        Inl e \<Rightarrow> (customError (wrapError e), tr @ [Call ''getTrainedModels''])
      | Inr result \<Rightarrow>
          if req_with_pipelines request
          then (case getTrainedModelsStats c (Suc (length tr))
                       (Some \<lparr>gts_model_id = (if truthy (req_modelId request)
                                                then req_modelId request else None),
                              gts_size = Some 10000\<rparr>) of
                  Inl e \<Rightarrow>
                    (ok result,
                     tr @ [Call ''getTrainedModels'', Call ''getTrainedModelsStats'', Debug e])
                | Inr stats \<Rightarrow>
                    if list_ex (\<lambda>p. inherited_name (fst p))
                         (deployment_pairs (trained_model_stats stats))
                    then (ok result,
                          tr @ [Call ''getTrainedModels'', Call ''getTrainedModelsStats'',
                                Debug (TypeError ''acc[curr.model_id].push is not a function'')])
                    else (case getModelsPipelines c (Suc (Suc (length tr)))
                                 (requested_names result (trained_model_stats stats)) of
                            Inl e \<Rightarrow>
                              (ok result,
                               tr @ [Call ''getTrainedModels'', Call ''getTrainedModelsStats'',
                                     Call ''getModelsPipelines'', Debug e])
                          | Inr pipelinesResponse \<Rightarrow>
                              (ok (map (enrich pipelinesResponse (trained_model_stats stats))
                                     (takeWhile (\<lambda>model. \<not> inherited_name (model_id model)) result)
                                   @ dropWhile (\<lambda>model. \<not> inherited_name (model_id model)) result),
                               tr @ [Call ''getTrainedModels'', Call ''getTrainedModelsStats'',
                                     Call ''getModelsPipelines'']
                                  @ (if list_ex (\<lambda>model. inherited_name (model_id model)) result
                                     then [Debug (TypeError
                                       ''(modelDeploymentsMap[model.model_id] ?? []).reduce is not a function'')]
                                     else []))))
          else (ok result, tr @ [Call ''getTrainedModels'']))"
proof (cases "getTrainedModels c (length tr)
             \<lparr>gtm_size = 1000, gtm_query = req_query request,
              gtm_model_id = (if truthy (req_modelId request) then req_modelId request else None)\<rparr>")
  case (Inl e)
  then show ?thesis by (simp add: getTrainedModel_route_def invoke_def)
next
  case models: (Inr result)
  show ?thesis
  proof (cases "req_with_pipelines request")
    case False
    with models show ?thesis by (simp add: getTrainedModel_route_def invoke_def)
  next
    case True
    show ?thesis
    proof (cases "getTrainedModelsStats c (Suc (length tr))
                       (Some \<lparr>gts_model_id = (if truthy (req_modelId request)
                                                then req_modelId request else None),
                              gts_size = Some 10000\<rparr>)")
      case (Inl e)
      with models True show ?thesis
        by (simp add: getTrainedModel_route_def invoke_def mlLog_debug_def)
    next
      case stats: (Inr stats)
      show ?thesis
      proof (cases "list_ex (\<lambda>p. inherited_name (fst p)) (deployment_pairs (trained_model_stats stats))")
        case clash: True
        from models True stats clash modelDeploymentsMap_clash [OF clash] show ?thesis
          by (simp add: getTrainedModel_route_def invoke_def mlLog_debug_def)
      next
        case clean: False
        note obj = modelDeploymentsMap_closed [OF clean]
        show ?thesis
        proof (cases "getModelsPipelines c (Suc (Suc (length tr)))
                                 (requested_names result (trained_model_stats stats))")
          case (Inl e)
          with models True stats clean obj show ?thesis
            by (simp add: getTrainedModel_route_def invoke_def mlLog_debug_def
                modelIdsAndAliases_requested_names)
        next
          case (Inr pipelinesResponse)
          with models True stats clean obj show ?thesis
            by (simp add: getTrainedModel_route_def invoke_def mlLog_debug_def
                modelIdsAndAliases_requested_names attach_pipelines_closed [OF clean])
        qed
      qed
    qed
  qed
qed

lemma enriched_model_ids:
  "map (model_id \<circ> enrich r stats) (takeWhile P ms) @ map model_id (dropWhile P ms)
   = map model_id ms"
proof -
  have "model_id \<circ> enrich r stats = model_id"
    by (simp add: fun_eq_iff enrich_def)
  then show ?thesis
    by (simp only: map_append [symmetric] takeWhile_dropWhile_id)
qed

lemma enriched_configs:
  "map (config \<circ> enrich r stats) (takeWhile P ms) @ map config (dropWhile P ms)
   = map config ms"
proof -
  have "config \<circ> enrich r stats = config"
    by (simp add: fun_eq_iff enrich_def)
  then show ?thesis
    by (simp only: map_append [symmetric] takeWhile_dropWhile_id)
qed

lemma enriched_aliases:
  "map (model_aliases \<circ> enrich r stats) (takeWhile P ms) @ map model_aliases (dropWhile P ms)
   = map model_aliases ms"
proof -
  have "model_aliases \<circ> enrich r stats = model_aliases"
    by (simp add: fun_eq_iff enrich_def)
  then show ?thesis
    by (simp only: map_append [symmetric] takeWhile_dropWhile_id)
qed

lemma getTrainedModel_route_answer:
  "(case getTrainedModels c (length tr)
           \<lparr>gtm_size = 1000, gtm_query = req_query request,
            gtm_model_id = (if truthy (req_modelId request) then req_modelId request else None)\<rparr> of
      Inl e \<Rightarrow> fst (getTrainedModel_route wrapError c request tr) = customError (wrapError e)
    | Inr result \<Rightarrow>
        (\<exists>body. fst (getTrainedModel_route wrapError c request tr) = ok body
             \<and> map model_id body = map model_id result
             \<and> map model_aliases body = map model_aliases result
             \<and> map config body = map config result))"
proof -
  define a1 where "a1 = \<lparr>gtm_size = 1000, gtm_query = req_query request,
            gtm_model_id = (if truthy (req_modelId request) then req_modelId request else None)\<rparr>"
  define a2 where "a2 = Some \<lparr>gts_model_id = (if truthy (req_modelId request)
                                                then req_modelId request else None),
                              gts_size = Some 10000\<rparr>"
  note eq = getTrainedModel_route_eq [of wrapError c request tr, folded a1_def a2_def]
  have "case getTrainedModels c (length tr) a1 of
      Inl e \<Rightarrow> fst (getTrainedModel_route wrapError c request tr) = customError (wrapError e)
    | Inr result \<Rightarrow>
        (\<exists>body. fst (getTrainedModel_route wrapError c request tr) = ok body
             \<and> map model_id body = map model_id result
             \<and> map model_aliases body = map model_aliases result
             \<and> map config body = map config result)"
  proof (cases "getTrainedModels c (length tr) a1")
    case (Inl e)
    then show ?thesis by (simp add: eq)
  next
    case models: (Inr result)
    show ?thesis
    proof (cases "req_with_pipelines request")
      case False
      with models show ?thesis by (simp add: eq)
    next
      case True
      show ?thesis
      proof (cases "getTrainedModelsStats c (Suc (length tr)) a2")
        case (Inl e)
        with models True show ?thesis by (simp add: eq)
      next
        case stats: (Inr stats)
        show ?thesis
        proof (cases "list_ex (\<lambda>p. inherited_name (fst p)) (deployment_pairs (trained_model_stats stats))")
          case clash: True
          with models True stats show ?thesis by (simp add: eq)
        next
          case clean: False
          show ?thesis
          proof (cases "getModelsPipelines c (Suc (Suc (length tr)))
                                 (requested_names result (trained_model_stats stats))")
            case (Inl e)
            with models True stats clean show ?thesis by (simp add: eq)
          next
            case (Inr pipelinesResponse)
            with models True stats clean show ?thesis
              by (simp add: eq enriched_model_ids enriched_configs enriched_aliases)
          qed
        qed
      qed
    qed
  qed
  then show ?thesis unfolding a1_def .
qed

lemma truthy_or_absent:
  "(if truthy x then x else None) = (case x of None \<Rightarrow> None | Some v \<Rightarrow> if v = [] then None else Some v)"
  by (simp add: truthy_def split: option.splits)

lemma proxies_one_call:
  "proxies wrapError name answer tr
     (case invoke name answer tr of
        (Inr body, tr1) \<Rightarrow> (ok body, tr1)
      | (Inl e, tr1) \<Rightarrow> (customError (wrapError e), tr1))"
  by (simp add: proxies_def invoke_def split: sum.splits)

lemma getTrainedModelPipelines_route_proxies:
  "proxies wrapError ''getModelsPipelines''
     (\<lambda>i. map_sum (\<lambda>e. e) (map (\<lambda>entry. \<lparr>mp_model_id = fst entry, mp_pipelines = snd entry\<rparr>))
             (getModelsPipelines c i (split_commas [] modelId)))
     tr (getTrainedModelPipelines_route wrapError c modelId tr)"
  by (simp add: proxies_def invoke_def getTrainedModelPipelines_route_def split: sum.splits)

subsection \<open>The example clients\<close>

lemma example_stats_clean:
  "\<not> list_ex (\<lambda>p. inherited_name (fst p)) (deployment_pairs (trained_model_stats example_stats))"
  by (simp add: deployment_pairs_def example_stats_def inherited_name_def object_prototype_keys_def)

lemma example_indices:
  "array_index ''10'' = Some 10" "array_index ''9'' = Some 9" "array_index ''b'' = None"
  by (simp_all add: array_index_def digit_def)

lemma example_pairs:
  "deployment_pairs (trained_model_stats example_stats)
   = [(''10'', ''d10''), (''b'', ''db''), (''9'', ''d9''), (''10'', ''d10b'')]"
  by (simp add: deployment_pairs_def example_stats_def)

lemma example_key_order: "js_key_order [''10'', ''b'', ''9''] = [''9'', ''10'', ''b'']"
  by (simp add: js_key_order_def example_indices index_or_zero_def sort_key_def)

lemma example_deployments:
  "deployments_of (trained_model_stats example_stats) ''9'' = [''d9'']"
  "deployments_of (trained_model_stats example_stats) ''10'' = [''d10'', ''d10b'']"
  "deployments_of (trained_model_stats example_stats) ''b'' = [''db'']"
  by (simp_all add: deployments_of_def example_pairs)

lemma example_names:
  "requested_names [model_b, model_constructor, model_10] (trained_model_stats example_stats)
   = [''b'', ''b-alias'', ''constructor'', ''10'', ''d9'', ''d10'', ''d10b'', ''db'']"
  by (simp add: requested_names_def example_pairs example_key_order example_deployments
      model_b_def model_constructor_def model_10_def aliases_def)

lemma example_names_b:
  "requested_names [model_b] (trained_model_stats example_stats)
   = [''b'', ''b-alias'', ''d9'', ''d10'', ''d10b'', ''db'']"
  by (simp add: requested_names_def example_pairs example_key_order example_deployments
      model_b_def aliases_def)

lemma example_attached_b:
  "attached example_pipelines (trained_model_stats example_stats) model_b
   = [''p0'' \<mapsto> ''of b'', ''p1'' \<mapsto> ''of b-alias'', ''p2'' \<mapsto> ''of db'']"
proof -
  show ?thesis
    by (rule ext)
       (simp add: attached_def example_deployments model_b_def aliases_def get_or_empty_def
          example_pipelines_def)
qed

subsection \<open>The routes as proxies\<close>

text \<open>
  With \<^verbatim>\<open>with_pipelines\<close> set and a statistics call that throws, the first handler
  makes two client calls, logs the error and answers 200 with the models: it does not
  return \<^verbatim>\<open>response.customError(wrapError(e))\<close> with the error thrown, and it is not a
  proxy of its \<^verbatim>\<open>getTrainedModels\<close> call (Claim C6 as the specification has it).
\<close>

theorem getTrainedModel_route_counterexample:
  "getTrainedModel_route (\<lambda>e. e) failing_stats_clients with_pipelines_request []
     = (ok [model_b, model_constructor, model_10],
        [Call ''getTrainedModels'', Call ''getTrainedModelsStats'',
         Debug (Thrown ''security_exception'')])
   \<and> getTrainedModelsStats failing_stats_clients 1
         (Some \<lparr>gts_model_id = None, gts_size = Some 10000\<rparr>) = Inl (Thrown ''security_exception'')
   \<and> fst (getTrainedModel_route (\<lambda>e. e) failing_stats_clients with_pipelines_request [])
       \<noteq> customError (Thrown ''security_exception'')
   \<and> \<not> proxies (\<lambda>e. e) ''getTrainedModels''
         (\<lambda>i. getTrainedModels failing_stats_clients i
                 \<lparr>gtm_size = 1000, gtm_query = ''from=0'', gtm_model_id = None\<rparr>) []
         (getTrainedModel_route (\<lambda>e. e) failing_stats_clients with_pipelines_request [])"
  by (simp add: getTrainedModel_route_def invoke_def mlLog_debug_def failing_stats_clients_def
      example_clients_def with_pipelines_request_def truthy_def proxies_def)

text \<open>
  Claim C6, amended. Every handler but the first is a thin proxy of one client call:
  run after the events \<open>tr\<close>, the call is its only new event, its arguments are built
  from the request, its result is returned with \<^verbatim>\<open>response.ok\<close> (the pipelines route
  returning the entries of the map as a list, and asking for the pieces of the
  identifier between its commas), and what it throws is returned with
  \<^verbatim>\<open>response.customError(wrapError(e))\<close>.

  The first handler calls \<^verbatim>\<open>getTrainedModels\<close> and answers \<^verbatim>\<open>customError\<close> exactly when
  this call throws. Otherwise it answers \<^verbatim>\<open>ok\<close> with the models returned, which keep
  their identifiers, aliases and configuration. When \<^verbatim>\<open>with_pipelines\<close> is set it goes
  on, and whatever ends the enrichment is logged with \<^verbatim>\<open>mlLog.debug\<close> and changes
  nothing else in the answer:
  \<^item> it calls \<^verbatim>\<open>getTrainedModelsStats\<close>; if the call throws, the models are returned
    as they came;
  \<^item> if the statistics report a deployment of a model named like a property every
    object inherits, a \<^verbatim>\<open>TypeError\<close> ends the enrichment before the third call, and the
    models are returned as they came;
  \<^item> it calls \<^verbatim>\<open>getModelsPipelines\<close> with \<open>requested_names\<close>; if the call throws, the
    models are returned as they came;
  \<^item> it attaches to the models, in their order, the pipelines found under their
    identifier, aliases and deployments, up to the first model named like an
    inherited property: a \<^verbatim>\<open>TypeError\<close> ends the enrichment there, and this model and
    those after it are returned as they came.
\<close>

theorem trainedModelsRoutes_amended:
  "proxies wrapError ''getTrainedModelsStats'' (\<lambda>i. getTrainedModelsStats c i None) tr
     (getTrainedModelStats_route wrapError c tr)
   \<and> proxies wrapError ''getTrainedModelsStats''
       (\<lambda>i. getTrainedModelsStats c i
               (Some \<lparr>gts_model_id = (if modelId = [] then None else Some modelId),
                      gts_size = None\<rparr>)) tr
       (getTrainedModelStatsById_route wrapError c modelId tr)
   \<and> proxies wrapError ''getModelsPipelines''
       (\<lambda>i. map_sum (\<lambda>e. e) (map (\<lambda>entry. \<lparr>mp_model_id = fst entry, mp_pipelines = snd entry\<rparr>))
               (getModelsPipelines c i (split_commas [] modelId))) tr
       (getTrainedModelPipelines_route wrapError c modelId tr)
   \<and> join_commas (split_commas [] modelId) = modelId
   \<and> list_all (\<lambda>piece. CHR '','' \<notin> set piece) (split_commas [] modelId)
   \<and> proxies wrapError ''putTrainedModel''
       (\<lambda>i. putTrainedModel c i
               \<lparr>put_model_id = putreq_modelId putreq, put_body = putreq_body putreq,
                put_defer_definition_decompression =
                  (if putreq_defer_definition_decompression putreq then Some True else None)\<rparr>) tr
       (putTrainedModel_route wrapError c putreq tr)
   \<and> proxies wrapError ''deleteTrainedModel'' (\<lambda>i. deleteTrainedModel c i modelId) tr
       (deleteTrainedModel_route wrapError c modelId tr)
   \<and> proxies wrapError ''startTrainedModelDeployment''
       (\<lambda>i. startTrainedModelDeployment c i \<lparr>start_model_id = modelId, start_query = query\<rparr>) tr
       (startTrainedModelDeployment_route wrapError c modelId query tr)
   \<and> proxies wrapError ''updateTrainedModelDeployment''
       (\<lambda>i. updateTrainedModelDeployment c i \<lparr>update_model_id = modelId, update_body = body\<rparr>) tr
       (updateTrainedModelDeployment_route wrapError c modelId body tr)
   \<and> proxies wrapError ''stopTrainedModelDeployment''
       (\<lambda>i. stopTrainedModelDeployment c i
               \<lparr>stop_model_id = modelId,
                stop_force = (case force of None \<Rightarrow> False | Some f \<Rightarrow> f)\<rparr>) tr
       (stopTrainedModelDeployment_route wrapError c modelId force tr)
   \<and> proxies wrapError ''ingest.simulate''
       (\<lambda>i. ingest_simulate c i \<lparr>sim_pipeline = pipeline, sim_docs = docs\<rparr>) tr
       (simulateIngestPipeline_route wrapError c pipeline docs tr)
   \<and> proxies wrapError ''inferTrainedModel''
       (\<lambda>i. inferTrainedModel c i
               \<lparr>infer_model_id = inferreq_modelId inferreq, infer_docs = inferreq_docs inferreq,
                infer_inference_config = inferreq_inference_config inferreq,
                infer_timeout = (case inferreq_timeout inferreq of
                                   None \<Rightarrow> None
                                 | Some t \<Rightarrow> if t = [] then None else Some t)\<rparr>) tr
       (inferTrainedModelDeployment_route wrapError c inferreq tr)
   \<and> getTrainedModel_route wrapError c request tr =
       (case getTrainedModels c (length tr)
               \<lparr>gtm_size = 1000, gtm_query = req_query request,
                gtm_model_id = (case req_modelId request of
                                  None \<Rightarrow> None
                                | Some i \<Rightarrow> if i = [] then None else Some i)\<rparr> of
          Inl e \<Rightarrow> (customError (wrapError e), tr @ [Call ''getTrainedModels''])
        | Inr result \<Rightarrow>
            if req_with_pipelines request
            then (case getTrainedModelsStats c (Suc (length tr))
                         (Some \<lparr>gts_model_id = (case req_modelId request of
                                                  None \<Rightarrow> None
                                                | Some i \<Rightarrow> if i = [] then None else Some i),
                                gts_size = Some 10000\<rparr>) of
                    Inl e \<Rightarrow>
                      (ok result,
                       tr @ [Call ''getTrainedModels'', Call ''getTrainedModelsStats'', Debug e])
                  | Inr stats \<Rightarrow>
                      if list_ex (\<lambda>p. inherited_name (fst p))
                           (deployment_pairs (trained_model_stats stats))
                      then (ok result,
                            tr @ [Call ''getTrainedModels'', Call ''getTrainedModelsStats'',
                                  Debug (TypeError ''acc[curr.model_id].push is not a function'')])
                      else (case getModelsPipelines c (Suc (Suc (length tr)))
                                   (requested_names result (trained_model_stats stats)) of
                              Inl e \<Rightarrow>
                                (ok result,
                                 tr @ [Call ''getTrainedModels'', Call ''getTrainedModelsStats'',
                                       Call ''getModelsPipelines'', Debug e])
                            | Inr pipelinesResponse \<Rightarrow>
                                (ok (map (enrich pipelinesResponse (trained_model_stats stats))
                                       (takeWhile (\<lambda>model. \<not> inherited_name (model_id model)) result)
                                     @ dropWhile (\<lambda>model. \<not> inherited_name (model_id model)) result),
                                 tr @ [Call ''getTrainedModels'', Call ''getTrainedModelsStats'',
                                       Call ''getModelsPipelines'']
                                    @ (if list_ex (\<lambda>model. inherited_name (model_id model)) result
                                       then [Debug (TypeError
                                         ''(modelDeploymentsMap[model.model_id] ?? []).reduce is not a function'')]
                                       else []))))
            else (ok result, tr @ [Call ''getTrainedModels'']))
   \<and> (case getTrainedModels c (length tr)
              \<lparr>gtm_size = 1000, gtm_query = req_query request,
               gtm_model_id = (case req_modelId request of
                                  None \<Rightarrow> None
                                | Some i \<Rightarrow> if i = [] then None else Some i)\<rparr> of
         Inl e \<Rightarrow> fst (getTrainedModel_route wrapError c request tr) = customError (wrapError e)
       | Inr result \<Rightarrow>
           (\<exists>body. fst (getTrainedModel_route wrapError c request tr) = ok body
                \<and> map model_id body = map model_id result
                \<and> map model_aliases body = map model_aliases result
                \<and> map config body = map config result))"
proof (intro conjI)
  show "proxies wrapError ''getTrainedModelsStats'' (\<lambda>i. getTrainedModelsStats c i None) tr
     (getTrainedModelStats_route wrapError c tr)"
    unfolding getTrainedModelStats_route_def by (rule proxies_one_call)
  show "proxies wrapError ''getTrainedModelsStats''
       (\<lambda>i. getTrainedModelsStats c i
               (Some \<lparr>gts_model_id = (if modelId = [] then None else Some modelId),
                      gts_size = None\<rparr>)) tr
       (getTrainedModelStatsById_route wrapError c modelId tr)"
    by (simp add: proxies_def invoke_def getTrainedModelStatsById_route_def truthy_def
        split: sum.splits)
  show "proxies wrapError ''getModelsPipelines''
       (\<lambda>i. map_sum (\<lambda>e. e) (map (\<lambda>entry. \<lparr>mp_model_id = fst entry, mp_pipelines = snd entry\<rparr>))
               (getModelsPipelines c i (split_commas [] modelId))) tr
       (getTrainedModelPipelines_route wrapError c modelId tr)"
    by (rule getTrainedModelPipelines_route_proxies)
  show "join_commas (split_commas [] modelId) = modelId"
    by (simp add: join_split_commas)
  show "list_all (\<lambda>piece. CHR '','' \<notin> set piece) (split_commas [] modelId)"
    by (rule split_commas_no_comma) simp
  show "proxies wrapError ''putTrainedModel''
       (\<lambda>i. putTrainedModel c i
               \<lparr>put_model_id = putreq_modelId putreq, put_body = putreq_body putreq,
                put_defer_definition_decompression =
                  (if putreq_defer_definition_decompression putreq then Some True else None)\<rparr>) tr
       (putTrainedModel_route wrapError c putreq tr)"
    unfolding putTrainedModel_route_def by (rule proxies_one_call)
  show "proxies wrapError ''deleteTrainedModel'' (\<lambda>i. deleteTrainedModel c i modelId) tr
       (deleteTrainedModel_route wrapError c modelId tr)"
    unfolding deleteTrainedModel_route_def by (rule proxies_one_call)
  show "proxies wrapError ''startTrainedModelDeployment''
       (\<lambda>i. startTrainedModelDeployment c i \<lparr>start_model_id = modelId, start_query = query\<rparr>) tr
       (startTrainedModelDeployment_route wrapError c modelId query tr)"
    unfolding startTrainedModelDeployment_route_def by (rule proxies_one_call)
  show "proxies wrapError ''updateTrainedModelDeployment''
       (\<lambda>i. updateTrainedModelDeployment c i \<lparr>update_model_id = modelId, update_body = body\<rparr>) tr
       (updateTrainedModelDeployment_route wrapError c modelId body tr)"
    unfolding updateTrainedModelDeployment_route_def by (rule proxies_one_call)
  show "proxies wrapError ''stopTrainedModelDeployment''
       (\<lambda>i. stopTrainedModelDeployment c i
               \<lparr>stop_model_id = modelId,
                stop_force = (case force of None \<Rightarrow> False | Some f \<Rightarrow> f)\<rparr>) tr
       (stopTrainedModelDeployment_route wrapError c modelId force tr)"
    unfolding stopTrainedModelDeployment_route_def by (rule proxies_one_call)
  show "proxies wrapError ''ingest.simulate''
       (\<lambda>i. ingest_simulate c i \<lparr>sim_pipeline = pipeline, sim_docs = docs\<rparr>) tr
       (simulateIngestPipeline_route wrapError c pipeline docs tr)"
    unfolding simulateIngestPipeline_route_def by (rule proxies_one_call)
  show "proxies wrapError ''inferTrainedModel''
       (\<lambda>i. inferTrainedModel c i
               \<lparr>infer_model_id = inferreq_modelId inferreq, infer_docs = inferreq_docs inferreq,
                infer_inference_config = inferreq_inference_config inferreq,
                infer_timeout = (case inferreq_timeout inferreq of
                                   None \<Rightarrow> None
                                 | Some t \<Rightarrow> if t = [] then None else Some t)\<rparr>) tr
       (inferTrainedModelDeployment_route wrapError c inferreq tr)"
    unfolding inferTrainedModelDeployment_route_def truthy_or_absent by (rule proxies_one_call)
qed (rule getTrainedModel_route_eq [unfolded truthy_or_absent]
          getTrainedModel_route_answer [unfolded truthy_or_absent])+

text \<open>
  Claim C6, amended, on the example clients. Asked for all models with their pipelines,
  the first handler asks for the pipelines of the names in the order written, \<open>d9\<close>
  before \<open>d10\<close>; it attaches to the model \<open>b\<close> the pipeline \<open>p1\<close> of its alias and the
  pipeline \<open>p2\<close> of its deployment, and stops at the model \<open>constructor\<close>, which it
  returns with the model after it as they came. Asked for the model \<open>b\<close> alone it
  makes the three calls and logs nothing. With a deployed model named \<open>toString\<close> it
  stops after the second call. The pipelines route asks for the three pieces of
  \<open>b,,db\<close>. The route that deletes makes its one call, and a second call would show.
\<close>

theorem trainedModelsRoutes_amended_witness:
  "getTrainedModel_route (\<lambda>e. e) example_clients with_pipelines_request []
     = (ok [model_b\<lparr>pipelines := Some [''p0'' \<mapsto> ''of b'', ''p1'' \<mapsto> ''of b-alias'',
                                         ''p2'' \<mapsto> ''of db'']\<rparr>,
            model_constructor, model_10],
        [Call ''getTrainedModels'', Call ''getTrainedModelsStats'', Call ''getModelsPipelines'',
         Debug (TypeError ''(modelDeploymentsMap[model.model_id] ?? []).reduce is not a function'')])
   \<and> getTrainedModel_route (\<lambda>e. e) example_clients model_b_request []
     = (ok [model_b\<lparr>pipelines := Some [''p0'' \<mapsto> ''of b'', ''p1'' \<mapsto> ''of b-alias'',
                                         ''p2'' \<mapsto> ''of db'']\<rparr>],
        [Call ''getTrainedModels'', Call ''getTrainedModelsStats'', Call ''getModelsPipelines''])
   \<and> getTrainedModel_route (\<lambda>e. e) toString_stats_clients with_pipelines_request []
     = (ok [model_b, model_constructor, model_10],
        [Call ''getTrainedModels'', Call ''getTrainedModelsStats'',
         Debug (TypeError ''acc[curr.model_id].push is not a function'')])
   \<and> split_commas [] ''b,,db'' = [''b'', [], ''db'']
   \<and> getTrainedModelPipelines_route (\<lambda>e. e) example_clients ''b,,db'' []
     = (ok (map (\<lambda>entry. \<lparr>mp_model_id = fst entry, mp_pipelines = snd entry\<rparr>) example_pipelines),
        [Call ''getModelsPipelines''])
   \<and> deleteTrainedModel_route (\<lambda>e. e) example_clients ''b'' []
     = (ok ''acknowledged'', [Call ''deleteTrainedModel''])
   \<and> deleteTrainedModel_route (\<lambda>e. e) example_clients ''b'' [Call ''deleteTrainedModel'']
     = (customError (Thrown ''unexpected call''),
        [Call ''deleteTrainedModel'', Call ''deleteTrainedModel''])"
proof -
  let ?all = "[model_b, model_constructor, model_10]"
  let ?inherited = "\<lambda>model :: string TrainedModelConfigResponse. inherited_name (model_id model)"
  let ?enriched_b = "model_b\<lparr>pipelines := Some [''p0'' \<mapsto> ''of b'', ''p1'' \<mapsto> ''of b-alias'',
                                                  ''p2'' \<mapsto> ''of db'']\<rparr>"
  have models: "getTrainedModels example_clients 0
                  \<lparr>gtm_size = 1000, gtm_query = ''from=0'', gtm_model_id = None\<rparr> = Inr ?all"
    and model: "getTrainedModels example_clients 0
                  \<lparr>gtm_size = 1000, gtm_query = ''from=0'', gtm_model_id = Some ''b''\<rparr> = Inr [model_b]"
    and stats: "getTrainedModelsStats example_clients (Suc 0)
                  (Some \<lparr>gts_model_id = None, gts_size = Some 10000\<rparr>) = Inr example_stats"
    and stats_b: "getTrainedModelsStats example_clients (Suc 0)
                  (Some \<lparr>gts_model_id = Some ''b'', gts_size = Some 10000\<rparr>) = Inr example_stats"
    and found: "getModelsPipelines example_clients (Suc (Suc 0))
                  [''b'', ''b-alias'', ''constructor'', ''10'', ''d9'', ''d10'', ''d10b'', ''db'']
                = Inr example_pipelines"
    and found_b: "getModelsPipelines example_clients (Suc (Suc 0))
                  [''b'', ''b-alias'', ''d9'', ''d10'', ''d10b'', ''db''] = Inr example_pipelines"
    and pieces: "getModelsPipelines example_clients 0 [''b'', [], ''db''] = Inr example_pipelines"
    and deleted: "deleteTrainedModel example_clients 0 ''b'' = Inr ''acknowledged''"
    and again: "deleteTrainedModel example_clients (Suc 0) ''b'' = Inl (Thrown ''unexpected call'')"
    by (simp_all add: example_clients_def)
  have inherited: "\<not> inherited_name ''b''" "inherited_name ''constructor''" "\<not> inherited_name ''10''"
    by (simp_all add: inherited_name_def object_prototype_keys_def)
  have ids: "model_id model_b = ''b''" "model_id model_constructor = ''constructor''"
    "model_id model_10 = ''10''"
    by (simp_all add: model_b_def model_constructor_def model_10_def)
  have enriched: "enrich example_pipelines (trained_model_stats example_stats) model_b = ?enriched_b"
    by (simp add: enrich_def example_attached_b)
  have split: "split_commas [] ''b,,db'' = [''b'', [], ''db'']"
    by simp

  note all_models = trainedModelsRoutes_amended
    [where wrapError = "\<lambda>e. e" and c = example_clients and request = with_pipelines_request
       and tr = "[]" and modelId = "''b,,db''"]
  note one_model = trainedModelsRoutes_amended
    [where wrapError = "\<lambda>e. e" and c = example_clients and request = model_b_request
       and tr = "[]" and modelId = "''b''"]
  note second = trainedModelsRoutes_amended
    [where wrapError = "\<lambda>e. e" and c = example_clients and tr = "[Call ''deleteTrainedModel'']"
       and modelId = "''b''"]
  note clash = trainedModelsRoutes_amended
    [where wrapError = "\<lambda>e. e" and c = toString_stats_clients
       and request = with_pipelines_request and tr = "[]"]

  have 1: "getTrainedModel_route (\<lambda>e. e) example_clients with_pipelines_request []
           = (ok [?enriched_b, model_constructor, model_10],
              [Call ''getTrainedModels'', Call ''getTrainedModelsStats'', Call ''getModelsPipelines'',
               Debug (TypeError ''(modelDeploymentsMap[model.model_id] ?? []).reduce is not a function'')])"
    using all_models [THEN conjunct2, THEN conjunct2, THEN conjunct2, THEN conjunct2,
        THEN conjunct2, THEN conjunct2, THEN conjunct2, THEN conjunct2, THEN conjunct2,
        THEN conjunct2, THEN conjunct2, THEN conjunct2, THEN conjunct1]
    by (simp add: with_pipelines_request_def truthy_def models stats found example_stats_clean
        example_names inherited ids enriched)
  have 2: "getTrainedModel_route (\<lambda>e. e) example_clients model_b_request []
           = (ok [?enriched_b],
              [Call ''getTrainedModels'', Call ''getTrainedModelsStats'', Call ''getModelsPipelines''])"
    using one_model [THEN conjunct2, THEN conjunct2, THEN conjunct2, THEN conjunct2,
        THEN conjunct2, THEN conjunct2, THEN conjunct2, THEN conjunct2, THEN conjunct2,
        THEN conjunct2, THEN conjunct2, THEN conjunct2, THEN conjunct1]
    by (simp add: model_b_request_def truthy_def model stats_b found_b example_stats_clean
        example_names_b inherited ids enriched)
  have 3: "getTrainedModel_route (\<lambda>e. e) toString_stats_clients with_pipelines_request []
           = (ok ?all,
              [Call ''getTrainedModels'', Call ''getTrainedModelsStats'',
               Debug (TypeError ''acc[curr.model_id].push is not a function'')])"
    using clash [THEN conjunct2, THEN conjunct2, THEN conjunct2, THEN conjunct2,
        THEN conjunct2, THEN conjunct2, THEN conjunct2, THEN conjunct2, THEN conjunct2,
        THEN conjunct2, THEN conjunct2, THEN conjunct2, THEN conjunct1]
    by (simp add: with_pipelines_request_def truthy_def toString_stats_clients_def models
        deployment_pairs_def inherited_name_def object_prototype_keys_def)
  have 4: "getTrainedModelPipelines_route (\<lambda>e. e) example_clients ''b,,db'' []
           = (ok (map (\<lambda>entry. \<lparr>mp_model_id = fst entry, mp_pipelines = snd entry\<rparr>)
                    example_pipelines),
              [Call ''getModelsPipelines''])"
    using all_models [THEN conjunct2, THEN conjunct2, THEN conjunct1]
    by (simp add: proxies_def prod_eq_iff split pieces)
  have 5: "deleteTrainedModel_route (\<lambda>e. e) example_clients ''b'' []
           = (ok ''acknowledged'', [Call ''deleteTrainedModel''])"
    using one_model [THEN conjunct2, THEN conjunct2, THEN conjunct2, THEN conjunct2,
        THEN conjunct2, THEN conjunct2, THEN conjunct1]
    by (simp add: proxies_def prod_eq_iff deleted)
  have 6: "deleteTrainedModel_route (\<lambda>e. e) example_clients ''b'' [Call ''deleteTrainedModel'']
           = (customError (Thrown ''unexpected call''),
              [Call ''deleteTrainedModel'', Call ''deleteTrainedModel''])"
    using second [THEN conjunct2, THEN conjunct2, THEN conjunct2, THEN conjunct2,
        THEN conjunct2, THEN conjunct2, THEN conjunct1]
    by (simp add: proxies_def prod_eq_iff again)
  from 1 2 3 split 4 5 6 show ?thesis
    by (intro conjI)
qed

end
